(* ===== verification/Prelude.thy ===== *)
theory Prelude
  imports Complex_Main "HOL-Library.Word" "HOL-Library.Sublist"
begin

text \<open>
  Shared ground of the development: the machine integers of the Rust sources as words, the
  floating point operations as a record of functions, the third-party JSON values as a datatype,
  decimal rendering as used by \<^verbatim>\<open>format!\<close>, and the generic list and option lemmas that the
  component theories use.

  \<^item> \<open>usize\<close> is 64 bits wide (the supported targets are 64-bit); arithmetic on words wraps as the
    release profile of the crates does (no \<^verbatim>\<open>overflow-checks\<close> is set in any manifest).
  \<^item> \<open>f64\<close> is a type variable together with a record \<open>f64_ops\<close> of the operations the code performs.
    Every theorem holds for every choice of the operations, in particular for IEEE 754 with its
    rounding.
\<close>

section \<open>Machine integers\<close>

type_synonym u8 = "8 word"
type_synonym u32 = "32 word"
type_synonym u64 = "64 word"
type_synonym usize = "64 word"

text \<open>\<^verbatim>\<open>crates/agent/src/agent/utils.rs\<close>: clamp a \<open>usize\<close> into a \<open>u32\<close>.\<close>

definition u32_from_usize :: "usize \<Rightarrow> u32" where
  "u32_from_usize v = (if unat v < 2 ^ 32 then ucast v else - 1)"

definition saturating_add :: "'a::len word \<Rightarrow> 'a word \<Rightarrow> 'a word" where
  "saturating_add a b = (if unat a + unat b < 2 ^ LENGTH('a) then a + b else - 1)"

definition saturating_sub :: "'a::len word \<Rightarrow> 'a word \<Rightarrow> 'a word" where
  "saturating_sub a b = (if b \<le> a then a - b else 0)"

definition saturating_mul :: "'a::len word \<Rightarrow> 'a word \<Rightarrow> 'a word" where
  "saturating_mul a b = (if unat a * unat b < 2 ^ LENGTH('a) then a * b else - 1)"

section \<open>Floating point operations\<close>

record 'f f64_ops =
  f_of_nat :: "nat \<Rightarrow> 'f"              \<comment> \<open>\<^verbatim>\<open>n as f64\<close> and the float literals that are whole numbers\<close>
  f_add :: "'f \<Rightarrow> 'f \<Rightarrow> 'f"
  f_mul :: "'f \<Rightarrow> 'f \<Rightarrow> 'f"
  f_div :: "'f \<Rightarrow> 'f \<Rightarrow> 'f"
  f_lt :: "'f \<Rightarrow> 'f \<Rightarrow> bool"
  f_min :: "'f \<Rightarrow> 'f \<Rightarrow> 'f"
  f_max :: "'f \<Rightarrow> 'f \<Rightarrow> 'f"
  f_floor :: "'f \<Rightarrow> 'f"
  f_sqrt :: "'f \<Rightarrow> 'f"
  f_powi :: "'f \<Rightarrow> int \<Rightarrow> 'f"
  f_to_u32 :: "'f \<Rightarrow> u32"              \<comment> \<open>\<^verbatim>\<open>x as u32\<close>: truncating and saturating\<close>
  f_to_u64 :: "'f \<Rightarrow> u64"              \<comment> \<open>\<^verbatim>\<open>x as u64\<close> and \<^verbatim>\<open>x as usize\<close>\<close>
  f_fmt :: "nat \<Rightarrow> 'f \<Rightarrow> string"       \<comment> \<open>\<^verbatim>\<open>{:.n}\<close>\<close>

text \<open>Decimal rendering of unsigned integers, as \<^verbatim>\<open>{}\<close> prints them.\<close>

fun show_nat :: "nat \<Rightarrow> string" where
  "show_nat n = (if n < 10 then [char_of (48 + n)] else show_nat (n div 10) @ [char_of (48 + n mod 10)])"

declare show_nat.simps [simp del]

definition show_usize :: "usize \<Rightarrow> string" where
  "show_usize w = show_nat (unat w)"

definition show_int :: "int \<Rightarrow> string" where
  "show_int i = (if i < 0 then ''-'' @ show_nat (nat (- i)) else show_nat (nat i))"

section \<open>JSON values\<close>

text \<open>The documented value type of \<^verbatim>\<open>serde_json\<close>; its parser and printer are parameters of the
  definitions that call them.\<close>

datatype json =
    JNull
  | JBool bool
  | JNum string
  | JStr string
  | JArr "json list"
  | JObj "(string \<times> json) list"

definition json_get :: "json \<Rightarrow> string \<Rightarrow> json option" where
  "json_get v k = (case v of JObj kvs \<Rightarrow> map_of kvs k | _ \<Rightarrow> None)"

definition json_as_str :: "json \<Rightarrow> string option" where
  "json_as_str v = (case v of JStr s \<Rightarrow> Some s | _ \<Rightarrow> None)"

section \<open>Joining strings\<close>

fun str_join :: "string \<Rightarrow> string list \<Rightarrow> string" where
  "str_join sep [] = []"
| "str_join sep [x] = x"
| "str_join sep (x # y # ys) = x @ sep @ str_join sep (y # ys)"

fun str_contains :: "string \<Rightarrow> string \<Rightarrow> bool" where
  "str_contains needle [] = (needle = [])"
| "str_contains needle (c # cs) = (prefix needle (c # cs) \<or> str_contains needle cs)"

definition nl :: string where
  "nl = [CHR 0x0A]"

text \<open>The single quote, which a string literal cannot hold.\<close>

definition sq :: string where
  "sq = [CHR 0x27]"

text \<open>The UTF-8 bytes of the warning sign U+26A0 U+FE0F, which opens the guard messages.\<close>

definition warning_sign :: string where
  "warning_sign = [CHR 0xE2, CHR 0x9A, CHR 0xA0, CHR 0xEF, CHR 0xB8, CHR 0x8F]"

section \<open>The first element at which a partial function is defined\<close>

fun first_defined :: "('a \<Rightarrow> 'b option) \<Rightarrow> 'a list \<Rightarrow> 'b option" where
  "first_defined g [] = None"
| "first_defined g (x # xs) = (case g x of Some y \<Rightarrow> Some y | None \<Rightarrow> first_defined g xs)"

section \<open>Automation shared by the components\<close>

named_theorems mw_defs \<open>definitions of middleware hooks\<close>
named_theorems pass_through \<open>hooks that return their input state\<close>

lemma u32_from_usize_le: "unat (u32_from_usize v) \<le> unat v"
proof (cases "unat v < 2 ^ 32")
  case True
  then show ?thesis
    by (simp add: u32_from_usize_def unsigned_ucast_eq take_bit_nat_eq_self)
next
  case False
  have "unat (- 1 :: u32) < 2 ^ 32"
    using unsigned_less [where 'a = nat, of "- 1 :: u32"] by simp
  with False show ?thesis
    by (simp add: u32_from_usize_def)
qed

lemma u32_from_usize_exact: "unat v < 2 ^ 32 \<Longrightarrow> unat (u32_from_usize v) = unat v"
  by (simp add: u32_from_usize_def unsigned_ucast_eq take_bit_nat_eq_self)

lemma show_nat_nonempty [simp]: "show_nat n \<noteq> []"
  by (subst show_nat.simps) simp

lemma filter_all_id: "(\<And>x. x \<in> set xs \<Longrightarrow> P x) \<Longrightarrow> filter P xs = xs"
  by (induction xs) auto

lemma sum_list_word_append: "sum_list (map f (xs @ ys)) = sum_list (map f xs) + sum_list (map f ys :: 'a::len word list)"
  by (induction xs) (simp_all add: add.assoc)

lemma first_defined_append: "first_defined g (xs @ ys) = (case first_defined g xs of Some y \<Rightarrow> Some y | None \<Rightarrow> first_defined g ys)"
  by (induction xs) (auto split: option.splits)

lemma first_defined_Some: "first_defined g xs = Some y \<Longrightarrow> \<exists>x \<in> set xs. g x = Some y"
  by (induction xs) (auto split: option.splits)

lemma first_defined_None: "first_defined g xs = None \<longleftrightarrow> (\<forall>x \<in> set xs. g x = None)"
  by (induction xs) (auto split: option.splits)

section \<open>Exact arithmetic for concrete runs\<close>

text \<open>An instance of the floating point operations by rational numbers, on which the model can be
  evaluated. No theorem depends on it; \<open>f_sqrt\<close> is not a root here.\<close>

definition rat_ops :: "rat f64_ops" where
  "rat_ops = \<lparr>f_of_nat = of_nat, f_add = (+), f_mul = (*), f_div = (/), f_lt = (<), f_min = min, f_max = max,
     f_floor = (\<lambda>x. of_int \<lfloor>x\<rfloor>), f_sqrt = (\<lambda>x. x), f_powi = (\<lambda>x n. if 0 \<le> n then x ^ nat n else 1 / x ^ nat (- n)),
     f_to_u32 = (\<lambda>x. of_int (max 0 (min (2 ^ 32 - 1) \<lfloor>x\<rfloor>))),
     f_to_u64 = (\<lambda>x. of_int (max 0 (min (2 ^ 64 - 1) \<lfloor>x\<rfloor>))), f_fmt = (\<lambda>_ x. show_int \<lfloor>x\<rfloor>)\<rparr>"

end
