(* ===== verification/Chat.thy ===== *)
theory Chat
  imports Prelude
begin

text \<open>
  The message model: \<^verbatim>\<open>querymt::chat\<close> (content blocks and chat messages,
  \<^verbatim>\<open>crates/querymt/src/chat/mod.rs\<close>), token usage (\<^verbatim>\<open>crates/querymt/src/lib.rs\<close>), the stored
  messages of a session and their conversion to chat messages
  (\<^verbatim>\<open>crates/agent/src/model.rs\<close>) with the path summaries it prints
  (\<^verbatim>\<open>crates/agent/src/index/merkle.rs\<close>).

  Rust's enum variants carry the enum's name as a prefix (\<open>Content_Text\<close> is \<^verbatim>\<open>Content::Text\<close>,
  \<open>Part_Text\<close> is \<^verbatim>\<open>MessagePart::Text\<close>) because the same variant names occur in several enums.
  Two functions of the source that live in other components are parameters of the conversion: the
  prompt renderer \<^verbatim>\<open>render_prompt_for_llm\<close> (over the third-party ACP content blocks, the type
  variable \<open>'b\<close>) and the third-party JSON parser.
\<close>

section \<open>Content blocks and chat messages\<close>

datatype chat_role = User | Assistant

datatype content =
    Content_Text string
  | Content_Image string "u8 list"
  | Content_ImageUrl string
  | Content_Pdf "u8 list"
  | Content_Audio string "u8 list"
  | Content_Thinking string "string option"
  | Content_ToolUse string string json
  | Content_ToolResult string "string option" bool "content list"
  | Content_ResourceLink string "string option" "string option" "string option"

definition as_text :: "content \<Rightarrow> string option" where
  "as_text c = (case c of Content_Text t \<Rightarrow> Some t | _ \<Rightarrow> None)"

definition is_tool_use :: "content \<Rightarrow> bool" where
  "is_tool_use c = (case c of Content_ToolUse _ _ _ \<Rightarrow> True | _ \<Rightarrow> False)"

definition is_tool_result :: "content \<Rightarrow> bool" where
  "is_tool_result c = (case c of Content_ToolResult _ _ _ _ \<Rightarrow> True | _ \<Rightarrow> False)"

datatype cache_hint = Ephemeral "u64 option"

record chat_message =
  cm_role :: chat_role
  cm_content :: "content list"
  cm_cache :: "cache_hint option"

definition has_tool_result :: "chat_message \<Rightarrow> bool" where
  "has_tool_result m = list_ex is_tool_result (cm_content m)"

datatype finish_reason =
  FR_Stop | FR_Length | FR_ContentFilter | FR_ToolCalls | FR_Error | FR_Other | FR_Unknown

section \<open>Token usage\<close>

record usage =
  u_input :: u32
  u_output :: u32
  u_reasoning :: u32
  u_cache_read :: u32
  u_cache_write :: u32

definition merge_max :: "usage \<Rightarrow> usage \<Rightarrow> usage" where
  "merge_max a b = \<lparr>u_input = max (u_input a) (u_input b),
     u_output = max (u_output a) (u_output b),
     u_reasoning = max (u_reasoning a) (u_reasoning b),
     u_cache_read = max (u_cache_read a) (u_cache_read b),
     u_cache_write = max (u_cache_write a) (u_cache_write b)\<rparr>"

section \<open>Stored messages\<close>

record function_call =
  fc_name :: string
  fc_arguments :: string

record tool_call =
  tc_id :: string
  tc_type :: string
  tc_function :: function_call

text \<open>The items of a response stream (\<^verbatim>\<open>StreamChunk\<close>).\<close>

datatype stream_chunk =
    Chunk_Text string
  | Chunk_Thinking string
  | Chunk_ThinkingSignature string
  | Chunk_ToolUseStart usize string string
  | Chunk_ToolUseInputDelta usize string
  | Chunk_ToolUseComplete usize tool_call
  | Chunk_Usage usage
  | Chunk_Done finish_reason

record diff_paths =
  dp_added :: "string list"
  dp_modified :: "string list"
  dp_removed :: "string list"

definition diff_is_empty :: "diff_paths \<Rightarrow> bool" where
  "diff_is_empty d = (dp_added d = [] \<and> dp_modified d = [] \<and> dp_removed d = [])"

definition diff_summary :: "diff_paths \<Rightarrow> string" where
  "diff_summary d =
    (let parts =
       (if dp_added d = [] then [] else [''+'' @ show_nat (length (dp_added d)) @ '' files'']) @
       (if dp_removed d = [] then [] else [''-'' @ show_nat (length (dp_removed d)) @ '' files'']) @
       (if dp_modified d = [] then [] else [show_nat (length (dp_modified d)) @ '' modified''])
     in if parts = [] then ''No changes'' else str_join '', '' parts)"

datatype ('f, 'b) message_part =
    Part_Text string
  | Part_Prompt "'b list"
  | Part_Reasoning string "string option" "u64 option"
  | Part_StepStart string string
  | Part_StepFinish string bool "'f option"
  | Part_ToolUse tool_call
  | Part_ToolResult string "content list" bool "string option" "string option" "int option"
  | Part_Patch string "string list" string
  | Part_Snapshot u64 diff_paths
  | Part_Compaction string usize
  | Part_CompactionRequest usize
  | Part_TurnSnapshotStart string string
  | Part_TurnSnapshotPatch string string "string list"

record ('f, 'b) agent_message =
  am_id :: string
  am_session_id :: string
  am_role :: chat_role
  am_parts :: "('f, 'b) message_part list"
  am_created_at :: int
  am_parent_message_id :: "string option"
  am_source_provider :: "string option"
  am_source_model :: "string option"

definition preserve_provider_metadata ::
    "string option \<Rightarrow> string option \<Rightarrow> ('f, 'b) agent_message \<Rightarrow> bool" where
  "preserve_provider_metadata tp tm m =
    (case (tp, tm, am_source_provider m, am_source_model m) of
       (Some tp', Some tm', Some sp, Some sm) \<Rightarrow> tp' = sp \<and> tm' = sm
     | _ \<Rightarrow> True)"

definition cleared_text :: string where
  "cleared_text = ''[Old tool result content cleared]''"

text \<open>The loop body of \<^verbatim>\<open>to_chat_message_with_target\<close>: the blocks one part contributes.\<close>

definition part_blocks ::
    "('b list \<Rightarrow> usize option \<Rightarrow> string) \<Rightarrow> (string \<Rightarrow> json option) \<Rightarrow> bool \<Rightarrow> usize option
     \<Rightarrow> ('f, 'b) message_part \<Rightarrow> content list" where
  "part_blocks render parse_json preserve maxb p =
    (case p of
       Part_Text c \<Rightarrow> [Content_Text c]
     | Part_Prompt bs \<Rightarrow> [Content_Text (render bs maxb)]
     | Part_Reasoning c sig _ \<Rightarrow> [Content_Thinking c (if preserve then sig else None)]
     | Part_ToolUse tc \<Rightarrow>
         [Content_ToolUse (tc_id tc) (fc_name (tc_function tc))
            (case parse_json (fc_arguments (tc_function tc)) of Some v \<Rightarrow> v | None \<Rightarrow> JObj [])]
     | Part_ToolResult cid c err nm _ compacted \<Rightarrow>
         [Content_ToolResult cid nm err
            (if compacted \<noteq> None then [Content_Text cleared_text] else c)]
     | Part_Snapshot _ d \<Rightarrow>
         (if \<not> diff_is_empty d
          then [Content_Text (nl @ ''[System: File changes: '' @ diff_summary d @ '']'')] else [])
     | Part_Compaction s _ \<Rightarrow> [Content_Text s]
     | Part_CompactionRequest _ \<Rightarrow> [Content_Text ''Summarize our conversation so far.'']
     | _ \<Rightarrow> [])"

text \<open>\<^verbatim>\<open>sort_by_key\<close> is a stable sort; so is \<open>sort_key\<close>.\<close>

definition to_chat_message_with_target ::
    "('b list \<Rightarrow> usize option \<Rightarrow> string) \<Rightarrow> (string \<Rightarrow> json option)
     \<Rightarrow> ('f, 'b) agent_message \<Rightarrow> string option \<Rightarrow> string option \<Rightarrow> usize option
     \<Rightarrow> chat_message" where
  "to_chat_message_with_target render parse_json m tp tm maxb =
    (let preserve = preserve_provider_metadata tp tm m;
         blocks = concat (map (part_blocks render parse_json preserve maxb) (am_parts m));
         blocks' = (if am_role m = User \<and> list_ex is_tool_result blocks
                    then sort_key (\<lambda>b. if is_tool_result b then 0 else 1 :: nat) blocks
                    else blocks)
     in \<lparr>cm_role = am_role m, cm_content = blocks', cm_cache = None\<rparr>)"

section \<open>Lemmas\<close>

lemma sort_key_01:
  "sort_key (\<lambda>b. if P b then 0 else 1 :: nat) xs = filter P xs @ filter (\<lambda>b. \<not> P b) xs"
proof (induction xs)
  case Nil
  then show ?case by simp
next
  case (Cons x xs)
  let ?f = "\<lambda>b. if P b then 0 else 1 :: nat"
  have ins_front: "P x \<Longrightarrow> insort_key ?f x ys = x # ys" for ys
    by (cases ys) auto
  have ins_back: "\<not> P x \<Longrightarrow> (\<And>y. y \<in> set zs \<Longrightarrow> \<not> P y) \<Longrightarrow> (\<And>y. y \<in> set ys \<Longrightarrow> P y)
      \<Longrightarrow> insort_key ?f x (ys @ zs) = ys @ x # zs" for ys zs
    by (induction ys) (cases zs, auto)
  have "sort_key ?f (x # xs) = insort_key ?f x (filter P xs @ filter (\<lambda>b. \<not> P b) xs)"
    by (simp only: sort_key_simps Cons.IH)
  also have "\<dots> = filter P (x # xs) @ filter (\<lambda>b. \<not> P b) (x # xs)"
  proof (cases "P x")
    case True
    then show ?thesis by (simp only: ins_front filter.simps append_Cons if_True not_True_eq_False if_False)
  next
    case False
    then have "insort_key ?f x (filter P xs @ filter (\<lambda>b. \<not> P b) xs)
        = filter P xs @ x # filter (\<lambda>b. \<not> P b) xs"
      by (rule ins_back) auto
    with False show ?thesis by (simp only: filter.simps if_False if_True not_False_eq_True)
  qed
  finally show ?case .
qed

lemma chat_message_role [simp]:
  "cm_role (to_chat_message_with_target r pj m tp tm mb) = am_role m"
  by (simp add: to_chat_message_with_target_def Let_def)

lemma diff_summary_nonempty: "diff_summary d \<noteq> []"
  by (auto simp: diff_summary_def Let_def)

lemma merge_max_commute: "merge_max a b = merge_max b a"
  by (simp add: merge_max_def max.commute)

lemma merge_max_assoc: "merge_max (merge_max a b) c = merge_max a (merge_max b c)"
  by (simp add: merge_max_def max.assoc)

lemma merge_max_idem: "merge_max a a = a"
  by (simp add: merge_max_def)

lemma merge_max_ge:
  "u_input a \<le> u_input (merge_max a b)" "u_output a \<le> u_output (merge_max a b)"
  "u_reasoning a \<le> u_reasoning (merge_max a b)" "u_cache_read a \<le> u_cache_read (merge_max a b)"
  "u_cache_write a \<le> u_cache_write (merge_max a b)"
  by (simp_all add: merge_max_def)

end
