(* ===== verification/Execution_State.thy ===== *)
theory Execution_State
  imports Chat
begin

text \<open>
  The data of the execution state machine: \<^verbatim>\<open>crates/agent/src/middleware/state.rs\<close>, the stop types
  and session limits of \<^verbatim>\<open>crates/agent/src/events.rs\<close>, the agent modes of
  \<^verbatim>\<open>crates/agent/src/agent/core.rs\<close> and the middleware errors of
  \<^verbatim>\<open>crates/agent/src/middleware/error.rs\<close>. Reference counting (\<^verbatim>\<open>Arc\<close>) is transparent. The model
  pricing of \<^verbatim>\<open>crates/querymt/src/providers/types.rs\<close> is here because the cost update uses it.
\<close>

section \<open>Stop types, limits, modes, errors\<close>

datatype stop_type =
  StepLimit | TurnLimit | PriceLimit | ContextThreshold | ModelTokenLimit | ContentFilter
  | DelegationBlocked | OtherStop

datatype stop_reason = EndTurn | MaxTokens | MaxTurnRequests

fun stop_reason_of :: "stop_type \<Rightarrow> stop_reason" where
  "stop_reason_of StepLimit = MaxTurnRequests"
| "stop_reason_of TurnLimit = MaxTurnRequests"
| "stop_reason_of DelegationBlocked = MaxTurnRequests"
| "stop_reason_of PriceLimit = MaxTokens"
| "stop_reason_of ContextThreshold = MaxTokens"
| "stop_reason_of ModelTokenLimit = MaxTokens"
| "stop_reason_of ContentFilter = EndTurn"
| "stop_reason_of OtherStop = EndTurn"

record 'f session_limits =
  sl_max_steps :: "u32 option"
  sl_max_turns :: "u32 option"
  sl_max_cost_usd :: "'f option"

datatype agent_mode = Build | Plan | Review

fun mode_from_u8 :: "u8 \<Rightarrow> agent_mode" where
  "mode_from_u8 v = (if v = 1 then Plan else if v = 2 then Review else Build)"

fun mode_to_u8 :: "agent_mode \<Rightarrow> u8" where
  "mode_to_u8 Build = 0"
| "mode_to_u8 Plan = 1"
| "mode_to_u8 Review = 2"

fun next_mode :: "agent_mode \<Rightarrow> agent_mode" where
  "next_mode Build = Plan"
| "next_mode Plan = Review"
| "next_mode Review = Build"

fun mode_as_str :: "agent_mode \<Rightarrow> string" where
  "mode_as_str Build = ''build''"
| "mode_as_str Plan = ''plan''"
| "mode_as_str Review = ''review''"

fun is_read_only :: "agent_mode \<Rightarrow> bool" where
  "is_read_only Build = False"
| "is_read_only Plan = True"
| "is_read_only Review = True"

definition mode_from_str :: "string \<Rightarrow> string + agent_mode" where
  "mode_from_str s =
    (if s = ''build'' then Inr Build
     else if s = ''plan'' then Inr Plan
     else if s = ''review'' then Inr Review
     else Inl (''unknown agent mode: '' @ sq @ s @ sq @ ''. Valid modes: build, plan, review''))"

datatype middleware_error =
    Transition string | Injection string | ToolBlocked string | CompactionError string
  | SessionErr string | InvalidState string string | MissingField string | DatabaseErr string
  | ExecutionError string | JsonErr string | OtherErr string

section \<open>Pricing and statistics\<close>

record 'f model_pricing =
  mp_input :: "'f option"
  mp_output :: "'f option"
  mp_cache_read :: "'f option"
  mp_cache_write :: "'f option"

definition per_million :: "'f f64_ops \<Rightarrow> u64 \<Rightarrow> 'f \<Rightarrow> 'f" where
  "per_million F tokens rate = f_mul F (f_div F (f_of_nat F (unat tokens)) (f_of_nat F 1000000)) rate"

definition calculate_cost :: "'f f64_ops \<Rightarrow> 'f model_pricing \<Rightarrow> u64 \<Rightarrow> u64 \<Rightarrow> 'f option" where
  "calculate_cost F p inp out =
    (case mp_input p of None \<Rightarrow> None
     | Some ci \<Rightarrow> (case mp_output p of None \<Rightarrow> None
        | Some co \<Rightarrow> Some (f_add F (per_million F inp ci) (per_million F out co))))"

definition calculate_cache_cost ::
    "'f f64_ops \<Rightarrow> 'f model_pricing \<Rightarrow> u64 \<Rightarrow> u64 \<Rightarrow> 'f option \<times> 'f option" where
  "calculate_cache_cost F p r w =
    (map_option (per_million F r) (mp_cache_read p), map_option (per_million F w) (mp_cache_write p))"

record 'f agent_stats =
  st_steps :: usize
  st_turns :: usize
  st_total_input_tokens :: u64
  st_total_output_tokens :: u64
  st_context_tokens :: usize
  st_total_cost_usd :: 'f
  st_input_cost_usd :: 'f
  st_output_cost_usd :: 'f
  st_reasoning_tokens :: u64
  st_cache_read_tokens :: u64
  st_cache_write_tokens :: u64
  st_cache_read_cost_usd :: 'f
  st_cache_write_cost_usd :: 'f

definition default_stats :: "'f f64_ops \<Rightarrow> 'f agent_stats" where
  "default_stats F = \<lparr>st_steps = 0, st_turns = 0, st_total_input_tokens = 0,
     st_total_output_tokens = 0, st_context_tokens = 0, st_total_cost_usd = f_of_nat F 0,
     st_input_cost_usd = f_of_nat F 0, st_output_cost_usd = f_of_nat F 0, st_reasoning_tokens = 0,
     st_cache_read_tokens = 0, st_cache_write_tokens = 0, st_cache_read_cost_usd = f_of_nat F 0,
     st_cache_write_cost_usd = f_of_nat F 0\<rparr>"

text \<open>\<^verbatim>\<open>AgentStats::update_costs\<close>, one \<^verbatim>\<open>if let\<close> of the source per step.\<close>

definition update_base_costs :: "'f f64_ops \<Rightarrow> 'f model_pricing \<Rightarrow> 'f agent_stats \<Rightarrow> 'f agent_stats" where
  "update_base_costs F p s =
    (let billable = st_total_output_tokens s + st_reasoning_tokens s in
     case calculate_cost F p (st_total_input_tokens s) billable of
       None \<Rightarrow> s
     | Some cost \<Rightarrow>
         let s1 = s\<lparr>st_total_cost_usd := cost\<rparr>;
             s2 = (case mp_input p of None \<Rightarrow> s1
                   | Some r \<Rightarrow> s1\<lparr>st_input_cost_usd := per_million F (st_total_input_tokens s) r\<rparr>)
         in (case mp_output p of None \<Rightarrow> s2
             | Some r \<Rightarrow> s2\<lparr>st_output_cost_usd := per_million F billable r\<rparr>))"

definition update_costs :: "'f f64_ops \<Rightarrow> 'f model_pricing \<Rightarrow> 'f agent_stats \<Rightarrow> 'f agent_stats" where
  "update_costs F p s =
    (let s1 = update_base_costs F p s;
         (rc, wc) = calculate_cache_cost F p (st_cache_read_tokens s1) (st_cache_write_tokens s1);
         s2 = (case rc of None \<Rightarrow> s1
               | Some c \<Rightarrow> s1\<lparr>st_cache_read_cost_usd := c,
                              st_total_cost_usd := f_add F (st_total_cost_usd s1) c\<rparr>)
     in (case wc of None \<Rightarrow> s2
         | Some c \<Rightarrow> s2\<lparr>st_cache_write_cost_usd := c,
                        st_total_cost_usd := f_add F (st_total_cost_usd s2) c\<rparr>))"

text \<open>The sum is taken at 32 bits and widened afterwards, as the source writes it.\<close>

definition calculate_context_tokens :: "usage option \<Rightarrow> u64" where
  "calculate_context_tokens u =
    (case u of None \<Rightarrow> 0
     | Some u \<Rightarrow> ucast (u_input u + u_output u + u_reasoning u + u_cache_read u + u_cache_write u))"

section \<open>Tool calls, conversation context, responses\<close>

record mw_tool_function =
  tf_name :: string
  tf_arguments :: string

record mw_tool_call =
  mtc_id :: string
  mtc_function :: mw_tool_function

record 'f conversation_context =
  ctx_session_id :: string
  ctx_messages :: "chat_message list"
  ctx_stats :: "'f agent_stats"
  ctx_provider :: string
  ctx_model :: string
  ctx_session_mode :: agent_mode

definition new_context ::
    "string \<Rightarrow> chat_message list \<Rightarrow> 'f agent_stats \<Rightarrow> string \<Rightarrow> string \<Rightarrow> 'f conversation_context" where
  "new_context sid ms st prov mdl = \<lparr>ctx_session_id = sid, ctx_messages = ms, ctx_stats = st,
     ctx_provider = prov, ctx_model = mdl, ctx_session_mode = Build\<rparr>"

definition user_message_count :: "'f conversation_context \<Rightarrow> nat" where
  "user_message_count c = length (filter (\<lambda>m. cm_role m = User) (ctx_messages c))"

definition injected_message :: "string \<Rightarrow> chat_message" where
  "injected_message s = \<lparr>cm_role = User, cm_content = [Content_Text s], cm_cache = None\<rparr>"

definition inject_message :: "'f conversation_context \<Rightarrow> string \<Rightarrow> 'f conversation_context" where
  "inject_message c s = \<lparr>ctx_session_id = ctx_session_id c,
     ctx_messages = ctx_messages c @ [injected_message s], ctx_stats = ctx_stats c,
     ctx_provider = ctx_provider c, ctx_model = ctx_model c, ctx_session_mode = ctx_session_mode c\<rparr>"

definition with_session_mode :: "'f conversation_context \<Rightarrow> agent_mode \<Rightarrow> 'f conversation_context" where
  "with_session_mode c m = c\<lparr>ctx_session_mode := m\<rparr>"

definition is_first_turn :: "'f conversation_context \<Rightarrow> bool" where
  "is_first_turn c = (st_turns (ctx_stats c) \<le> 1)"

record llm_response =
  lr_content :: string
  lr_thinking :: "string option"
  lr_thinking_signature :: "string option"
  lr_tool_calls :: "mw_tool_call list"
  lr_usage :: "usage option"
  lr_finish_reason :: "finish_reason option"
  lr_message_id :: "string option"

definition new_response ::
    "string \<Rightarrow> mw_tool_call list \<Rightarrow> usage option \<Rightarrow> finish_reason option \<Rightarrow> llm_response" where
  "new_response c tcs u fr = \<lparr>lr_content = c, lr_thinking = None, lr_thinking_signature = None,
     lr_tool_calls = tcs, lr_usage = u, lr_finish_reason = fr, lr_message_id = None\<rparr>"

definition with_message_id :: "llm_response \<Rightarrow> string \<Rightarrow> llm_response" where
  "with_message_id r i = r\<lparr>lr_message_id := Some i\<rparr>"

definition with_thinking :: "llm_response \<Rightarrow> string option \<Rightarrow> llm_response" where
  "with_thinking r t = r\<lparr>lr_thinking := t\<rparr>"

definition with_thinking_signature :: "llm_response \<Rightarrow> string option \<Rightarrow> llm_response" where
  "with_thinking_signature r s = r\<lparr>lr_thinking_signature := s\<rparr>"

definition has_tool_calls :: "llm_response \<Rightarrow> bool" where
  "has_tool_calls r = (lr_tool_calls r \<noteq> [])"

definition is_stop :: "llm_response \<Rightarrow> bool" where
  "is_stop r = ((case lr_finish_reason r of Some f \<Rightarrow> f | None \<Rightarrow> FR_Unknown) = FR_Stop)"

record ('f, 'b) tool_result =
  tr_call_id :: string
  tr_content :: "content list"
  tr_is_error :: bool
  tr_tool_name :: "string option"
  tr_tool_arguments :: "string option"
  tr_snapshot_part :: "('f, 'b) message_part option"

definition new_tool_result ::
    "string \<Rightarrow> content list \<Rightarrow> bool \<Rightarrow> string option \<Rightarrow> string option \<Rightarrow> ('f, 'b) tool_result" where
  "new_tool_result cid c e n a = \<lparr>tr_call_id = cid, tr_content = c, tr_is_error = e,
     tr_tool_name = n, tr_tool_arguments = a, tr_snapshot_part = None\<rparr>"

definition with_snapshot :: "('f, 'b) tool_result \<Rightarrow> ('f, 'b) message_part \<Rightarrow> ('f, 'b) tool_result" where
  "with_snapshot r p = r\<lparr>tr_snapshot_part := Some p\<rparr>"

definition text_content :: "('f, 'b) tool_result \<Rightarrow> string" where
  "text_content r = str_join nl (List.map_filter as_text (tr_content r))"

section \<open>Waiting\<close>

datatype wait_reason = WaitDelegation

record wait_condition =
  wc_reason :: wait_reason
  wc_correlation_ids :: "string list"

definition wait_delegation :: "string \<Rightarrow> wait_condition" where
  "wait_delegation i = \<lparr>wc_reason = WaitDelegation, wc_correlation_ids = [i]\<rparr>"

fun wait_merge_loop ::
    "wait_condition list \<Rightarrow> wait_reason option \<Rightarrow> string list \<Rightarrow> wait_reason option \<times> string list" where
  "wait_merge_loop [] r ids = (r, ids)"
| "wait_merge_loop (c # cs) r ids =
    (let r' = (if r = None then Some (wc_reason c) else r);
         ids' = (if r' = Some (wc_reason c) then ids @ wc_correlation_ids c else ids)
     in wait_merge_loop cs r' ids')"

definition wait_merge :: "wait_condition list \<Rightarrow> wait_condition option" where
  "wait_merge cs =
    (let (r, ids) = wait_merge_loop cs None []
     in map_option (\<lambda>r. \<lparr>wc_reason = r, wc_correlation_ids = ids\<rparr>) r)"

section \<open>Execution states\<close>

datatype ('f, 'b, 't) execution_state =
    BeforeLlmCall "'f conversation_context"
  | CallLlm "'f conversation_context" "'t list"
  | AfterLlm llm_response "'f conversation_context"
  | ProcessingToolCalls "mw_tool_call list" "('f, 'b) tool_result list" "'f conversation_context"
  | WaitingForEvent "'f conversation_context" wait_condition
  | Complete
  | Stopped string stop_type "'f conversation_context option"
  | Cancelled

fun state_name :: "('f, 'b, 't) execution_state \<Rightarrow> string" where
  "state_name (BeforeLlmCall _) = ''BeforeLlmCall''"
| "state_name (CallLlm _ _) = ''CallLlm''"
| "state_name (AfterLlm _ _) = ''AfterLlm''"
| "state_name (ProcessingToolCalls _ _ _) = ''ProcessingToolCalls''"
| "state_name (WaitingForEvent _ _) = ''WaitingForEvent''"
| "state_name Complete = ''Complete''"
| "state_name (Stopped _ _ _) = ''Stopped''"
| "state_name Cancelled = ''Cancelled''"

fun state_context :: "('f, 'b, 't) execution_state \<Rightarrow> 'f conversation_context option" where
  "state_context (BeforeLlmCall c) = Some c"
| "state_context (CallLlm c _) = Some c"
| "state_context (AfterLlm _ c) = Some c"
| "state_context (ProcessingToolCalls _ _ c) = Some c"
| "state_context (WaitingForEvent c _) = Some c"
| "state_context (Stopped _ _ c) = c"
| "state_context Complete = None"
| "state_context Cancelled = None"

section \<open>Contexts extended by injected messages\<close>

text \<open>\<open>ctx_extends c c'\<close>: \<open>c'\<close> is \<open>c\<close> with injected user messages appended, everything else
  unchanged. This is what a middleware may do to a context.\<close>

definition ctx_extends :: "'f conversation_context \<Rightarrow> 'f conversation_context \<Rightarrow> bool" where
  "ctx_extends c c' \<longleftrightarrow>
     (\<exists>ws. c' = c\<lparr>ctx_messages := ctx_messages c @ map injected_message ws\<rparr>)"

lemma ctx_extends_refl [simp, intro]: "ctx_extends c c"
  by (auto simp: ctx_extends_def intro: exI [of _ "[]"])

lemma ctx_extends_trans [trans]: "ctx_extends a b \<Longrightarrow> ctx_extends b c \<Longrightarrow> ctx_extends a c"
  unfolding ctx_extends_def
proof (elim exE)
  fix ws vs
  assume "b = a\<lparr>ctx_messages := ctx_messages a @ map injected_message ws\<rparr>"
    and "c = b\<lparr>ctx_messages := ctx_messages b @ map injected_message vs\<rparr>"
  then have "c = a\<lparr>ctx_messages := ctx_messages a @ map injected_message (ws @ vs)\<rparr>" by simp
  then show "\<exists>ws. c = a\<lparr>ctx_messages := ctx_messages a @ map injected_message ws\<rparr>" ..
qed

lemma ctx_extends_inject [simp, intro]: "ctx_extends c (inject_message c s)"
  by (auto simp: ctx_extends_def inject_message_def intro: exI [of _ "[s]"])

lemma ctx_extends_fields:
  assumes "ctx_extends c c'"
  shows "ctx_session_id c' = ctx_session_id c" "ctx_stats c' = ctx_stats c"
    "ctx_provider c' = ctx_provider c" "ctx_model c' = ctx_model c"
    "ctx_session_mode c' = ctx_session_mode c" "prefix (ctx_messages c) (ctx_messages c')"
  using assms by (auto simp: ctx_extends_def)

section \<open>Lemmas on the data operations\<close>

lemma mode_u8_roundtrip [simp]: "mode_from_u8 (mode_to_u8 m) = m"
  by (cases m) auto

lemma mode_str_roundtrip [simp]: "mode_from_str (mode_as_str m) = Inr m"
  by (cases m) (auto simp: mode_from_str_def)

lemma mode_from_str_Inr: "mode_from_str s = Inr m \<Longrightarrow> s = mode_as_str m"
  by (auto simp: mode_from_str_def split: if_splits)

lemma next_mode_cycle [simp]: "next_mode (next_mode (next_mode m)) = m"
  by (cases m) auto

lemma wait_reason_single: "(r :: wait_reason) = WaitDelegation"
  by (cases r) simp

lemma wait_merge_loop_ids:
  "wait_merge_loop cs r ids =
     ((if cs = [] then r else Some WaitDelegation), ids @ concat (map wc_correlation_ids cs))"
proof (induction cs arbitrary: r ids)
  case Nil
  then show ?case by simp
next
  case (Cons c cs)
  have "r = None \<or> r = Some WaitDelegation"
    using wait_reason_single by (cases r) auto
  moreover have "wc_reason c = WaitDelegation" by (rule wait_reason_single)
  ultimately show ?case using Cons.IH by (auto simp: Let_def)
qed

lemma wait_merge_eq:
  "wait_merge cs = (if cs = [] then None
     else Some \<lparr>wc_reason = WaitDelegation, wc_correlation_ids = concat (map wc_correlation_ids cs)\<rparr>)"
  by (simp add: wait_merge_def wait_merge_loop_ids)

lemma update_costs_tokens [simp]:
  "st_steps (update_costs F p s) = st_steps s"
  "st_turns (update_costs F p s) = st_turns s"
  "st_total_input_tokens (update_costs F p s) = st_total_input_tokens s"
  "st_total_output_tokens (update_costs F p s) = st_total_output_tokens s"
  "st_context_tokens (update_costs F p s) = st_context_tokens s"
  by (simp_all add: update_costs_def update_base_costs_def calculate_cache_cost_def Let_def
      split: option.splits prod.splits)

lemma user_message_count_inject [simp]:
  "user_message_count (inject_message c s) = Suc (user_message_count c)"
  by (simp add: user_message_count_def inject_message_def injected_message_def)

end
