(* ===== verification/Driver.thy ===== *)
theory Driver
  imports Execution_State
begin

text \<open>
  The middleware pipeline: the trait \<^verbatim>\<open>MiddlewareDriver\<close> and the \<^verbatim>\<open>CompositeDriver\<close> that runs a list
  of middleware over a state (\<^verbatim>\<open>crates/agent/src/middleware/driver.rs\<close>).

  A driver is a record of its hooks. A hook takes the execution state and the world (the mutable
  cells behind the middleware's locks and the session store, the type variable \<open>'w\<close>) and returns
  the new state or an error together with the new world. Logging and tracing spans are dropped; so
  is the \<^verbatim>\<open>_runtime\<close> argument, which no middleware of this development reads.

  The locale \<open>middleware_contract\<close> states what the pipeline relies on; each middleware theory
  interprets it on its own definitions.
\<close>

type_synonym ('f, 'b, 't, 'w) hook =
  "('f, 'b, 't) execution_state \<Rightarrow> 'w \<Rightarrow> (middleware_error + ('f, 'b, 't) execution_state) \<times> 'w"

record ('f, 'b, 't, 'w) driver =
  on_turn_start :: "('f, 'b, 't, 'w) hook"
  on_step_start :: "('f, 'b, 't, 'w) hook"
  on_after_llm :: "('f, 'b, 't, 'w) hook"
  on_processing_tool_calls :: "('f, 'b, 't, 'w) hook"
  on_turn_end :: "('f, 'b, 't, 'w) hook"
  drv_reset :: "'w \<Rightarrow> 'w"
  drv_name :: string
  drv_get_limits :: "'f session_limits option"

text \<open>The default bodies of the trait: every hook returns its state, no limits.\<close>

definition pass :: "('f, 'b, 't, 'w) hook" where
  "pass s w = (Inr s, w)"

definition default_driver :: "string \<Rightarrow> ('f, 'b, 't, 'w) driver" where
  "default_driver n = \<lparr>on_turn_start = pass, on_step_start = pass, on_after_llm = pass,
     on_processing_tool_calls = pass, on_turn_end = pass, drv_reset = (\<lambda>w. w),
     drv_name = n, drv_get_limits = None\<rparr>"

section \<open>The composite driver\<close>

datatype middleware_phase =
  Phase_TurnStart | Phase_StepStart | Phase_AfterLlm | Phase_ProcessingToolCalls | Phase_TurnEnd

fun phase_name :: "middleware_phase \<Rightarrow> string" where
  "phase_name Phase_TurnStart = ''turn_start''"
| "phase_name Phase_StepStart = ''step_start''"
| "phase_name Phase_AfterLlm = ''after_llm''"
| "phase_name Phase_ProcessingToolCalls = ''processing_tool_calls''"
| "phase_name Phase_TurnEnd = ''turn_end''"

fun phase_hook :: "middleware_phase \<Rightarrow> ('f, 'b, 't, 'w) driver \<Rightarrow> ('f, 'b, 't, 'w) hook" where
  "phase_hook Phase_TurnStart d = on_turn_start d"
| "phase_hook Phase_StepStart d = on_step_start d"
| "phase_hook Phase_AfterLlm d = on_after_llm d"
| "phase_hook Phase_ProcessingToolCalls d = on_processing_tool_calls d"
| "phase_hook Phase_TurnEnd d = on_turn_end d"

definition is_terminal :: "middleware_phase \<Rightarrow> ('f, 'b, 't) execution_state \<Rightarrow> bool" where
  "is_terminal ph s =
    (case ph of
       Phase_TurnEnd \<Rightarrow> (case s of Stopped _ _ _ \<Rightarrow> True | Cancelled \<Rightarrow> True | _ \<Rightarrow> False)
     | _ \<Rightarrow> (case s of Complete \<Rightarrow> True | Stopped _ _ _ \<Rightarrow> True | Cancelled \<Rightarrow> True | _ \<Rightarrow> False))"

fun run_phase ::
    "middleware_phase \<Rightarrow> ('f, 'b, 't, 'w) driver list \<Rightarrow> ('f, 'b, 't, 'w) hook" where
  "run_phase ph [] s w = (Inr s, w)"
| "run_phase ph (d # ds) s w =
    (case phase_hook ph d s w of
       (Inl e, w') \<Rightarrow> (Inl e, w')
     | (Inr s', w') \<Rightarrow> if is_terminal ph s' then (Inr s', w') else run_phase ph ds s' w')"

definition run_turn_start :: "('f, 'b, 't, 'w) driver list \<Rightarrow> ('f, 'b, 't, 'w) hook" where
  "run_turn_start ds = run_phase Phase_TurnStart ds"

definition run_step_start :: "('f, 'b, 't, 'w) driver list \<Rightarrow> ('f, 'b, 't, 'w) hook" where
  "run_step_start ds = run_phase Phase_StepStart ds"

definition run_after_llm :: "('f, 'b, 't, 'w) driver list \<Rightarrow> ('f, 'b, 't, 'w) hook" where
  "run_after_llm ds = run_phase Phase_AfterLlm ds"

definition run_processing_tool_calls :: "('f, 'b, 't, 'w) driver list \<Rightarrow> ('f, 'b, 't, 'w) hook" where
  "run_processing_tool_calls ds = run_phase Phase_ProcessingToolCalls ds"

definition run_turn_end :: "('f, 'b, 't, 'w) driver list \<Rightarrow> ('f, 'b, 't, 'w) hook" where
  "run_turn_end ds = run_phase Phase_TurnEnd ds"

definition composite_reset :: "('f, 'b, 't, 'w) driver list \<Rightarrow> 'w \<Rightarrow> 'w" where
  "composite_reset ds w = fold drv_reset ds w"

definition no_limits :: "'f session_limits" where
  "no_limits = \<lparr>sl_max_steps = None, sl_max_turns = None, sl_max_cost_usd = None\<rparr>"

definition first_some :: "'a option \<Rightarrow> 'a option \<Rightarrow> 'a option" where
  "first_some a b = (if a = None \<and> b \<noteq> None then b else a)"

definition merge_limits :: "'f session_limits \<Rightarrow> 'f session_limits \<Rightarrow> 'f session_limits" where
  "merge_limits l d = \<lparr>sl_max_steps = first_some (sl_max_steps l) (sl_max_steps d),
     sl_max_turns = first_some (sl_max_turns l) (sl_max_turns d),
     sl_max_cost_usd = first_some (sl_max_cost_usd l) (sl_max_cost_usd d)\<rparr>"

fun get_limits_loop ::
    "('f, 'b, 't, 'w) driver list \<Rightarrow> 'f session_limits \<Rightarrow> bool \<Rightarrow> 'f session_limits \<times> bool" where
  "get_limits_loop [] l any = (l, any)"
| "get_limits_loop (d # ds) l any =
    (case drv_get_limits d of
       None \<Rightarrow> get_limits_loop ds l any
     | Some dl \<Rightarrow> get_limits_loop ds (merge_limits l dl) True)"

definition get_limits :: "('f, 'b, 't, 'w) driver list \<Rightarrow> 'f session_limits option" where
  "get_limits ds = (let (l, any) = get_limits_loop ds no_limits False in if any then Some l else None)"

section \<open>What a middleware promises\<close>

text \<open>The result of a step hook on \<open>BeforeLlmCall c\<close>: go on with a context that only gained
  injected messages, or stop with the context it was given.\<close>

fun step_result :: "'f conversation_context \<Rightarrow> ('f, 'b, 't) execution_state \<Rightarrow> bool" where
  "step_result c (BeforeLlmCall c') = ctx_extends c c'"
| "step_result c (Stopped _ _ co) = (\<exists>c'. co = Some c' \<and> ctx_extends c c')"
| "step_result c _ = False"

fun before_llm :: "('f, 'b, 't) execution_state \<Rightarrow> bool" where
  "before_llm (BeforeLlmCall _) = True"
| "before_llm _ = False"

fun after_llm :: "('f, 'b, 't) execution_state \<Rightarrow> bool" where
  "after_llm (AfterLlm _ _) = True"
| "after_llm _ = False"

fun after_result ::
    "llm_response \<Rightarrow> 'f conversation_context \<Rightarrow> ('f, 'b, 't) execution_state \<Rightarrow> bool" where
  "after_result r c (AfterLlm r' c') = (r' = r \<and> c' = c)"
| "after_result r c (Stopped _ t co) = (t \<noteq> ContextThreshold \<and> co = Some c)"
| "after_result r c _ = False"

locale middleware_contract =
  fixes d :: "('f, 'b, 't, 'w) driver"
  assumes turn_pass: "\<not> before_llm s \<Longrightarrow> on_turn_start d s w = (Inr s, w)"
    and turn_before: "\<exists>c' w'. on_turn_start d (BeforeLlmCall c) w = (Inr (BeforeLlmCall c'), w') \<and> ctx_extends c c'"
    and step_pass: "\<not> before_llm s \<Longrightarrow> on_step_start d s w = (Inr s, w)"
    and step_before: "\<exists>s' w'. on_step_start d (BeforeLlmCall c) w = (Inr s', w') \<and> step_result c s'"
    and after_pass: "\<not> after_llm s \<Longrightarrow> on_after_llm d s w = (Inr s, w)"
    and after_after: "\<exists>s' w'. on_after_llm d (AfterLlm r c) w = (Inr s', w') \<and> after_result r c s'"
    and tools_pass: "on_processing_tool_calls d s w = (Inr s, w)"
    and end_pass: "on_turn_end d s w = (Inr s, w)"
begin

lemma step_no_error: "fst (on_step_start d s w) = Inl e \<Longrightarrow> False"
proof (cases s)
  case (BeforeLlmCall c)
  assume "fst (on_step_start d s w) = Inl e"
  with BeforeLlmCall step_before [of c w] show False by auto
qed (auto simp: step_pass)

lemma after_no_error: "fst (on_after_llm d s w) = Inl e \<Longrightarrow> False"
proof (cases s)
  case (AfterLlm r c)
  assume "fst (on_after_llm d s w) = Inl e"
  with AfterLlm after_after [of r c w] show False by auto
qed (auto simp: after_pass)

end

text \<open>The default driver keeps the contract, so a middleware that overrides some hooks only has
  those hooks to discharge.\<close>

interpretation default_mw: middleware_contract "default_driver n" for n
  by unfold_locales (auto simp: default_driver_def pass_def)

section \<open>The pipeline keeps the contract\<close>

lemma is_terminal_simps [simp]:
  "is_terminal ph (Stopped m t c)"
  "is_terminal ph Cancelled"
  "is_terminal ph Complete = (ph \<noteq> Phase_TurnEnd)"
  "\<not> is_terminal ph (BeforeLlmCall x)" "\<not> is_terminal ph (AfterLlm r x)"
  "\<not> is_terminal ph (CallLlm x ts)" "\<not> is_terminal ph (ProcessingToolCalls a b x)"
  "\<not> is_terminal ph (WaitingForEvent x wt)"
  by (cases ph; simp add: is_terminal_def)+

lemma run_phase_terminal_stops:
  assumes "phase_hook ph d s w = (Inr s', w')" and "is_terminal ph s'"
  shows "run_phase ph (d # ds) s w = (Inr s', w')"
  using assms by simp

lemma run_phase_append:
  "run_phase ph (ds @ es) s w =
    (case run_phase ph ds s w of
       (Inl e, w') \<Rightarrow> (Inl e, w')
     | (Inr s', w') \<Rightarrow> if ds \<noteq> [] \<and> is_terminal ph s' then (Inr s', w') else run_phase ph es s' w')"
proof (induction ds arbitrary: s w)
  case Nil
  then show ?case by simp
next
  case (Cons d ds)
  obtain r w' where h: "phase_hook ph d s w = (r, w')" by (cases "phase_hook ph d s w") auto
  show ?case
  proof (cases r)
    case (Inl e)
    with h show ?thesis by simp
  next
    case (Inr s')
    show ?thesis
    proof (cases "is_terminal ph s'")
      case True
      with h Inr show ?thesis by simp
    next
      case False
      with h Inr Cons.IH [of s' w'] show ?thesis
        by (cases "ds = []") (auto split: prod.splits sum.splits)
    qed
  qed
qed

lemma run_phase_identity:
  "(\<And>d w. d \<in> set ds \<Longrightarrow> phase_hook ph d s w = (Inr s, w)) \<Longrightarrow> run_phase ph ds s w = (Inr s, w)"
  by (induction ds arbitrary: w) auto

lemma run_step_start_contract:
  assumes "\<And>d. d \<in> set ds \<Longrightarrow> middleware_contract d"
  shows "\<exists>s' w'. run_phase Phase_StepStart ds (BeforeLlmCall c) w = (Inr s', w') \<and> step_result c s'"
  using assms
proof (induction ds arbitrary: c w)
  case Nil
  then show ?case by simp
next
  case (Cons d ds)
  from Cons.prems have "middleware_contract d" by simp
  from middleware_contract.step_before [OF this, of c w] obtain s' w'
    where h: "on_step_start d (BeforeLlmCall c) w = (Inr s', w')" and r: "step_result c s'" by blast
  show ?case
  proof (cases "\<exists>c'. s' = BeforeLlmCall c'")
    case True
    then obtain c' where s': "s' = BeforeLlmCall c'" ..
    with r have ext: "ctx_extends c c'" by simp
    from Cons.IH [of c' w'] Cons.prems obtain s2 w2
      where "run_phase Phase_StepStart ds (BeforeLlmCall c') w' = (Inr s2, w2)"
        and r2: "step_result c' s2" by auto
    moreover from r2 ext have "step_result c s2"
      by (cases s2) (auto intro: ctx_extends_trans)
    ultimately show ?thesis using h s' by simp
  next
    case False
    with r obtain m t co where "s' = Stopped m t co" by (cases s') auto
    with h r show ?thesis by simp
  qed
qed

lemma run_turn_start_contract:
  assumes "\<And>d. d \<in> set ds \<Longrightarrow> middleware_contract d"
  shows "\<exists>c' w'. run_phase Phase_TurnStart ds (BeforeLlmCall c) w = (Inr (BeforeLlmCall c'), w')
    \<and> ctx_extends c c'"
  using assms
proof (induction ds arbitrary: c w)
  case Nil
  then show ?case by simp
next
  case (Cons d ds)
  from Cons.prems have "middleware_contract d" by simp
  from middleware_contract.turn_before [OF this, of c w] obtain c' w'
    where h: "on_turn_start d (BeforeLlmCall c) w = (Inr (BeforeLlmCall c'), w')"
      and ext: "ctx_extends c c'" by blast
  from Cons.IH [of c' w'] Cons.prems obtain c2 w2
    where "run_phase Phase_TurnStart ds (BeforeLlmCall c') w' = (Inr (BeforeLlmCall c2), w2)"
      and "ctx_extends c' c2" by auto
  with h ext show ?case by (auto intro: ctx_extends_trans)
qed

lemma run_after_llm_contract:
  assumes "\<And>d. d \<in> set ds \<Longrightarrow> middleware_contract d"
  shows "\<exists>s' w'. run_phase Phase_AfterLlm ds (AfterLlm r c) w = (Inr s', w') \<and> after_result r c s'"
  using assms
proof (induction ds arbitrary: w)
  case Nil
  then show ?case by simp
next
  case (Cons d ds)
  from Cons.prems have "middleware_contract d" by simp
  from middleware_contract.after_after [OF this, of r c w] obtain s' w'
    where h: "on_after_llm d (AfterLlm r c) w = (Inr s', w')" and a: "after_result r c s'" by blast
  show ?case
  proof (cases "s' = AfterLlm r c")
    case True
    with h Cons.IH [of w'] Cons.prems show ?thesis by auto
  next
    case False
    with a obtain m t where "s' = Stopped m t (Some c)" "t \<noteq> ContextThreshold" by (cases s') auto
    with h show ?thesis by simp
  qed
qed

section \<open>Session limits of the pipeline\<close>

lemma first_some_simps [simp]: "first_some None b = b" "first_some (Some a) b = Some a"
  by (auto simp: first_some_def)

lemma first_some_assoc: "first_some (first_some a b) c = first_some a (first_some b c)"
  by (cases a) auto

lemma merge_limits_assoc: "merge_limits (merge_limits a b) c = merge_limits a (merge_limits b c)"
  by (simp add: merge_limits_def first_some_assoc)

lemma merge_no_limits [simp]: "merge_limits no_limits l = l" "merge_limits l no_limits = l"
  by (cases l; simp add: merge_limits_def no_limits_def first_some_def)+

lemma get_limits_loop_eq:
  "get_limits_loop ds l any =
    (fold (\<lambda>d l. merge_limits l d) (List.map_filter drv_get_limits ds) l,
     any \<or> List.map_filter drv_get_limits ds \<noteq> [])"
  by (induction ds arbitrary: l any) (auto simp: List.map_filter_simps split: option.splits)

text \<open>The first driver that sets a limit decides it.\<close>

lemma first_defined_Cons: "first_defined g (x # xs) = first_some (g x) (first_defined g xs)"
  by (simp split: option.split)

lemma fold_merge_limits:
  "fold (\<lambda>d l. merge_limits l d) ls l =
    \<lparr>sl_max_steps = first_some (sl_max_steps l) (first_defined sl_max_steps ls),
     sl_max_turns = first_some (sl_max_turns l) (first_defined sl_max_turns ls),
     sl_max_cost_usd = first_some (sl_max_cost_usd l) (first_defined sl_max_cost_usd ls)\<rparr>"
proof (induction ls arbitrary: l)
  case Nil
  then show ?case by (cases l) (simp add: first_some_def)
next
  case (Cons x xs)
  have "fold (\<lambda>d l. merge_limits l d) (x # xs) l = fold (\<lambda>d l. merge_limits l d) xs (merge_limits l x)"
    by simp
  also note Cons.IH
  finally show ?case
    by (simp only: first_defined_Cons merge_limits_def session_limits.select_convs first_some_assoc)
qed

lemma get_limits_first_defined:
  "get_limits ds =
    (let ls = List.map_filter drv_get_limits ds in
     if ls = [] then None
     else Some \<lparr>sl_max_steps = first_defined sl_max_steps ls,
                sl_max_turns = first_defined sl_max_turns ls,
                sl_max_cost_usd = first_defined sl_max_cost_usd ls\<rparr>)"
  by (simp add: get_limits_def get_limits_loop_eq fold_merge_limits no_limits_def Let_def)

end
