(* ===== verification/Providers.thy ===== *)
theory Providers
  imports Execution_State
begin

text \<open>
  The model registry: \<^verbatim>\<open>crates/querymt/src/providers/types.rs\<close> (data, capability and limit checks),
  \<^verbatim>\<open>crates/querymt/src/providers/queries.rs\<close> (lookup with provider aliases and suffix stripping) and
  the model info source of \<^verbatim>\<open>crates/agent/src/model_info.rs\<close>. A \<^verbatim>\<open>HashMap\<close> is a partial map. Reading
  the registry from its cache file is I/O: its result is an argument (\<open>None\<close> for a read error).
\<close>

record model_capabilities =
  cap_attachment :: bool
  cap_reasoning :: bool
  cap_temperature :: bool
  cap_tool_call :: bool
  cap_modalities_in :: "string list"
  cap_modalities_out :: "string list"

record model_limits =
  lim_context :: "u64 option"
  lim_output :: "u64 option"

record 'f model_info =
  mi_id :: string
  mi_name :: string
  mi_capabilities :: model_capabilities
  mi_limits :: model_limits
  mi_pricing :: "'f model_pricing"
  mi_knowledge :: "string option"
  mi_release_date :: "string option"
  mi_last_updated :: "string option"
  mi_open_weights :: "bool option"

record 'f provider_info =
  pi_id :: string
  pi_env :: "string list"
  pi_npm :: "string option"
  pi_name :: string
  pi_doc :: "string option"
  pi_models :: "string \<rightharpoonup> 'f model_info"
  pi_supports_custom_models :: bool

type_synonym 'f providers_registry = "string \<rightharpoonup> 'f provider_info"

definition cap_supports :: "model_capabilities \<Rightarrow> bool \<Rightarrow> bool \<Rightarrow> bool" where
  "cap_supports c requires_tools requires_attachments =
    ((\<not> requires_tools \<or> cap_tool_call c) \<and> (\<not> requires_attachments \<or> cap_attachment c))"

definition model_calculate_cost :: "'f f64_ops \<Rightarrow> 'f model_info \<Rightarrow> u64 \<Rightarrow> u64 \<Rightarrow> 'f option" where
  "model_calculate_cost F m inp out = calculate_cost F (mi_pricing m) inp out"

definition context_limit :: "'f model_info \<Rightarrow> u64 option" where
  "context_limit m = lim_context (mi_limits m)"

definition validate_output_limit :: "'f model_info \<Rightarrow> u64 \<Rightarrow> string + unit" where
  "validate_output_limit m requested =
    (case lim_output (mi_limits m) of
       Some limit \<Rightarrow>
         (if requested > limit
          then Inl (''Requested '' @ show_usize requested @ '' output tokens exceeds model limit of '' @ show_usize limit)
          else Inr ())
     | None \<Rightarrow> Inr ())"

section \<open>Lookup with fallbacks\<close>

definition find_model :: "'f providers_registry \<Rightarrow> string \<Rightarrow> string \<Rightarrow> 'f model_info option" where
  "find_model reg provider model = Option.bind (reg provider) (\<lambda>p. pi_models p model)"

text \<open>\<^verbatim>\<open>candidate.rfind('-')\<close> followed by \<^verbatim>\<open>&candidate[..pos]\<close>.\<close>

definition strip_last_segment :: "string \<Rightarrow> string option" where
  "strip_last_segment s =
    (case dropWhile (\<lambda>c. c \<noteq> CHR ''-'') (rev s) of [] \<Rightarrow> None | _ # r \<Rightarrow> Some (rev r))"

lemma strip_last_segment_length: "strip_last_segment s = Some t \<Longrightarrow> length t < length s"
proof -
  assume "strip_last_segment s = Some t"
  then obtain x r where "dropWhile (\<lambda>c. c \<noteq> CHR ''-'') (rev s) = x # r" and "t = rev r"
    by (auto simp: strip_last_segment_def split: list.splits)
  moreover have "length (dropWhile (\<lambda>c. c \<noteq> CHR ''-'') (rev s)) \<le> length s"
    using length_dropWhile_le [of _ "rev s"] by simp
  ultimately show ?thesis by simp
qed

function strip_search :: "'f providers_registry \<Rightarrow> string \<Rightarrow> string \<Rightarrow> 'f model_info option" where
  "strip_search reg candidate model =
    (case strip_last_segment candidate of
       None \<Rightarrow> None
     | Some c \<Rightarrow> (case find_model reg c model of
           Some m \<Rightarrow> Some m
         | None \<Rightarrow> strip_search reg c model))"
  by pat_completeness auto
termination
  by (relation "measure (\<lambda>(reg, c, m). length c)") (auto dest: strip_last_segment_length)

declare strip_search.simps [simp del]

definition get_model :: "'f providers_registry \<Rightarrow> string \<Rightarrow> string \<Rightarrow> 'f model_info option" where
  "get_model reg provider model =
    (let r0 = find_model reg provider model;
         r1 = (if r0 = None \<and> provider = ''codex'' then find_model reg ''openai'' model else r0);
         r2 = (if r1 = None \<and> provider = ''kimi-code'' then find_model reg ''moonshotai'' model else r1)
     in if r2 = None then strip_search reg provider model else r2)"

definition get_model_info :: "'f providers_registry option \<Rightarrow> string \<Rightarrow> string \<Rightarrow> 'f model_info option" where
  "get_model_info cache provider model =
    (case cache of Some reg \<Rightarrow> get_model reg provider model | None \<Rightarrow> None)"

section \<open>Model info source\<close>

datatype 'f model_info_source =
    Manual (mis_context_limit: "usize option") (mis_output_limit: "u64 option") (mis_tools: bool)
      (mis_attachments: bool) (mis_reasoning: bool) (mis_input_cost: "'f option") (mis_output_cost: "'f option")
  | FromSession

definition source_manual :: "'f model_info_source" where
  "source_manual = Manual (Some 32000) (Some 4096) True False False None None"

fun source_context_limit :: "'f model_info_source \<Rightarrow> usize \<Rightarrow> 'f model_info_source" where
  "source_context_limit (Manual c out t a r ic oc) limit = Manual (Some limit) out t a r ic oc"
| "source_context_limit FromSession limit = FromSession"

fun source_output_limit :: "'f model_info_source \<Rightarrow> u64 \<Rightarrow> 'f model_info_source" where
  "source_output_limit (Manual c out t a r ic oc) limit = Manual c (Some limit) t a r ic oc"
| "source_output_limit FromSession limit = FromSession"

fun source_pricing :: "'f model_info_source \<Rightarrow> 'f \<Rightarrow> 'f \<Rightarrow> 'f model_info_source" where
  "source_pricing (Manual c out t a r ic oc) i x = Manual c out t a r (Some i) (Some x)"
| "source_pricing FromSession i x = FromSession"

fun source_capabilities :: "'f model_info_source \<Rightarrow> bool \<Rightarrow> bool \<Rightarrow> bool \<Rightarrow> 'f model_info_source" where
  "source_capabilities (Manual c out t a r ic oc) tools att reas = Manual c out tools att reas ic oc"
| "source_capabilities FromSession tools att reas = FromSession"

section \<open>The lookup as a search through a candidate list\<close>

function stripped_names :: "string \<Rightarrow> string list" where
  "stripped_names s = (case strip_last_segment s of None \<Rightarrow> [] | Some c \<Rightarrow> c # stripped_names c)"
  by pat_completeness auto
termination
  by (relation "measure length") (auto dest: strip_last_segment_length)

declare stripped_names.simps [simp del]

definition model_candidates :: "string \<Rightarrow> string list" where
  "model_candidates p = [p] @ (if p = ''codex'' then [''openai''] else [])
     @ (if p = ''kimi-code'' then [''moonshotai''] else []) @ stripped_names p"

lemma strip_search_eq: "strip_search reg p m = first_defined (\<lambda>n. find_model reg n m) (stripped_names p)"
proof (induction p rule: stripped_names.induct)
  case (1 s)
  show ?case
  proof (cases "strip_last_segment s")
    case None
    then show ?thesis by (simp add: strip_search.simps [of reg s] stripped_names.simps [of s])
  next
    case (Some c)
    with 1 have "strip_search reg c m = first_defined (\<lambda>n. find_model reg n m) (stripped_names c)" by simp
    with Some show ?thesis
      by (simp add: strip_search.simps [of reg s] stripped_names.simps [of s] split: option.split)
  qed
qed

lemma get_model_first_hit:
  "get_model reg p m = first_defined (\<lambda>n. find_model reg n m) (model_candidates p)"
  by (simp add: get_model_def model_candidates_def first_defined_append strip_search_eq Let_def
      split: option.split)

end
