(* ===== verification/LLM_Error.thy ===== *)
theory LLM_Error
  imports Prelude
begin

text \<open>
  The provider errors of \<^verbatim>\<open>crates/querymt/src/error.rs\<close>: the error type, its wire payload with the two
  conversions, the retry classification and the mapping of HTTP status codes. An error of a third-party
  crate (\<^verbatim>\<open>serde_json\<close>, \<^verbatim>\<open>url\<close>, \<^verbatim>\<open>std::io\<close>) is represented by the text \<^verbatim>\<open>to_string\<close> gives for it.
\<close>

type_synonym u16 = "16 word"

datatype transport_error_kind =
  ConnectionRefused | ConnectionReset | Timeout | ConnectionClosed | Dns | Tls | OtherTransport

datatype llm_error =
    GenericError string
  | ProviderError string
  | AuthError string
  | ToolConfigError string
  | PluginError string
  | InvalidRequest string
  | ResponseFormatError string string
  | RateLimited string "u64 option"
  | HttpStatus u16 string "u64 option"
  | HttpError string
  | Transport transport_error_kind string
  | CancelledErr
  | RemoteStreamDisconnected string
  | RemoteStreamReconnected string
  | NotImplemented string
  | JsonError string
  | InvalidUrl string
  | IoError string

datatype llm_error_payload =
    P_GenericError string
  | P_ProviderError string
  | P_AuthError string
  | P_ToolConfigError string
  | P_PluginError string
  | P_InvalidRequest string
  | P_ResponseFormatError string string
  | P_RateLimited string "u64 option"
  | P_HttpStatus u16 string "u64 option"
  | P_HttpError string
  | P_Transport transport_error_kind string
  | P_Cancelled
  | P_RemoteStreamDisconnected string
  | P_RemoteStreamReconnected string
  | P_NotImplemented string
  | P_JsonError string
  | P_InvalidUrl string
  | P_IoError string

fun to_payload :: "llm_error \<Rightarrow> llm_error_payload" where
  "to_payload (GenericError m) = P_GenericError m"
| "to_payload (ProviderError m) = P_ProviderError m"
| "to_payload (AuthError m) = P_AuthError m"
| "to_payload (ToolConfigError m) = P_ToolConfigError m"
| "to_payload (PluginError m) = P_PluginError m"
| "to_payload (InvalidRequest m) = P_InvalidRequest m"
| "to_payload (ResponseFormatError m r) = P_ResponseFormatError m r"
| "to_payload (RateLimited m r) = P_RateLimited m r"
| "to_payload (HttpStatus c m r) = P_HttpStatus c m r"
| "to_payload (HttpError m) = P_HttpError m"
| "to_payload (Transport k m) = P_Transport k m"
| "to_payload CancelledErr = P_Cancelled"
| "to_payload (RemoteStreamDisconnected m) = P_RemoteStreamDisconnected m"
| "to_payload (RemoteStreamReconnected m) = P_RemoteStreamReconnected m"
| "to_payload (NotImplemented m) = P_NotImplemented m"
| "to_payload (JsonError m) = P_JsonError m"
| "to_payload (InvalidUrl m) = P_InvalidUrl m"
| "to_payload (IoError m) = P_IoError m"

fun from_payload :: "llm_error_payload \<Rightarrow> llm_error" where
  "from_payload (P_GenericError m) = GenericError m"
| "from_payload (P_ProviderError m) = ProviderError m"
| "from_payload (P_AuthError m) = AuthError m"
| "from_payload (P_ToolConfigError m) = ToolConfigError m"
| "from_payload (P_PluginError m) = PluginError m"
| "from_payload (P_InvalidRequest m) = InvalidRequest m"
| "from_payload (P_ResponseFormatError m r) = ResponseFormatError m r"
| "from_payload (P_RateLimited m r) = RateLimited m r"
| "from_payload (P_HttpStatus c m r) = HttpStatus c m r"
| "from_payload (P_HttpError m) = HttpError m"
| "from_payload (P_Transport k m) = Transport k m"
| "from_payload P_Cancelled = CancelledErr"
| "from_payload (P_RemoteStreamDisconnected m) = RemoteStreamDisconnected m"
| "from_payload (P_RemoteStreamReconnected m) = RemoteStreamReconnected m"
| "from_payload (P_NotImplemented m) = NotImplemented m"
| "from_payload (P_JsonError m) = PluginError m"
| "from_payload (P_InvalidUrl m) = HttpError m"
| "from_payload (P_IoError m) = Transport OtherTransport m"

fun retry_after_secs :: "llm_error \<Rightarrow> u64 option" where
  "retry_after_secs (RateLimited _ r) = r"
| "retry_after_secs (HttpStatus _ _ r) = r"
| "retry_after_secs _ = None"

fun is_retryable :: "llm_error \<Rightarrow> bool" where
  "is_retryable (Transport _ _) = True"
| "is_retryable (HttpError _) = True"
| "is_retryable (RateLimited _ _) = True"
| "is_retryable (HttpStatus c _ _) = (c = 429 \<or> (500 \<le> c \<and> c \<le> 599))"
| "is_retryable (PluginError _) = True"
| "is_retryable (IoError _) = True"
| "is_retryable (AuthError _) = False"
| "is_retryable (InvalidRequest _) = False"
| "is_retryable (ProviderError _) = False"
| "is_retryable (ToolConfigError _) = False"
| "is_retryable (ResponseFormatError _ _) = False"
| "is_retryable (GenericError _) = False"
| "is_retryable CancelledErr = False"
| "is_retryable (JsonError _) = False"
| "is_retryable (InvalidUrl _) = False"
| "is_retryable (NotImplemented _) = False"
| "is_retryable (RemoteStreamDisconnected _) = False"
| "is_retryable (RemoteStreamReconnected _) = False"

text \<open>The final match of \<^verbatim>\<open>classify_http_status\<close>, after 499 is taken as a cancellation and the message
  and the retry hint have been extracted from body and headers.\<close>

definition status_error :: "u16 \<Rightarrow> string \<Rightarrow> u64 option \<Rightarrow> llm_error" where
  "status_error code clean retry =
    (let message = (if clean = [] then ''HTTP '' @ show_nat (unat code) else clean) in
     if code = 499 then CancelledErr
     else if code = 401 \<or> code = 403 then AuthError message
     else if code = 429 then RateLimited message retry
     else if code = 400 then InvalidRequest message
     else if 500 \<le> code \<and> code \<le> 599 then HttpStatus code message retry
     else ProviderError message)"

text \<open>\<^verbatim>\<open>duration_to_secs\<close>: whole seconds, a positive fraction of a second counting as one.\<close>

definition duration_to_secs :: "nat \<Rightarrow> nat" where
  "duration_to_secs nanos =
    (let secs = nanos div 1000000000 in if 0 < secs then secs else if nanos \<noteq> 0 then 1 else 0)"

section \<open>Lemmas\<close>

lemma from_to_payload:
  "from_payload (to_payload e) =
    (case e of JsonError m \<Rightarrow> PluginError m | InvalidUrl m \<Rightarrow> HttpError m
     | IoError m \<Rightarrow> Transport OtherTransport m | _ \<Rightarrow> e)"
  by (cases e) simp_all

lemma to_from_payload:
  "to_payload (from_payload p) = (case p of P_JsonError m \<Rightarrow> P_PluginError m | P_InvalidUrl m \<Rightarrow> P_HttpError m
     | P_IoError m \<Rightarrow> P_Transport OtherTransport m | _ \<Rightarrow> p)"
  by (cases p) simp_all

lemma retry_after_payload: "retry_after_secs (from_payload (to_payload e)) = retry_after_secs e"
  by (cases e) simp_all

end
