(* ===== verification/Session_Error.thy ===== *)
theory Session_Error
  imports LLM_Error
begin

text \<open>
  The error type of the session layer (\<^verbatim>\<open>crates/agent/src/session/error.rs\<close>) and its conversion to the
  error type of the model providers.
\<close>

datatype session_error =
    SessionNotFound string | TaskNotFound string | IntentSnapshotNotFound string
  | DecisionNotFound string | AlternativeNotFound string | ProgressEntryNotFound string
  | ArtifactNotFound string | DelegationNotFound string | InvalidForkPoint string
  | ForkPointTypeMismatch string string | InvalidMessageIndex string | DatabaseError string
  | SerializationError string | InvalidOperation string | SessionProviderError llm_error
  | OtherSessionError string

fun llm_error_of_session :: "session_error \<Rightarrow> llm_error" where
  "llm_error_of_session (SessionNotFound m) = InvalidRequest m"
| "llm_error_of_session (TaskNotFound m) = InvalidRequest m"
| "llm_error_of_session (IntentSnapshotNotFound m) = InvalidRequest m"
| "llm_error_of_session (DecisionNotFound m) = InvalidRequest m"
| "llm_error_of_session (AlternativeNotFound m) = InvalidRequest m"
| "llm_error_of_session (ProgressEntryNotFound m) = InvalidRequest m"
| "llm_error_of_session (ArtifactNotFound m) = InvalidRequest m"
| "llm_error_of_session (DelegationNotFound m) = InvalidRequest m"
| "llm_error_of_session (InvalidForkPoint m) = InvalidRequest m"
| "llm_error_of_session (InvalidMessageIndex m) = InvalidRequest m"
| "llm_error_of_session (InvalidOperation m) = InvalidRequest m"
| "llm_error_of_session (ForkPointTypeMismatch e a) =
    InvalidRequest (''Fork point type mismatch: expected '' @ e @ '', got '' @ a)"
| "llm_error_of_session (DatabaseError m) = ProviderError m"
| "llm_error_of_session (SerializationError m) = ProviderError m"
| "llm_error_of_session (SessionProviderError e) = e"
| "llm_error_of_session (OtherSessionError m) = ProviderError m"

end
