(* ===== verification/World.thy ===== *)
theory World
  imports Driver Providers Session_Error
begin

text \<open>
  What the middleware hooks read and write: the domain records of
  \<^verbatim>\<open>crates/agent/src/session/domain.rs\<close>, the methods of the trait object \<^verbatim>\<open>dyn SessionStore\<close>
  (\<^verbatim>\<open>crates/agent/src/session/store.rs\<close>) that the middleware calls, and the world a hook passes on.

  The store is a record of functions over a database state \<open>'db\<close>; a call that the source awaits
  either fails with a session error or returns. The theory \<open>Task_Repo\<close> gives the SQL-backed tables.
  The mutable cells behind the middleware's mutexes live in maps from object addresses to contents,
  so that two instances of one middleware have separate cells.
\<close>

section \<open>Domain entities\<close>

datatype task_kind = Finite | Recurring | Evolving

datatype task_status = Task_Active | Task_Paused | Task_Done | Task_Cancelled

record task =
  task_id :: int
  task_public_id :: string
  task_session_id :: int
  task_kind_of :: task_kind
  task_status_of :: task_status
  task_expected_deliverable :: "string option"
  task_acceptance_criteria :: "string option"
  task_created_at :: int
  task_updated_at :: int

datatype delegation_status =
  Del_Requested | Del_Running | Del_Complete | Del_Failed | Del_Cancelled

record delegation =
  del_id :: int
  del_public_id :: string
  del_session_id :: int
  del_task_id :: "int option"
  del_target_agent_id :: string
  del_objective :: string
  del_objective_hash :: u64
  del_context :: "string option"
  del_constraints :: "string option"
  del_expected_output :: "string option"
  del_verification_spec :: "json option"       \<comment> \<open>the specification in its JSON form\<close>
  del_planning_summary :: "string option"
  del_status :: delegation_status
  del_retry_count :: u32
  del_created_at :: int
  del_completed_at :: "int option"

datatype fork_origin = Fork_User | Fork_Delegation

datatype fork_point_type = MessageIndex | ProgressEntry

record session =
  ses_id :: int
  ses_public_id :: string
  ses_name :: "string option"
  ses_cwd :: "string option"
  ses_created_at :: "int option"
  ses_updated_at :: "int option"
  ses_current_intent_snapshot_id :: "int option"
  ses_active_task_id :: "int option"
  ses_llm_config_id :: "int option"
  ses_parent_session_id :: "int option"
  ses_fork_origin :: "fork_origin option"
  ses_session_kind :: "string option"
  ses_fork_point_type :: "fork_point_type option"
  ses_fork_point_ref :: "string option"
  ses_fork_instructions :: "string option"

fun fork_origin_display :: "fork_origin \<Rightarrow> string" where
  "fork_origin_display Fork_User = ''user''"
| "fork_origin_display Fork_Delegation = ''delegation''"

definition fork_origin_from_str :: "string \<Rightarrow> string + fork_origin" where
  "fork_origin_from_str s =
    (if s = ''user'' then Inr Fork_User
     else if s = ''delegation'' then Inr Fork_Delegation
     else Inl (''Unknown fork origin: '' @ s))"

fun fork_point_type_display :: "fork_point_type \<Rightarrow> string" where
  "fork_point_type_display MessageIndex = ''message_index''"
| "fork_point_type_display ProgressEntry = ''progress_entry''"

definition fork_point_type_from_str :: "string \<Rightarrow> string + fork_point_type" where
  "fork_point_type_from_str s =
    (if s = ''message_index'' then Inr MessageIndex
     else if s = ''progress_entry'' then Inr ProgressEntry
     else Inl (''Unknown fork point type: '' @ s))"

section \<open>The session store\<close>

record ('f, 'b, 'db) session_store =
  ss_get_session :: "string \<Rightarrow> 'db \<Rightarrow> session_error + session option"
  ss_get_history :: "string \<Rightarrow> 'db \<Rightarrow> session_error + ('f, 'b) agent_message list"
  ss_list_tasks :: "string \<Rightarrow> 'db \<Rightarrow> session_error + task list"
  ss_list_delegations :: "string \<Rightarrow> 'db \<Rightarrow> session_error + delegation list"
  ss_update_task_status :: "string \<Rightarrow> task_status \<Rightarrow> 'db \<Rightarrow> (session_error + unit) \<times> 'db"

section \<open>The world of the hooks\<close>

record 'db world =
  w_last_model :: "nat \<Rightarrow> (string \<times> string) option"   \<comment> \<open>\<^verbatim>\<open>Mutex<Option<(String, String)>>\<close> cells\<close>
  w_warned :: "nat \<Rightarrow> string set"                      \<comment> \<open>\<^verbatim>\<open>Mutex<HashSet<Arc<str>>>\<close> cells\<close>
  w_last_check :: "nat \<Rightarrow> string \<rightharpoonup> usize"             \<comment> \<open>\<^verbatim>\<open>Mutex<HashMap<String, usize>>\<close> cells\<close>
  w_now :: int                                          \<comment> \<open>the UTC clock, in nanoseconds\<close>
  w_db :: 'db

text \<open>\<^verbatim>\<open>(now - completed).whole_seconds()\<close>: truncation towards zero.\<close>

definition whole_seconds :: "int \<Rightarrow> int" where
  "whole_seconds ns = sgn ns * (\<bar>ns\<bar> div 1000000000)"

end
