(* ===== verification/Session_Store.thy ===== *)
theory Session_Store
  imports World "HOL-Library.List_Lexorder" "HOL-Library.Char_ord"
begin

text \<open>
  The message tables of the SQLite session store (\<^verbatim>\<open>crates/agent/src/session/sqlite_storage/session_store.rs\<close>)
  and the event journal beside them (\<^verbatim>\<open>sqlite_storage/event_journal.rs\<close>): appending and reading messages,
  forking a session, deleting messages, the stack of revert states and the durable events.

  A table is the list of its rows in the order of their identifiers, which SQLite assigns as the largest
  identifier plus one. An operation that runs in a transaction returns the old tables with an error. The
  JSON encodings and the printing of time stamps are third-party code and come with a \<open>store_codec\<close>, in
  which the text of an error is the one \<^verbatim>\<open>rusqlite\<close> reports.
\<close>

section \<open>Tables\<close>

record session_row =
  sw_id :: int
  sw_public_id :: string
  sw_name :: "string option"
  sw_cwd :: "string option"
  sw_created_at :: string
  sw_updated_at :: string
  sw_llm_config_id :: "int option"
  sw_parent_session_id :: "int option"
  sw_fork_origin :: "string option"
  sw_fork_point_type :: "string option"
  sw_fork_point_ref :: "string option"

record message_row =
  mr_id :: int
  mr_public_id :: string
  mr_session_id :: int
  mr_role :: string
  mr_created_at :: int
  mr_parent_message_id :: "int option"
  mr_source_provider :: "string option"
  mr_source_model :: "string option"

record part_row =
  pw_message_id :: int
  pw_part_type :: string
  pw_content_json :: string
  pw_sort_order :: int

record revert_row =
  rw_id :: int
  rw_public_id :: string
  rw_session_id :: int
  rw_message_id :: string
  rw_snapshot_id :: string
  rw_backend_id :: string
  rw_created_at :: string

record journal_row =
  jw_event_id :: string
  jw_stream_seq :: int
  jw_session_id :: string
  jw_timestamp :: int
  jw_origin :: string
  jw_source_node :: "string option"
  jw_kind :: string
  jw_payload_json :: string

record session_db =
  db_sessions :: "session_row list"
  db_messages :: "message_row list"
  db_parts :: "part_row list"
  db_reverts :: "revert_row list"
  db_journal :: "journal_row list"
  db_next_seq :: int

text \<open>\<open>RevertState\<close> of \<^verbatim>\<open>session/domain.rs\<close>; a time is the number of nanoseconds since the epoch.\<close>

record revert_state =
  rs_public_id :: string
  rs_session_id :: string
  rs_message_id :: string
  rs_snapshot_id :: string
  rs_backend_id :: string
  rs_created_at :: int

datatype event_origin = Origin_Local | Origin_Remote | Origin_Unknown string

record 'e new_durable_event =
  ne_session_id :: string
  ne_origin :: event_origin
  ne_source_node :: "string option"
  ne_kind :: 'e

record 'e durable_event =
  de_event_id :: string
  de_stream_seq :: int
  de_session_id :: string
  de_timestamp :: int
  de_origin :: event_origin
  de_source_node :: "string option"
  de_kind :: 'e

record ('f, 'b, 'e) store_codec =
  cd_part_to :: "('f, 'b) message_part \<Rightarrow> string + string"
  cd_part_of :: "string \<Rightarrow> string + ('f, 'b) message_part"
  cd_event_to :: "'e \<Rightarrow> string + string"
  cd_event_of :: "string \<Rightarrow> 'e option"
  cd_event_value :: "'e \<Rightarrow> json option"          \<comment> \<open>\<^verbatim>\<open>serde_json::to_value\<close>\<close>
  cd_json_of :: "string \<Rightarrow> json option"           \<comment> \<open>\<^verbatim>\<open>serde_json::from_str\<close>\<close>
  cd_time_to :: "int \<Rightarrow> string"                   \<comment> \<open>\<^verbatim>\<open>format(&Rfc3339).unwrap_or_default()\<close>\<close>
  cd_time_of :: "string \<Rightarrow> int option"

section \<open>Row identifiers\<close>

definition next_row_id :: "('r \<Rightarrow> int) \<Rightarrow> 'r list \<Rightarrow> int" where
  "next_row_id key rows = 1 + fold max (map key rows) 0"

definition resolve_session_internal_id :: "string \<Rightarrow> session_db \<Rightarrow> session_error + int" where
  "resolve_session_internal_id sid db =
    (case List.find (\<lambda>r. sw_public_id r = sid) (db_sessions db) of
       Some r \<Rightarrow> Inr (sw_id r)
     | None \<Rightarrow> Inl (SessionNotFound sid))"

definition resolve_message_internal_id :: "string \<Rightarrow> session_db \<Rightarrow> session_error + int" where
  "resolve_message_internal_id mid db =
    (case List.find (\<lambda>r. mr_public_id r = mid) (db_messages db) of
       Some r \<Rightarrow> Inr (mr_id r)
     | None \<Rightarrow> Inl (InvalidOperation (''Message not found: '' @ mid)))"

section \<open>Reading a history\<close>

definition role_of_str :: "string \<Rightarrow> chat_role" where
  "role_of_str s = (if s = ''User'' then User else if s = ''Assistant'' then Assistant else User)"

definition role_str :: "chat_role \<Rightarrow> string" where
  "role_str r = (case r of User \<Rightarrow> ''User'' | Assistant \<Rightarrow> ''Assistant'')"

text \<open>The parts of a query, decoded row by row; the first row that cannot be decoded fails the query.\<close>

fun decode_parts :: "('f, 'b, 'e) store_codec \<Rightarrow> part_row list \<Rightarrow> session_error + (int \<times> ('f, 'b) message_part) list" where
  "decode_parts C [] = Inr []"
| "decode_parts C (p # ps) =
    (case cd_part_of C (pw_content_json p) of
       Inl e \<Rightarrow> Inl (DatabaseError e)
     | Inr part \<Rightarrow> map_sum id (\<lambda>qs. (pw_message_id p, part) # qs) (decode_parts C ps))"

text \<open>\<^verbatim>\<open>ORDER BY created_at ASC\<close>: rows with the same time stamp come in the order of their identifiers.\<close>

definition session_message_rows :: "int \<Rightarrow> session_db \<Rightarrow> message_row list" where
  "session_message_rows i db = sort_key mr_created_at (filter (\<lambda>r. mr_session_id r = i) (db_messages db))"

definition session_part_rows :: "int \<Rightarrow> session_db \<Rightarrow> part_row list" where
  "session_part_rows i db = sort_key pw_sort_order (filter (\<lambda>p. pw_message_id p \<in>
     set (map mr_id (filter (\<lambda>r. mr_session_id r = i) (db_messages db)))) (db_parts db))"

definition row_to_message ::
    "string \<Rightarrow> (int \<rightharpoonup> string) \<Rightarrow> (int \<times> ('f, 'b) message_part) list \<Rightarrow> message_row \<Rightarrow> ('f, 'b) agent_message" where
  "row_to_message sid id_map parts r =
    \<lparr>am_id = mr_public_id r, am_session_id = sid, am_role = role_of_str (mr_role r),
     am_parts = map snd (filter (\<lambda>(i, _). id_map i = Some (mr_public_id r)) parts),
     am_created_at = mr_created_at r,
     am_parent_message_id = (case mr_parent_message_id r of None \<Rightarrow> None | Some p \<Rightarrow> id_map p),
     am_source_provider = mr_source_provider r, am_source_model = mr_source_model r\<rparr>"

definition get_history ::
    "('f, 'b, 'e) store_codec \<Rightarrow> string \<Rightarrow> session_db \<Rightarrow> session_error + ('f, 'b) agent_message list" where
  "get_history C sid db =
    (case resolve_session_internal_id sid db of Inl e \<Rightarrow> Inl e | Inr i \<Rightarrow>
     let rows = session_message_rows i db;
         id_map = map_of (map (\<lambda>r. (mr_id r, mr_public_id r)) rows)
     in map_sum id (\<lambda>parts. map (row_to_message sid id_map parts) rows)
          (decode_parts C (session_part_rows i db)))"

section \<open>Adding a message\<close>

definition index_as_i32 :: "nat \<Rightarrow> int" where
  "index_as_i32 n = (int n + 2 ^ 31) mod 2 ^ 32 - 2 ^ 31"

text \<open>\<^verbatim>\<open>MessagePart::type_name\<close> of \<^verbatim>\<open>crates/agent/src/model.rs\<close>.\<close>

fun part_type_name :: "('f, 'b) message_part \<Rightarrow> string" where
  "part_type_name (Part_Text _) = ''text''"
| "part_type_name (Part_Prompt _) = ''prompt''"
| "part_type_name (Part_Reasoning _ _ _) = ''reasoning''"
| "part_type_name (Part_StepStart _ _) = ''step_start''"
| "part_type_name (Part_StepFinish _ _ _) = ''step_finish''"
| "part_type_name (Part_ToolUse _) = ''tool_use''"
| "part_type_name (Part_ToolResult _ _ _ _ _ _) = ''tool_result''"
| "part_type_name (Part_Patch _ _ _) = ''patch''"
| "part_type_name (Part_Snapshot _ _) = ''snapshot''"
| "part_type_name (Part_Compaction _ _) = ''compaction''"
| "part_type_name (Part_CompactionRequest _) = ''compaction_request''"
| "part_type_name (Part_TurnSnapshotStart _ _) = ''turn_snapshot_start''"
| "part_type_name (Part_TurnSnapshotPatch _ _ _) = ''turn_snapshot_patch''"

fun encode_parts :: "('f, 'b, 'e) store_codec \<Rightarrow> int \<Rightarrow> nat \<Rightarrow> ('f, 'b) message_part list \<Rightarrow> session_error + part_row list" where
  "encode_parts C mid idx [] = Inr []"
| "encode_parts C mid idx (p # ps) =
    (case cd_part_to C p of
       Inl e \<Rightarrow> Inl (DatabaseError e)
     | Inr json \<Rightarrow> map_sum id (\<lambda>rs. \<lparr>pw_message_id = mid, pw_part_type = part_type_name p,
                      pw_content_json = json, pw_sort_order = index_as_i32 idx\<rparr> # rs) (encode_parts C mid (Suc idx) ps))"

definition unique_failed :: "string \<Rightarrow> session_error" where
  "unique_failed col = DatabaseError (''UNIQUE constraint failed: '' @ col)"

definition resolve_parent :: "string option \<Rightarrow> session_db \<Rightarrow> session_error + int option" where
  "resolve_parent p db =
    (case p of None \<Rightarrow> Inr None | Some mid \<Rightarrow> map_sum id Some (resolve_message_internal_id mid db))"

definition store_add_message ::
    "('f, 'b, 'e) store_codec \<Rightarrow> int \<Rightarrow> string \<Rightarrow> ('f, 'b) agent_message \<Rightarrow> session_db
     \<Rightarrow> (session_error + unit) \<times> session_db" where
  "store_add_message C now sid m db =
    (case resolve_session_internal_id sid db of Inl e \<Rightarrow> (Inl e, db) | Inr i \<Rightarrow>
     case resolve_parent (am_parent_message_id m) db of Inl e \<Rightarrow> (Inl e, db) | Inr parent \<Rightarrow>
     if am_id m \<in> mr_public_id ` set (db_messages db) then (Inl (unique_failed ''messages.public_id''), db)
     else
       let mid = next_row_id mr_id (db_messages db);
           row = \<lparr>mr_id = mid, mr_public_id = am_id m, mr_session_id = i, mr_role = role_str (am_role m),
                  mr_created_at = am_created_at m, mr_parent_message_id = parent,
                  mr_source_provider = am_source_provider m, mr_source_model = am_source_model m\<rparr>
       in case encode_parts C mid 0 (am_parts m) of Inl e \<Rightarrow> (Inl e, db) | Inr prs \<Rightarrow>
          (Inr (), db\<lparr>db_messages := db_messages db @ [row], db_parts := db_parts db @ prs,
             db_sessions := map (\<lambda>s. if sw_id s = i then s\<lparr>sw_updated_at := cd_time_to C now\<rparr> else s) (db_sessions db)\<rparr>))"

section \<open>Forking a session\<close>

text \<open>The messages up to and including the target; all of them when the target is not among them.\<close>

fun take_through :: "('a \<Rightarrow> bool) \<Rightarrow> 'a list \<Rightarrow> 'a list" where
  "take_through P [] = []"
| "take_through P (x # xs) = x # (if P x then [] else take_through P xs)"

definition messages_to_copy :: "int \<Rightarrow> int \<Rightarrow> session_db \<Rightarrow> message_row list" where
  "messages_to_copy src target db = take_through (\<lambda>r. mr_id r = target)
     (sort_key mr_id (filter (\<lambda>r. mr_session_id r = src) (db_messages db)))"

text \<open>The stored prompts and answers whose message is copied.\<close>

definition event_to_copy :: "('f, 'b, 'e) store_codec \<Rightarrow> string set \<Rightarrow> journal_row \<Rightarrow> bool" where
  "event_to_copy C copied r =
    (jw_kind r \<in> {''prompt_received'', ''assistant_message_stored''} \<and>
     (case cd_json_of C (jw_payload_json r) of None \<Rightarrow> False | Some v \<Rightarrow>
      case Option.bind (Option.bind (json_get v ''data'') (\<lambda>d. json_get d ''message_id'')) json_as_str of
        None \<Rightarrow> False
      | Some mid \<Rightarrow> mid \<in> copied))"

definition conversational_events :: "('f, 'b, 'e) store_codec \<Rightarrow> string \<Rightarrow> string set \<Rightarrow> session_db \<Rightarrow> journal_row list" where
  "conversational_events C sid copied db = filter (event_to_copy C copied)
     (sort_key jw_stream_seq (filter (\<lambda>r. jw_session_id r = sid) (db_journal db)))"

definition copy_message :: "string \<Rightarrow> int \<Rightarrow> message_row \<Rightarrow> session_db \<Rightarrow> session_error + session_db" where
  "copy_message uuid target r db =
    (if uuid \<in> mr_public_id ` set (db_messages db) then Inl (unique_failed ''messages.public_id'')
     else
       let mid = next_row_id mr_id (db_messages db);
           row = r\<lparr>mr_id := mid, mr_public_id := uuid, mr_session_id := target, mr_parent_message_id := None\<rparr>;
           prs = map (\<lambda>p. p\<lparr>pw_message_id := mid\<rparr>) (filter (\<lambda>p. pw_message_id p = mr_id r) (db_parts db))
       in Inr (db\<lparr>db_messages := db_messages db @ [row], db_parts := db_parts db @ prs\<rparr>))"

fun copy_messages :: "(nat \<Rightarrow> string) \<Rightarrow> nat \<Rightarrow> int \<Rightarrow> message_row list \<Rightarrow> session_db \<Rightarrow> session_error + session_db" where
  "copy_messages uuids n target [] db = Inr db"
| "copy_messages uuids n target (r # rs) db =
    (case copy_message (uuids n) target r db of Inl e \<Rightarrow> Inl e | Inr db' \<Rightarrow> copy_messages uuids (Suc n) target rs db')"

definition copy_event :: "string \<Rightarrow> string \<Rightarrow> journal_row \<Rightarrow> session_db \<Rightarrow> session_error + session_db" where
  "copy_event uuid sid r db =
    (if uuid \<in> jw_event_id ` set (db_journal db) then Inl (unique_failed ''event_journal.event_id'')
     else if db_next_seq db \<in> jw_stream_seq ` set (db_journal db) then Inl (unique_failed ''event_journal.stream_seq'')
     else Inr (db\<lparr>db_next_seq := db_next_seq db + 1, db_journal := db_journal db @
       [r\<lparr>jw_event_id := uuid, jw_stream_seq := db_next_seq db, jw_session_id := sid\<rparr>]\<rparr>))"

fun copy_events :: "(nat \<Rightarrow> string) \<Rightarrow> nat \<Rightarrow> string \<Rightarrow> journal_row list \<Rightarrow> session_db \<Rightarrow> session_error + session_db" where
  "copy_events uuids n sid [] db = Inr db"
| "copy_events uuids n sid (r # rs) db =
    (case copy_event (uuids n) sid r db of Inl e \<Rightarrow> Inl e | Inr db' \<Rightarrow> copy_events uuids (Suc n) sid rs db')"

definition fork_session_row :: "('f, 'b, 'e) store_codec \<Rightarrow> int \<Rightarrow> string \<Rightarrow> int \<Rightarrow> int \<Rightarrow> int \<Rightarrow> fork_origin \<Rightarrow> session_db \<Rightarrow> session_row" where
  "fork_session_row C now uuid new src target origin db =
    (let parent = List.find (\<lambda>r. sw_id r = src) (db_sessions db)
     in \<lparr>sw_id = new, sw_public_id = uuid, sw_name = Some ''Fork of session'',
         sw_cwd = Option.bind parent sw_cwd, sw_created_at = cd_time_to C now, sw_updated_at = cd_time_to C now,
         sw_llm_config_id = Option.bind parent sw_llm_config_id, sw_parent_session_id = Some src,
         sw_fork_origin = Some (fork_origin_display origin), sw_fork_point_type = Some (fork_point_type_display MessageIndex),
         sw_fork_point_ref = Some (show_int target)\<rparr>)"

text \<open>The identifiers that \<^verbatim>\<open>Uuid::now_v7()\<close> returns are the argument \<open>uuids\<close>, in the order of the calls.\<close>

definition fork_session ::
    "('f, 'b, 'e) store_codec \<Rightarrow> int \<Rightarrow> (nat \<Rightarrow> string) \<Rightarrow> string \<Rightarrow> string \<Rightarrow> fork_origin \<Rightarrow> session_db
     \<Rightarrow> (session_error + string) \<times> session_db" where
  "fork_session C now uuids sid mid origin db =
    (case resolve_session_internal_id sid db of Inl e \<Rightarrow> (Inl e, db) | Inr src \<Rightarrow>
     case resolve_message_internal_id mid db of Inl e \<Rightarrow> (Inl e, db) | Inr target \<Rightarrow>
     if uuids 0 \<in> sw_public_id ` set (db_sessions db) then (Inl (unique_failed ''sessions.public_id''), db)
     else
       let new = next_row_id sw_id (db_sessions db);
           db1 = db\<lparr>db_sessions := db_sessions db @ [fork_session_row C now (uuids 0) new src target origin db]\<rparr>;
           msgs = messages_to_copy src target db;
           evs = conversational_events C sid (set (map mr_public_id msgs)) db
       in case copy_messages uuids 1 new msgs db1 of Inl e \<Rightarrow> (Inl e, db) | Inr db2 \<Rightarrow>
          case copy_events uuids (1 + length msgs) (uuids 0) evs db2 of Inl e \<Rightarrow> (Inl e, db) | Inr db3 \<Rightarrow>
          (Inr (uuids 0), db3))"

definition list_child_sessions :: "string \<Rightarrow> session_db \<Rightarrow> session_error + string list" where
  "list_child_sessions sid db =
    (case resolve_session_internal_id sid db of Inl e \<Rightarrow> Inl e | Inr i \<Rightarrow>
     Inr (map sw_public_id (sort_key sw_created_at
       (filter (\<lambda>r. sw_parent_session_id r = Some i) (db_sessions db)))))"

section \<open>Deleting messages\<close>

definition delete_messages_after :: "string \<Rightarrow> string \<Rightarrow> session_db \<Rightarrow> (session_error + nat) \<times> session_db" where
  "delete_messages_after sid mid db =
    (case resolve_session_internal_id sid db of Inl e \<Rightarrow> (Inl e, db) | Inr i \<Rightarrow>
     case resolve_message_internal_id mid db of Inl e \<Rightarrow> (Inl e, db) | Inr m \<Rightarrow>
     let gone = (\<lambda>r. mr_session_id r = i \<and> m \<le> mr_id r);
         ids = set (map mr_id (filter gone (db_messages db)))
     in (Inr (length (filter gone (db_messages db))),
         db\<lparr>db_parts := filter (\<lambda>p. pw_message_id p \<notin> ids) (db_parts db),
            db_messages := map (\<lambda>r. if mr_parent_message_id r \<in> Some ` ids then r\<lparr>mr_parent_message_id := None\<rparr> else r)
                             (filter (\<lambda>r. \<not> gone r) (db_messages db))\<rparr>))"

section \<open>The stack of revert states\<close>

text \<open>A time stamp that cannot be parsed becomes the current time.\<close>

definition row_to_revert_state :: "('f, 'b, 'e) store_codec \<Rightarrow> int \<Rightarrow> string \<Rightarrow> revert_row \<Rightarrow> revert_state" where
  "row_to_revert_state C now sid r =
    \<lparr>rs_public_id = rw_public_id r, rs_session_id = sid, rs_message_id = rw_message_id r,
     rs_snapshot_id = rw_snapshot_id r, rs_backend_id = rw_backend_id r,
     rs_created_at = (case cd_time_of C (rw_created_at r) of Some t \<Rightarrow> t | None \<Rightarrow> now)\<rparr>"

definition session_revert_rows :: "int \<Rightarrow> session_db \<Rightarrow> revert_row list" where
  "session_revert_rows i db = sort_key rw_id (filter (\<lambda>r. rw_session_id r = i) (db_reverts db))"

definition last_revert_row :: "int \<Rightarrow> session_db \<Rightarrow> revert_row option" where
  "last_revert_row i db = (case rev (session_revert_rows i db) of [] \<Rightarrow> None | r # _ \<Rightarrow> Some r)"

definition peek_revert_state ::
    "('f, 'b, 'e) store_codec \<Rightarrow> int \<Rightarrow> string \<Rightarrow> session_db \<Rightarrow> session_error + revert_state option" where
  "peek_revert_state C now sid db =
    (case resolve_session_internal_id sid db of Inl e \<Rightarrow> Inl e | Inr i \<Rightarrow>
     Inr (map_option (row_to_revert_state C now sid) (last_revert_row i db)))"

definition push_revert_state ::
    "('f, 'b, 'e) store_codec \<Rightarrow> int \<Rightarrow> string \<Rightarrow> revert_state \<Rightarrow> session_db \<Rightarrow> (session_error + unit) \<times> session_db" where
  "push_revert_state C now sid st db =
    (case resolve_session_internal_id sid db of Inl e \<Rightarrow> (Inl e, db) | Inr i \<Rightarrow>
     if rs_public_id st \<in> rw_public_id ` set (db_reverts db) then (Inl (unique_failed ''revert_states.public_id''), db)
     else (Inr (), db\<lparr>db_reverts := db_reverts db @
       [\<lparr>rw_id = next_row_id rw_id (db_reverts db), rw_public_id = rs_public_id st, rw_session_id = i,
         rw_message_id = rs_message_id st, rw_snapshot_id = rs_snapshot_id st, rw_backend_id = rs_backend_id st,
         rw_created_at = cd_time_to C now\<rparr>]\<rparr>))"

definition pop_revert_state ::
    "('f, 'b, 'e) store_codec \<Rightarrow> int \<Rightarrow> string \<Rightarrow> session_db \<Rightarrow> (session_error + revert_state option) \<times> session_db" where
  "pop_revert_state C now sid db =
    (case resolve_session_internal_id sid db of Inl e \<Rightarrow> (Inl e, db) | Inr i \<Rightarrow>
     case last_revert_row i db of
       None \<Rightarrow> (Inr None, db)
     | Some r \<Rightarrow> (Inr (Some (row_to_revert_state C now sid r)),
         db\<lparr>db_reverts := filter (\<lambda>q. rw_id q \<noteq> rw_id r) (db_reverts db)\<rparr>))"

definition list_revert_states ::
    "('f, 'b, 'e) store_codec \<Rightarrow> int \<Rightarrow> string \<Rightarrow> session_db \<Rightarrow> session_error + revert_state list" where
  "list_revert_states C now sid db =
    (case resolve_session_internal_id sid db of Inl e \<Rightarrow> Inl e | Inr i \<Rightarrow>
     Inr (map (row_to_revert_state C now sid) (session_revert_rows i db)))"

definition clear_revert_states :: "string \<Rightarrow> session_db \<Rightarrow> (session_error + unit) \<times> session_db" where
  "clear_revert_states sid db =
    (case resolve_session_internal_id sid db of Inl e \<Rightarrow> (Inl e, db) | Inr i \<Rightarrow>
     (Inr (), db\<lparr>db_reverts := filter (\<lambda>r. rw_session_id r \<noteq> i) (db_reverts db)\<rparr>))"

section \<open>The event journal\<close>

definition origin_str :: "event_origin \<Rightarrow> string" where
  "origin_str e = (case e of Origin_Local \<Rightarrow> ''local'' | Origin_Remote \<Rightarrow> ''remote'' | Origin_Unknown s \<Rightarrow> s)"

definition origin_of_str :: "string \<Rightarrow> event_origin" where
  "origin_of_str s = (if s = ''local'' then Origin_Local else if s = ''remote'' then Origin_Remote else Origin_Unknown s)"

definition event_kind_tag :: "('f, 'b, 'e) store_codec \<Rightarrow> 'e \<Rightarrow> string" where
  "event_kind_tag C k =
    (case Option.bind (Option.bind (cd_event_value C k) (\<lambda>v. json_get v ''type'')) json_as_str of
       Some t \<Rightarrow> t | None \<Rightarrow> ''unknown'')"

text \<open>The sequence number is taken before the row is written, outside of a transaction.\<close>

definition append_durable ::
    "('f, 'b, 'e) store_codec \<Rightarrow> string \<Rightarrow> int \<Rightarrow> 'e new_durable_event \<Rightarrow> session_db
     \<Rightarrow> (session_error + 'e durable_event) \<times> session_db" where
  "append_durable C uuid now ev db =
    (case cd_event_to C (ne_kind ev) of Inl e \<Rightarrow> (Inl (DatabaseError e), db) | Inr payload \<Rightarrow>
     let seq = db_next_seq db; db1 = db\<lparr>db_next_seq := seq + 1\<rparr> in
     if uuid \<in> jw_event_id ` set (db_journal db) then (Inl (unique_failed ''event_journal.event_id''), db1)
     else if seq \<in> jw_stream_seq ` set (db_journal db) then (Inl (unique_failed ''event_journal.stream_seq''), db1)
     else (Inr \<lparr>de_event_id = uuid, de_stream_seq = seq, de_session_id = ne_session_id ev, de_timestamp = now,
               de_origin = ne_origin ev, de_source_node = ne_source_node ev, de_kind = ne_kind ev\<rparr>,
           db1\<lparr>db_journal := db_journal db @ [\<lparr>jw_event_id = uuid, jw_stream_seq = seq,
               jw_session_id = ne_session_id ev, jw_timestamp = now, jw_origin = origin_str (ne_origin ev),
               jw_source_node = ne_source_node ev, jw_kind = event_kind_tag C (ne_kind ev), jw_payload_json = payload\<rparr>]\<rparr>))"

fun parse_journal_rows :: "('f, 'b, 'e) store_codec \<Rightarrow> journal_row list \<Rightarrow> session_error + 'e durable_event list" where
  "parse_journal_rows C [] = Inr []"
| "parse_journal_rows C (r # rs) =
    (case cd_event_of C (jw_payload_json r) of
       None \<Rightarrow> Inl (DatabaseError ''Query is not read-only'')
     | Some k \<Rightarrow> map_sum id (\<lambda>es. \<lparr>de_event_id = jw_event_id r, de_stream_seq = jw_stream_seq r,
          de_session_id = jw_session_id r, de_timestamp = jw_timestamp r, de_origin = origin_of_str (jw_origin r),
          de_source_node = jw_source_node r, de_kind = k\<rparr> # es) (parse_journal_rows C rs))"

text \<open>\<^verbatim>\<open>LIMIT\<close> with the default of 10,000 rows; a negative limit is none.\<close>

definition sql_limit :: "usize option \<Rightarrow> 'a list \<Rightarrow> 'a list" where
  "sql_limit limit xs =
    (let lim = (case limit of Some l \<Rightarrow> sint l | None \<Rightarrow> 10000) in if lim < 0 then xs else take (nat lim) xs)"

definition load_session_stream ::
    "('f, 'b, 'e) store_codec \<Rightarrow> string \<Rightarrow> int option \<Rightarrow> usize option \<Rightarrow> session_db \<Rightarrow> session_error + 'e durable_event list" where
  "load_session_stream C sid after limit db =
    parse_journal_rows C (sql_limit limit (sort_key jw_stream_seq
      (filter (\<lambda>r. jw_session_id r = sid \<and> (case after of Some a \<Rightarrow> a | None \<Rightarrow> 0) < jw_stream_seq r) (db_journal db))))"

definition load_global_stream ::
    "('f, 'b, 'e) store_codec \<Rightarrow> int option \<Rightarrow> usize option \<Rightarrow> session_db \<Rightarrow> session_error + 'e durable_event list" where
  "load_global_stream C after limit db =
    parse_journal_rows C (sql_limit limit (sort_key jw_stream_seq
      (filter (\<lambda>r. (case after of Some a \<Rightarrow> a | None \<Rightarrow> 0) < jw_stream_seq r) (db_journal db))))"

definition delete_session_events_from :: "string \<Rightarrow> int \<Rightarrow> session_db \<Rightarrow> nat \<times> session_db" where
  "delete_session_events_from sid seq db =
    (let gone = (\<lambda>r. jw_session_id r = sid \<and> seq \<le> jw_stream_seq r)
     in (length (filter gone (db_journal db)), db\<lparr>db_journal := filter (\<lambda>r. \<not> gone r) (db_journal db)\<rparr>))"

section \<open>Well-formed tables\<close>

definition tables_ok :: "session_db \<Rightarrow> bool" where
  "tables_ok db \<longleftrightarrow>
     distinct (map sw_id (db_sessions db)) \<and> distinct (map sw_public_id (db_sessions db)) \<and>
     sorted_wrt (<) (map mr_id (db_messages db)) \<and> distinct (map mr_public_id (db_messages db)) \<and>
     mr_session_id ` set (db_messages db) \<subseteq> sw_id ` set (db_sessions db) \<and>
     (\<forall>r\<in>set (db_messages db). \<forall>p. mr_parent_message_id r = Some p \<longrightarrow> p \<in> mr_id ` set (db_messages db)) \<and>
     pw_message_id ` set (db_parts db) \<subseteq> mr_id ` set (db_messages db) \<and>
     sorted_wrt (<) (map rw_id (db_reverts db))"

lemma fold_max_le: "(\<forall>x\<in>set xs. x \<le> fold max xs a) \<and> a \<le> fold max xs (a::int)"
  by (induction xs arbitrary: a) (simp, fastforce)

lemma next_row_id_gt [simp]: "r \<in> set rows \<Longrightarrow> key r < next_row_id key rows"
  using fold_max_le[of "map key rows" 0] by (fastforce simp: next_row_id_def)

lemma insort_key_snoc: "f y \<le> f x \<Longrightarrow> insort_key f y (ys @ [x]) = insort_key f y ys @ [x]"
  by (induction ys) auto

lemma sort_key_snoc: "\<forall>y\<in>set ys. f y \<le> f x \<Longrightarrow> sort_key f (ys @ [x]) = sort_key f ys @ [x]"
  by (induction ys) (auto simp: insort_key_snoc)

lemma sort_key_filter: "filter P (sort_key f xs) = sort_key f (filter P xs)"
  by (rule filter_sort)

lemma sorted_map_sort_key: "sorted (map f xs) \<Longrightarrow> sort_key f xs = xs"
  by (rule sort_key_id_if_sorted)

lemma distinct_if_sorted_lt: "sorted_wrt (<) (xs :: 'a::linorder list) \<Longrightarrow> distinct xs"
  by (simp add: strict_sorted_iff)

lemma decode_parts_ok:
  "\<forall>p\<in>set ps. \<not> isl (cd_part_of C (pw_content_json p)) \<Longrightarrow>
     decode_parts C ps = Inr (map (\<lambda>p. (pw_message_id p, projr (cd_part_of C (pw_content_json p)))) ps)"
  by (induction ps) (auto split: sum.splits)

lemma decode_parts_bad:
  "\<not> (\<forall>p\<in>set ps. \<not> isl (cd_part_of C (pw_content_json p))) \<Longrightarrow> isl (decode_parts C ps)"
proof (induction ps)
  case (Cons p ps)
  then show ?case
    by (cases "cd_part_of C (pw_content_json p)"; cases "decode_parts C ps") (simp_all, blast?)
qed simp

lemma encode_parts_Inr:
  "encode_parts C mid n ps = Inr rs \<Longrightarrow>
     map pw_message_id rs = replicate (length ps) mid
     \<and> map pw_sort_order rs = map index_as_i32 [n..<n + length ps]
     \<and> list_all2 (\<lambda>p r. cd_part_to C p = Inr (pw_content_json r)) ps rs"
  by (induction ps arbitrary: n rs)
    (auto split: sum.splits simp: map_sum_def upt_conv_Cons simp del: upt_Suc)

lemma as_i32_small: "n < 2 ^ 31 \<Longrightarrow> index_as_i32 n = int n"
  unfolding index_as_i32_def by (subst mod_pos_pos_trivial) auto

section \<open>Histories\<close>

text \<open>The message a row stands for, read from the tables directly.\<close>

definition stored_parts :: "('f, 'b, 'e) store_codec \<Rightarrow> int \<Rightarrow> session_db \<Rightarrow> ('f, 'b) message_part list" where
  "stored_parts C mid db = map (\<lambda>p. projr (cd_part_of C (pw_content_json p)))
     (sort_key pw_sort_order (filter (\<lambda>p. pw_message_id p = mid) (db_parts db)))"

definition stored_message ::
    "('f, 'b, 'e) store_codec \<Rightarrow> string \<Rightarrow> (int \<rightharpoonup> string) \<Rightarrow> session_db \<Rightarrow> message_row \<Rightarrow> ('f, 'b) agent_message" where
  "stored_message C sid id_map db r =
    \<lparr>am_id = mr_public_id r, am_session_id = sid, am_role = role_of_str (mr_role r),
     am_parts = stored_parts C (mr_id r) db, am_created_at = mr_created_at r,
     am_parent_message_id = Option.bind (mr_parent_message_id r) id_map,
     am_source_provider = mr_source_provider r, am_source_model = mr_source_model r\<rparr>"

definition parts_decodable :: "('f, 'b, 'e) store_codec \<Rightarrow> int \<Rightarrow> session_db \<Rightarrow> bool" where
  "parts_decodable C i db \<longleftrightarrow> (\<forall>p\<in>set (db_parts db). \<forall>r\<in>set (db_messages db).
     mr_session_id r = i \<and> mr_id r = pw_message_id p \<longrightarrow> \<not> isl (cd_part_of C (pw_content_json p)))"

lemma parts_decodableD:
  "parts_decodable C i db \<Longrightarrow> p \<in> set (db_parts db) \<Longrightarrow> r \<in> set (db_messages db) \<Longrightarrow> mr_session_id r = i
     \<Longrightarrow> mr_id r = pw_message_id p \<Longrightarrow> \<not> isl (cd_part_of C (pw_content_json p))"
  by (auto simp: parts_decodable_def)

definition id_map_of :: "int \<Rightarrow> session_db \<Rightarrow> int \<rightharpoonup> string" where
  "id_map_of i db = map_of (map (\<lambda>r. (mr_id r, mr_public_id r)) (session_message_rows i db))"

lemma set_session_message_rows [simp]:
  "set (session_message_rows i db) = {r \<in> set (db_messages db). mr_session_id r = i}"
  by (auto simp: session_message_rows_def)

lemma db_ok_ids: "tables_ok db \<Longrightarrow> distinct (map mr_id (db_messages db))"
  by (simp add: tables_ok_def distinct_if_sorted_lt)

lemma db_ok_parts: "tables_ok db \<Longrightarrow> p \<in> set (db_parts db) \<Longrightarrow> pw_message_id p \<in> mr_id ` set (db_messages db)"
  by (auto simp: tables_ok_def)

lemma db_ok_sess: "tables_ok db \<Longrightarrow> r \<in> set (db_messages db) \<Longrightarrow> mr_session_id r \<in> sw_id ` set (db_sessions db)"
  by (auto simp: tables_ok_def)

lemma distinct_session_rows:
  "tables_ok db \<Longrightarrow> distinct (map mr_id (session_message_rows i db)) \<and> distinct (map mr_public_id (session_message_rows i db))"
  using db_ok_ids[of db]
  by (auto simp: session_message_rows_def tables_ok_def distinct_map inj_on_def)

lemma id_map_of_eq:
  assumes "tables_ok db"
  shows "id_map_of i db j = Some p \<longleftrightarrow> (\<exists>r\<in>set (db_messages db). mr_session_id r = i \<and> mr_id r = j \<and> mr_public_id r = p)"
proof -
  have "distinct (map fst (map (\<lambda>r. (mr_id r, mr_public_id r)) (session_message_rows i db)))"
    using distinct_session_rows[OF assms, of i] by (simp add: comp_def)
  from map_of_eq_Some_iff[OF this] show ?thesis by (auto simp: id_map_of_def image_iff)
qed

lemma parts_of_message:
  assumes "tables_ok db" "r \<in> set (db_messages db)" "mr_session_id r = i"
  shows "filter (\<lambda>p. id_map_of i db (pw_message_id p) = Some (mr_public_id r)) (session_part_rows i db)
    = sort_key pw_sort_order (filter (\<lambda>p. pw_message_id p = mr_id r) (db_parts db))"
proof -
  have pub: "\<And>r'. r' \<in> set (db_messages db) \<Longrightarrow> mr_public_id r' = mr_public_id r \<Longrightarrow> r' = r"
    using assms by (auto simp: tables_ok_def distinct_map inj_on_def)
  have "id_map_of i db j = Some (mr_public_id r) \<longleftrightarrow> j = mr_id r" for j
    using assms pub by (auto simp: id_map_of_eq)
  then have "filter (\<lambda>p. id_map_of i db (pw_message_id p) = Some (mr_public_id r)) (session_part_rows i db)
      = sort_key pw_sort_order (filter (\<lambda>p. pw_message_id p = mr_id r \<and> pw_message_id p \<in>
          set (map mr_id (filter (\<lambda>r. mr_session_id r = i) (db_messages db)))) (db_parts db))"
    by (simp add: session_part_rows_def sort_key_filter conj_commute)
  also have "filter (\<lambda>p. pw_message_id p = mr_id r \<and> pw_message_id p \<in>
          set (map mr_id (filter (\<lambda>r. mr_session_id r = i) (db_messages db)))) (db_parts db)
      = filter (\<lambda>p. pw_message_id p = mr_id r) (db_parts db)"
    using assms by (intro filter_cong) auto
  finally show ?thesis .
qed

lemma get_history_eq:
  assumes "tables_ok db" "resolve_session_internal_id sid db = Inr i"
  shows "get_history C sid db = Inr h \<longleftrightarrow> parts_decodable C i db
    \<and> h = map (stored_message C sid (id_map_of i db) db) (session_message_rows i db)"
proof -
  have dec: "(\<forall>p\<in>set (session_part_rows i db). \<not> isl (cd_part_of C (pw_content_json p))) = parts_decodable C i db"
    unfolding session_part_rows_def parts_decodable_def by (simp add: image_iff) metis
  have row: "row_to_message sid (id_map_of i db)
        (map (\<lambda>p. (pw_message_id p, projr (cd_part_of C (pw_content_json p)))) (session_part_rows i db)) r
      = stored_message C sid (id_map_of i db) db r" if "r \<in> set (session_message_rows i db)" for r
    using that parts_of_message[OF assms(1), of r i]
    by (simp add: row_to_message_def stored_message_def stored_parts_def filter_map comp_def case_prod_unfold
        split: option.splits)
  have ex: "get_history C sid db = map_sum id (\<lambda>parts. map (row_to_message sid (id_map_of i db) parts)
      (session_message_rows i db)) (decode_parts C (session_part_rows i db))"
    using assms(2) by (simp add: get_history_def Let_def id_map_of_def)
  show ?thesis
  proof (cases "parts_decodable C i db")
    case True
    then have "decode_parts C (session_part_rows i db) = Inr (map (\<lambda>p. (pw_message_id p,
        projr (cd_part_of C (pw_content_json p)))) (session_part_rows i db))"
      using dec by (intro decode_parts_ok) simp
    with True row show ?thesis unfolding ex by auto
  next
    case False
    then have "isl (decode_parts C (session_part_rows i db))" using dec by (intro decode_parts_bad) simp
    with False show ?thesis unfolding ex by (auto simp: isl_def)
  qed
qed

section \<open>What adding a message does\<close>

lemma add_message_Inr:
  assumes "store_add_message C now sid m db = (Inr (), db')"
  obtains i parent prs row where
    "resolve_session_internal_id sid db = Inr i" "resolve_parent (am_parent_message_id m) db = Inr parent"
    "am_id m \<notin> mr_public_id ` set (db_messages db)"
    "encode_parts C (next_row_id mr_id (db_messages db)) 0 (am_parts m) = Inr prs"
    "row = \<lparr>mr_id = next_row_id mr_id (db_messages db), mr_public_id = am_id m, mr_session_id = i,
       mr_role = role_str (am_role m), mr_created_at = am_created_at m, mr_parent_message_id = parent,
       mr_source_provider = am_source_provider m, mr_source_model = am_source_model m\<rparr>"
    "db' = db\<lparr>db_messages := db_messages db @ [row], db_parts := db_parts db @ prs,
       db_sessions := map (\<lambda>s. if sw_id s = i then s\<lparr>sw_updated_at := cd_time_to C now\<rparr> else s) (db_sessions db)\<rparr>"
  using assms by (auto simp: store_add_message_def Let_def split: sum.splits if_splits)

lemma find_key_map_of:
  "(case List.find (\<lambda>r. key r = k) rows of Some r \<Rightarrow> f (val r) | None \<Rightarrow> d)
     = (case map_of (map (\<lambda>r. (key r, val r)) rows) k of Some v \<Rightarrow> f v | None \<Rightarrow> d)"
  by (induction rows) auto

lemma resolve_same_ids:
  "map (\<lambda>s. (sw_public_id s, sw_id s)) (db_sessions db') = map (\<lambda>s. (sw_public_id s, sw_id s)) (db_sessions db)
     \<Longrightarrow> resolve_session_internal_id sid db' = resolve_session_internal_id sid db"
proof -
  have "resolve_session_internal_id sid d
      = (case map_of (map (\<lambda>s. (sw_public_id s, sw_id s)) (db_sessions d)) sid of
           Some i \<Rightarrow> Inr i | None \<Rightarrow> Inl (SessionNotFound sid))" for d
    unfolding resolve_session_internal_id_def find_key_map_of by (simp split: option.splits)
  then show "map (\<lambda>s. (sw_public_id s, sw_id s)) (db_sessions db') = map (\<lambda>s. (sw_public_id s, sw_id s)) (db_sessions db)
     \<Longrightarrow> resolve_session_internal_id sid db' = resolve_session_internal_id sid db" by simp
qed

lemma resolve_in:
  "resolve_session_internal_id sid db = Inr i \<Longrightarrow> \<exists>s\<in>set (db_sessions db). sw_public_id s = sid \<and> sw_id s = i"
  by (auto simp: resolve_session_internal_id_def find_Some_iff split: option.splits)

lemma resolve_message_in:
  "resolve_message_internal_id mid db = Inr i \<Longrightarrow> \<exists>r\<in>set (db_messages db). mr_public_id r = mid \<and> mr_id r = i"
  by (auto simp: resolve_message_internal_id_def find_Some_iff split: option.splits)

lemma resolve_parent_in:
  "resolve_parent mp db = Inr parent \<Longrightarrow>
     (case parent of None \<Rightarrow> mp = None | Some p \<Rightarrow> \<exists>r\<in>set (db_messages db). mr_id r = p \<and> mp = Some (mr_public_id r))"
  by (auto simp: resolve_parent_def resolve_message_internal_id_def find_Some_iff map_sum_def
      split: option.splits sum.splits)

text \<open>Rows appended to the messages and parts under a new identifier leave the stored messages alone.\<close>

lemma stored_parts_append:
  "mid \<notin> pw_message_id ` set prs \<Longrightarrow> db_parts db' = db_parts db @ prs \<Longrightarrow> stored_parts C mid db' = stored_parts C mid db"
  by (simp add: stored_parts_def) (metis (mono_tags, lifting) append_Nil2 filter_False image_eqI)

lemma db_ok_append:
  assumes "tables_ok db" "map sw_id (db_sessions db') = map sw_id (db_sessions db)"
    "map sw_public_id (db_sessions db') = map sw_public_id (db_sessions db)"
    "db_messages db' = db_messages db @ [row]" "db_parts db' = db_parts db @ prs" "db_reverts db' = db_reverts db"
    "pw_message_id ` set prs \<subseteq> {mr_id row}" "mr_id row = next_row_id mr_id (db_messages db)"
    "mr_public_id row \<notin> mr_public_id ` set (db_messages db)" "mr_session_id row \<in> sw_id ` set (db_sessions db)"
    "\<forall>p. mr_parent_message_id row = Some p \<longrightarrow> p \<in> mr_id ` set (db_messages db)"
  shows "tables_ok db'"
proof -
  have img: "sw_id ` set (db_sessions db') = sw_id ` set (db_sessions db)"
    using assms(2) by (metis list.set_map)
  show ?thesis
    using assms(1,7,8,9,10,11) unfolding tables_ok_def assms(2-6) img by (auto simp: sorted_wrt_append)
qed

lemma encoded_message_ids: "encode_parts C mid n ps = Inr prs \<Longrightarrow> pw_message_id ` set prs \<subseteq> {mid}"
  using encode_parts_Inr[of C mid n ps prs] by (metis list.set_map set_replicate_conv_if empty_subsetI subset_refl)

lemma db_ok_add:
  assumes "tables_ok db" "store_add_message C now sid m db = (Inr (), db')"
  shows "tables_ok db'"
  using assms(2)
proof (rule add_message_Inr)
  fix i parent prs row
  assume r: "resolve_parent (am_parent_message_id m) db = Inr parent"
  assume a: "resolve_session_internal_id sid db = Inr i" "am_id m \<notin> mr_public_id ` set (db_messages db)"
    "encode_parts C (next_row_id mr_id (db_messages db)) 0 (am_parts m) = Inr prs"
    "row = \<lparr>mr_id = next_row_id mr_id (db_messages db), mr_public_id = am_id m, mr_session_id = i,
       mr_role = role_str (am_role m), mr_created_at = am_created_at m, mr_parent_message_id = parent,
       mr_source_provider = am_source_provider m, mr_source_model = am_source_model m\<rparr>"
    "db' = db\<lparr>db_messages := db_messages db @ [row], db_parts := db_parts db @ prs,
       db_sessions := map (\<lambda>s. if sw_id s = i then s\<lparr>sw_updated_at := cd_time_to C now\<rparr> else s) (db_sessions db)\<rparr>"
  then show ?thesis
    using resolve_in[OF a(1)] encoded_message_ids[OF a(3)] resolve_parent_in[OF r]
    by (intro db_ok_append[OF assms(1)]) auto
qed

lemma session_rows_append:
  assumes "db_messages db' = db_messages db @ [row]" "\<forall>r\<in>set (session_message_rows i db). mr_created_at r \<le> mr_created_at row"
  shows "session_message_rows i db' = session_message_rows i db @ (if mr_session_id row = i then [row] else [])"
  using assms by (auto simp: session_message_rows_def intro!: sort_key_snoc)

lemma id_map_append:
  assumes "tables_ok db'" "tables_ok db" "db_messages db' = db_messages db @ [row]" "j \<noteq> mr_id row"
  shows "id_map_of i db' j = id_map_of i db j"
proof -
  have "id_map_of i db' j = Some p \<longleftrightarrow> id_map_of i db j = Some p" for p
    using assms by (auto simp: id_map_of_eq)
  then show ?thesis by (metis not_None_eq)
qed

text \<open>A message appended to the tables, seen from the histories.\<close>

lemma histories_append:
  assumes ok: "tables_ok db" "tables_ok db'" and res: "\<And>s. resolve_session_internal_id s db' = resolve_session_internal_id s db"
    and msgs: "db_messages db' = db_messages db @ [row]" and parts: "db_parts db' = db_parts db @ prs"
    and new: "mr_id row = next_row_id mr_id (db_messages db)" "pw_message_id ` set prs \<subseteq> {mr_id row}"
    and r: "resolve_session_internal_id s db = Inr j" and h: "get_history C s db = Inr h"
  shows "mr_session_id row \<noteq> j \<Longrightarrow> get_history C s db' = Inr h"
    and "mr_session_id row = j \<Longrightarrow> \<forall>p\<in>set prs. \<not> isl (cd_part_of C (pw_content_json p)) \<Longrightarrow>
      \<forall>x\<in>set h. am_created_at x \<le> mr_created_at row \<Longrightarrow>
      get_history C s db' = Inr (h @ [stored_message C s (id_map_of j db') db' row])"
proof -
  have fresh: "mr_id row \<notin> mr_id ` set (db_messages db)" using new(1) next_row_id_gt[of _ "db_messages db" mr_id] by fastforce
  have old: "stored_message C s (id_map_of j db') db' r = stored_message C s (id_map_of j db) db r"
    if "r \<in> set (db_messages db)" for r
  proof -
    have "Option.bind (mr_parent_message_id r) (id_map_of j db') = Option.bind (mr_parent_message_id r) (id_map_of j db)"
      using that ok(1) fresh by (cases "mr_parent_message_id r") (auto simp: tables_ok_def intro!: id_map_append[OF ok(2,1) msgs])
    moreover have "stored_parts C (mr_id r) db' = stored_parts C (mr_id r) db"
      using that new(2) fresh by (intro stored_parts_append[OF _ parts]) (metis imageI singletonD subsetD)
    ultimately show ?thesis by (simp add: stored_message_def)
  qed
  have newp: "p \<in> set prs \<Longrightarrow> pw_message_id p = mr_id row" for p using new(2) by blast
  have fresh': "r \<in> set (db_messages db) \<Longrightarrow> mr_id r \<noteq> mr_id row" for r using fresh by (metis imageI)
  have noold: "p \<in> set (db_parts db) \<Longrightarrow> pw_message_id p \<noteq> mr_id row" for p
    using db_ok_parts[OF ok(1)] fresh by metis
  have h': "h = map (stored_message C s (id_map_of j db) db) (session_message_rows j db)" "parts_decodable C j db"
    using get_history_eq[OF ok(1) r] h by auto
  have map: "map (stored_message C s (id_map_of j db') db') (session_message_rows j db) = h"
    unfolding h'(1) using old by auto
  have r': "resolve_session_internal_id s db' = Inr j" using res r by simp
  {
    assume "mr_session_id row \<noteq> j"
    moreover from this have "parts_decodable C j db'"
      using h'(2) newp fresh' unfolding parts_decodable_def msgs parts by auto
    moreover from calculation have "session_message_rows j db' = session_message_rows j db"
      by (simp add: session_message_rows_def msgs)
    ultimately show "get_history C s db' = Inr h" using get_history_eq[OF ok(2) r', of C] map by simp
  }
  {
    assume a: "mr_session_id row = j" "\<forall>p\<in>set prs. \<not> isl (cd_part_of C (pw_content_json p))"
      "\<forall>x\<in>set h. am_created_at x \<le> mr_created_at row"
    have "session_message_rows j db' = session_message_rows j db @ [row]"
      using a(1,3) h'(1) by (subst session_rows_append[OF msgs]) (auto simp: stored_message_def)
    moreover have "parts_decodable C j db'"
      using h'(2) a(2) unfolding parts_decodable_def msgs parts by (auto dest: noold noold[THEN not_sym])
    ultimately show "get_history C s db' = Inr (h @ [stored_message C s (id_map_of j db') db' row])"
      using get_history_eq[OF ok(2) r', of C] map by simp
  }
qed

lemma role_roundtrip [simp]: "role_of_str (role_str r) = r"
  by (cases r) (simp_all add: role_of_str_def role_str_def)

lemma stored_parts_new:
  assumes "tables_ok db" "encode_parts C mid 0 ps = Inr prs" "db_parts db' = db_parts db @ prs"
    "mid \<notin> mr_id ` set (db_messages db)" "length ps < 2 ^ 31"
    "\<forall>p\<in>set ps. \<forall>j. cd_part_to C p = Inr j \<longrightarrow> cd_part_of C j = Inr p"
  shows "stored_parts C mid db' = ps" "\<forall>p\<in>set prs. \<not> isl (cd_part_of C (pw_content_json p))"
proof -
  note e = encode_parts_Inr[OF assms(2)]
  have mid: "\<forall>p\<in>set prs. pw_message_id p = mid" using encoded_message_ids[OF assms(2)] by auto
  have "map pw_sort_order prs = map int [0..<length ps]"
    using e assms(5) by (auto intro!: as_i32_small)
  then have "sorted (map pw_sort_order prs)" by (simp add: sorted_map sorted_wrt_map)
  then have so: "sort_key pw_sort_order prs = prs" by (rule sort_key_id_if_sorted)
  have "filter (\<lambda>p. pw_message_id p = mid) (db_parts db) = []"
    using db_ok_parts[OF assms(1)] assms(4) by (metis (mono_tags, lifting) filter_False)
  moreover have "filter (\<lambda>p. pw_message_id p = mid) prs = prs" using mid by simp
  moreover have dec: "list_all2 (\<lambda>p r. cd_part_of C (pw_content_json r) = Inr p) ps prs"
    using e assms(6) by (auto simp: list_all2_conv_all_nth)
  moreover have "map (\<lambda>r. projr (cd_part_of C (pw_content_json r))) prs = ps"
    using dec by (induction rule: list_all2_induct) auto
  ultimately show "stored_parts C mid db' = ps" by (simp add: stored_parts_def assms(3) so)
  show "\<forall>p\<in>set prs. \<not> isl (cd_part_of C (pw_content_json p))"
    using dec by (auto simp: list_all2_conv_all_nth in_set_conv_nth)
qed

lemma add_message_resolve:
  "store_add_message C now sid m db = (Inr (), db') \<Longrightarrow> resolve_session_internal_id s db' = resolve_session_internal_id s db"
  by (erule add_message_Inr) (auto intro!: resolve_same_ids)

lemma add_message_stored:
  assumes "tables_ok db" "get_history C sid db = Inr h" "store_add_message C now sid m db = (Inr (), db')"
    "am_session_id m = sid" "length (am_parts m) < 2 ^ 31"
    "\<forall>p\<in>set (am_parts m). \<forall>j. cd_part_to C p = Inr j \<longrightarrow> cd_part_of C j = Inr p"
    "case am_parent_message_id m of None \<Rightarrow> True | Some p \<Rightarrow> p \<in> am_id ` set h"
    "\<forall>x\<in>set h. am_created_at x \<le> am_created_at m"
  shows "get_history C sid db' = Inr (h @ [m])"
  using assms(3)
proof (rule add_message_Inr)
  fix i parent prs row
  assume r: "resolve_session_internal_id sid db = Inr i" "resolve_parent (am_parent_message_id m) db = Inr parent"
  assume a: "am_id m \<notin> mr_public_id ` set (db_messages db)"
    "encode_parts C (next_row_id mr_id (db_messages db)) 0 (am_parts m) = Inr prs"
    "row = \<lparr>mr_id = next_row_id mr_id (db_messages db), mr_public_id = am_id m, mr_session_id = i,
       mr_role = role_str (am_role m), mr_created_at = am_created_at m, mr_parent_message_id = parent,
       mr_source_provider = am_source_provider m, mr_source_model = am_source_model m\<rparr>"
    "db' = db\<lparr>db_messages := db_messages db @ [row], db_parts := db_parts db @ prs,
       db_sessions := map (\<lambda>s. if sw_id s = i then s\<lparr>sw_updated_at := cd_time_to C now\<rparr> else s) (db_sessions db)\<rparr>"
  have ok': "tables_ok db'" by (rule db_ok_add[OF assms(1,3)])
  have fresh: "next_row_id mr_id (db_messages db) \<notin> mr_id ` set (db_messages db)"
    using next_row_id_gt[of _ "db_messages db" mr_id] by fastforce
  have db': "db_messages db' = db_messages db @ [row]" "db_parts db' = db_parts db @ prs" by (simp_all add: a(4))
  note parts = stored_parts_new[OF assms(1) a(2) db'(2) fresh assms(5,6)]
  have par: "Option.bind parent (id_map_of i db') = am_parent_message_id m"
  proof (cases parent)
    case (Some p)
    then obtain q where q: "q \<in> set (db_messages db)" "mr_id q = p" "am_parent_message_id m = Some (mr_public_id q)"
      using resolve_parent_in[OF r(2)] by auto
    then obtain x where "x \<in> set (db_messages db)" "mr_session_id x = i" "mr_public_id x = mr_public_id q"
      using assms(7) assms(2) get_history_eq[OF assms(1) r(1), of C h]
      by (auto simp: stored_message_def image_iff)
    then have "mr_session_id q = i" using assms(1) q by (auto simp: tables_ok_def distinct_map inj_on_def)
    then show ?thesis using Some q db'(1) by (auto simp: id_map_of_eq[OF ok'])
  qed (use resolve_parent_in[OF r(2)] in simp)
  have "stored_message C sid (id_map_of i db') db' row = m"
    using parts(1) par assms(4) by (simp add: stored_message_def a(3))
  moreover have "get_history C sid db' = Inr (h @ [stored_message C sid (id_map_of i db') db' row])"
    by (rule histories_append(2)[OF assms(1) ok' add_message_resolve[OF assms(3)] db' _ _ r(1) assms(2)])
      (use a(3) encoded_message_ids[OF a(2)] parts(2) assms(8) in auto)
  ultimately show ?thesis by simp
qed

lemma add_message_others:
  assumes "tables_ok db" "store_add_message C now sid m db = (Inr (), db')" "s \<noteq> sid" "get_history C s db = Inr h"
  shows "get_history C s db' = Inr h"
  using assms(2)
proof (rule add_message_Inr)
  fix i parent prs row
  assume r: "resolve_session_internal_id sid db = Inr i"
  assume a: "encode_parts C (next_row_id mr_id (db_messages db)) 0 (am_parts m) = Inr prs"
    "row = \<lparr>mr_id = next_row_id mr_id (db_messages db), mr_public_id = am_id m, mr_session_id = i,
       mr_role = role_str (am_role m), mr_created_at = am_created_at m, mr_parent_message_id = parent,
       mr_source_provider = am_source_provider m, mr_source_model = am_source_model m\<rparr>"
    "db' = db\<lparr>db_messages := db_messages db @ [row], db_parts := db_parts db @ prs,
       db_sessions := map (\<lambda>s. if sw_id s = i then s\<lparr>sw_updated_at := cd_time_to C now\<rparr> else s) (db_sessions db)\<rparr>"
  obtain j where j: "resolve_session_internal_id s db = Inr j"
    using assms(4) by (auto simp: get_history_def split: sum.splits)
  have "i \<noteq> j" using resolve_in[OF r] resolve_in[OF j] assms(1,3) by (auto simp: tables_ok_def distinct_map inj_on_def)
  then show ?thesis
    by (intro histories_append(1)[OF assms(1) db_ok_add[OF assms(1,2)] add_message_resolve[OF assms(2)] _ _ _ _ j assms(4)])
      (use a encoded_message_ids[OF a(1)] in auto)
qed

section \<open>What a fork copies\<close>

lemma insort_key_map: "insort_key f (g x) (map g xs) = map g (insort_key (\<lambda>y. f (g y)) x xs)"
  by (induction xs) auto

lemma sort_key_map: "sort_key f (map g xs) = map g (sort_key (\<lambda>y. f (g y)) xs)"
  by (induction xs) (auto simp: insort_key_map)

text \<open>The message that a fork stores for a message of its source.\<close>

definition forked_message :: "string \<Rightarrow> string \<Rightarrow> ('f, 'b) agent_message \<Rightarrow> ('f, 'b) agent_message" where
  "forked_message sid uuid m = m\<lparr>am_id := uuid, am_session_id := sid, am_parent_message_id := None\<rparr>"

lemma copy_message_ok:
  assumes ok: "tables_ok db" and c: "copy_message uuid j r db = Inr db'" and r: "r \<in> set (db_messages db)"
    and j: "resolve_session_internal_id s db = Inr j" and h: "get_history C s db = Inr h"
    and dec: "parts_decodable C (mr_session_id r) db" and late: "\<forall>x\<in>set h. am_created_at x \<le> mr_created_at r"
  shows "tables_ok db'" "db_sessions db' = db_sessions db" "db_journal db' = db_journal db" "db_next_seq db' = db_next_seq db"
    "set (db_messages db) \<subseteq> set (db_messages db')"
    "get_history C s db' = Inr (h @ [forked_message s uuid (stored_message C s' mp db r)])"
    "\<And>q. q \<in> set (db_messages db) \<Longrightarrow> stored_parts C (mr_id q) db' = stored_parts C (mr_id q) db"
    "\<And>t k. t \<noteq> s \<Longrightarrow> get_history C t db = Inr k \<Longrightarrow> get_history C t db' = Inr k"
    "\<And>i. i \<noteq> j \<Longrightarrow> parts_decodable C i db \<Longrightarrow> parts_decodable C i db'"
proof -
  define mid where "mid = next_row_id mr_id (db_messages db)"
  define row where "row = r\<lparr>mr_id := mid, mr_public_id := uuid, mr_session_id := j, mr_parent_message_id := None\<rparr>"
  define prs where "prs = map (\<lambda>p. p\<lparr>pw_message_id := mid\<rparr>) (filter (\<lambda>p. pw_message_id p = mr_id r) (db_parts db))"
  have db': "db_messages db' = db_messages db @ [row]" "db_parts db' = db_parts db @ prs" "db_sessions db' = db_sessions db"
      "db_reverts db' = db_reverts db" "db_journal db' = db_journal db" "db_next_seq db' = db_next_seq db"
      "uuid \<notin> mr_public_id ` set (db_messages db)"
    using c by (auto simp: copy_message_def Let_def row_def prs_def mid_def split: if_splits)
  have sess: "mr_session_id row \<in> sw_id ` set (db_sessions db)" using resolve_in[OF j] by (auto simp: row_def)
  have ids: "mr_id row = mid" "mr_id row = next_row_id mr_id (db_messages db)" "pw_message_id ` set prs \<subseteq> {mr_id row}"
    by (auto simp: row_def prs_def mid_def)
  have fresh: "q \<in> set (db_messages db) \<Longrightarrow> mr_id q \<noteq> mid" for q
    by (metis less_irrefl mid_def next_row_id_gt)
  show ok': "tables_ok db'"
    by (rule db_ok_append[OF ok _ _ db'(1,2,4) ids(3,2) _ sess]) (use db' in \<open>auto simp: row_def\<close>)
  show "db_sessions db' = db_sessions db" "db_journal db' = db_journal db" "db_next_seq db' = db_next_seq db"
    "set (db_messages db) \<subseteq> set (db_messages db')" using db' by auto
  have res: "resolve_session_internal_id t db' = resolve_session_internal_id t db" for t
    by (rule resolve_same_ids) (simp add: db')
  show sp: "stored_parts C (mr_id q) db' = stored_parts C (mr_id q) db" if "q \<in> set (db_messages db)" for q
    using fresh[OF that] by (intro stored_parts_append[OF _ db'(2)]) (auto simp: prs_def)
  have nop: "filter (\<lambda>p. pw_message_id p = mid) (db_parts db) = []"
    using db_ok_parts[OF ok] fresh by (fastforce simp: filter_empty_conv)
  have "stored_parts C mid db' = stored_parts C (mr_id r) db"
    by (simp add: stored_parts_def db'(2) nop prs_def filter_map comp_def sort_key_map)
  then have "stored_message C s (id_map_of j db') db' row = forked_message s uuid (stored_message C s' mp db r)"
    by (simp add: stored_message_def forked_message_def row_def)
  moreover have "get_history C s db' = Inr (h @ [stored_message C s (id_map_of j db') db' row])"
    using parts_decodableD[OF dec _ r] late
    by (intro histories_append(2)[OF ok ok' res db'(1,2) ids(2,3) j h]) (auto simp: row_def prs_def)
  ultimately show "get_history C s db' = Inr (h @ [forked_message s uuid (stored_message C s' mp db r)])" by simp
  show "get_history C t db' = Inr k" if ts: "t \<noteq> s" and tk: "get_history C t db = Inr k" for t k
  proof -
    obtain i where i: "resolve_session_internal_id t db = Inr i"
      using tk by (auto simp: get_history_def split: sum.splits)
    have "i \<noteq> j" using resolve_in[OF i] resolve_in[OF j] ok ts by (auto simp: tables_ok_def distinct_map inj_on_def)
    then show ?thesis
      by (intro histories_append(1)[OF ok ok' res db'(1,2) ids(2,3) i tk]) (simp add: row_def)
  qed
  show "parts_decodable C i db'" if "i \<noteq> j" "parts_decodable C i db" for i
    using that fresh unfolding parts_decodable_def db' by (auto simp: row_def prs_def)
qed

lemma copy_messages_ok:
  assumes "tables_ok db" "copy_messages uuids n j msgs db = Inr db'" "set msgs \<subseteq> set (db_messages db)"
    "\<forall>r\<in>set msgs. mr_session_id r = i" "i \<noteq> j" "parts_decodable C i db"
    "resolve_session_internal_id s db = Inr j" "get_history C s db = Inr h"
    "\<forall>x\<in>set h. \<forall>r\<in>set msgs. am_created_at x \<le> mr_created_at r" "sorted (map mr_created_at msgs)"
  shows "tables_ok db' \<and> db_sessions db' = db_sessions db \<and> db_journal db' = db_journal db \<and> db_next_seq db' = db_next_seq db
    \<and> get_history C s db' = Inr (h @ map (\<lambda>(k, r). forked_message s (uuids k) (stored_message C s' mp db r))
        (List.enumerate n msgs))
    \<and> (\<forall>t k. t \<noteq> s \<and> get_history C t db = Inr k \<longrightarrow> get_history C t db' = Inr k)"
  using assms
proof (induction msgs arbitrary: n db h)
  case (Cons r msgs)
  then obtain d where d: "copy_message (uuids n) j r db = Inr d" "copy_messages uuids (Suc n) j msgs d = Inr db'"
    by (auto split: sum.splits)
  have r: "r \<in> set (db_messages db)" "parts_decodable C (mr_session_id r) db"
      "\<forall>x\<in>set h. am_created_at x \<le> mr_created_at r" using Cons.prems by auto
  note c = copy_message_ok[OF Cons.prems(1) d(1) r(1) Cons.prems(7,8) r(2,3)]
  have same: "stored_message C s' mp d q = stored_message C s' mp db q" if "q \<in> set msgs" for q
  proof -
    have "q \<in> set (db_messages db)" using that Cons.prems(3) by auto
    from c(7)[OF this] show ?thesis by (simp add: stored_message_def)
  qed
  have res: "resolve_session_internal_id s d = Inr j" using Cons.prems(7) c(2) by (simp add: resolve_session_internal_id_def)
  have late: "\<forall>x\<in>set (h @ [forked_message s (uuids n) (stored_message C s' mp db r)]). \<forall>r\<in>set msgs.
      am_created_at x \<le> mr_created_at r"
    using Cons.prems(9,10) by (auto simp: forked_message_def stored_message_def)
  have "tables_ok db' \<and> db_sessions db' = db_sessions d \<and> db_journal db' = db_journal d \<and> db_next_seq db' = db_next_seq d
    \<and> get_history C s db' = Inr ((h @ [forked_message s (uuids n) (stored_message C s' mp db r)])
        @ map (\<lambda>(k, r). forked_message s (uuids k) (stored_message C s' mp d r)) (List.enumerate (Suc n) msgs))
    \<and> (\<forall>t k. t \<noteq> s \<and> get_history C t d = Inr k \<longrightarrow> get_history C t db' = Inr k)"
    by (rule Cons.IH[OF c(1) d(2) _ _ Cons.prems(5) c(9)[OF Cons.prems(5,6)] res c(6)[of s' mp] late])
      (use Cons.prems c(5) in auto)
  moreover have "map (\<lambda>(k, r). forked_message s (uuids k) (stored_message C s' mp d r)) (List.enumerate (Suc n) msgs)
      = map (\<lambda>(k, r). forked_message s (uuids k) (stored_message C s' mp db r)) (List.enumerate (Suc n) msgs)"
    using same by (auto simp: in_set_enumerate_eq)
  ultimately show ?case using c(2-4,8) by auto
qed (auto simp: id_def)

lemma copy_events_ok:
  assumes "copy_events uuids n sid evs db = Inr db'"
  shows "db_sessions db' = db_sessions db \<and> db_messages db' = db_messages db \<and> db_parts db' = db_parts db
    \<and> db_reverts db' = db_reverts db"
  using assms by (induction evs arbitrary: n db) (auto simp: copy_event_def split: sum.splits if_splits)

lemma get_history_cong:
  "db_sessions db' = db_sessions db \<Longrightarrow> db_messages db' = db_messages db \<Longrightarrow> db_parts db' = db_parts db
     \<Longrightarrow> get_history C s db' = get_history C s db"
  unfolding get_history_def resolve_session_internal_id_def session_message_rows_def session_part_rows_def
  by (auto split: option.splits)

lemma take_through_map: "take_through P (map g xs) = map g (take_through (\<lambda>x. P (g x)) xs)"
  by (induction xs) auto

lemma take_through_subset: "set (take_through P xs) \<subseteq> set xs"
  by (induction xs) auto

lemma take_through_sorted: "sorted (map f xs) \<Longrightarrow> sorted (map f (take_through P xs))"
  using take_through_subset[of P] by (induction xs) auto

lemma take_through_cong: "(\<And>x. x \<in> set xs \<Longrightarrow> P x = Q x) \<Longrightarrow> take_through P xs = take_through Q xs"
  by (induction xs) auto

lemma find_append_case: "List.find P (xs @ ys) = (case List.find P xs of Some x \<Rightarrow> Some x | None \<Rightarrow> List.find P ys)"
  by (induction xs) auto

lemma enumerate_map: "List.enumerate n (map g xs) = map (\<lambda>(k, x). (k, g x)) (List.enumerate n xs)"
  by (induction xs arbitrary: n) auto

text \<open>A session appended to the tables has an empty history.\<close>

lemma new_session:
  assumes ok: "tables_ok db" and new: "sw_id w = next_row_id sw_id (db_sessions db)" "sw_public_id w \<notin> sw_public_id ` set (db_sessions db)"
  defines "db1 \<equiv> db\<lparr>db_sessions := db_sessions db @ [w]\<rparr>"
  shows "tables_ok db1" "resolve_session_internal_id (sw_public_id w) db1 = Inr (sw_id w)"
    "get_history C (sw_public_id w) db1 = Inr []"
    "get_history C t db = Inr k \<Longrightarrow> get_history C t db1 = Inr k"
    "resolve_session_internal_id t db = Inr i \<Longrightarrow> i \<noteq> sw_id w \<and> t \<noteq> sw_public_id w"
proof -
  have fresh: "sw_id w \<notin> sw_id ` set (db_sessions db)"
    using new(1) next_row_id_gt[of _ "db_sessions db" sw_id] by fastforce
  show ok1: "tables_ok db1" using ok fresh new(2) unfolding tables_ok_def db1_def by auto
  have "List.find (\<lambda>r. sw_public_id r = sw_public_id w) (db_sessions db) = None"
    using new(2) by (metis (mono_tags, lifting) find_None_iff imageI)
  then show r1: "resolve_session_internal_id (sw_public_id w) db1 = Inr (sw_id w)"
    by (simp add: resolve_session_internal_id_def db1_def find_append_case split: option.splits)
  have "filter (\<lambda>r. mr_session_id r = sw_id w) (db_messages db) = []"
    using db_ok_sess[OF ok] fresh by (metis (mono_tags, lifting) filter_False)
  then show "get_history C (sw_public_id w) db1 = Inr []"
    using r1 by (simp add: get_history_def session_message_rows_def session_part_rows_def db1_def)
  show "get_history C t db1 = Inr k" if h: "get_history C t db = Inr k"
  proof -
    obtain i where i: "resolve_session_internal_id t db = Inr i"
      using h by (auto simp: get_history_def split: sum.splits)
    then have "resolve_session_internal_id t db1 = Inr i"
      by (auto simp: resolve_session_internal_id_def db1_def find_append_case split: option.splits)
    with h i show ?thesis
      unfolding get_history_def session_message_rows_def session_part_rows_def by (simp add: db1_def)
  qed
  show "i \<noteq> sw_id w \<and> t \<noteq> sw_public_id w" if "resolve_session_internal_id t db = Inr i"
    using resolve_in[OF that] fresh new(2) by (metis imageI)
qed

lemma fork_session_Inr:
  assumes "fork_session C now uuids sid mid origin db = (Inr new, db')"
  obtains src target d evs n where
    "resolve_session_internal_id sid db = Inr src" "resolve_message_internal_id mid db = Inr target"
    "new = uuids 0" "new \<notin> sw_public_id ` set (db_sessions db)"
    "copy_messages uuids 1 (next_row_id sw_id (db_sessions db)) (messages_to_copy src target db)
       (db\<lparr>db_sessions := db_sessions db @ [fork_session_row C now new (next_row_id sw_id (db_sessions db)) src target origin db]\<rparr>)
       = Inr d"
    "copy_events uuids n new evs d = Inr db'"
  using assms by (auto simp: fork_session_def Let_def split: sum.splits if_splits)

lemma messages_to_copy_history:
  assumes ok: "tables_ok db" and ord: "sorted (map mr_created_at (db_messages db))"
    and src: "resolve_session_internal_id sid db = Inr src" and h: "get_history C sid db = Inr h"
    and target: "resolve_message_internal_id mid db = Inr target"
  shows "map (stored_message C sid (id_map_of src db) db) (messages_to_copy src target db)
      = take_through (\<lambda>m. am_id m = mid) h"
    and "sorted (map mr_created_at (messages_to_copy src target db))"
proof -
  let ?rows = "filter (\<lambda>r. mr_session_id r = src) (db_messages db)"
  have so: "sorted (map mr_created_at ?rows)" using ord by (rule sorted_filter)
  have "sorted (map mr_id (db_messages db))" using ok by (auto simp: tables_ok_def strict_sorted_iff)
  then have "sort_key mr_id ?rows = ?rows" by (intro sort_key_id_if_sorted sorted_filter)
  then have copy: "messages_to_copy src target db = take_through (\<lambda>r. mr_id r = target) ?rows"
    by (simp add: messages_to_copy_def)
  show "sorted (map mr_created_at (messages_to_copy src target db))"
    unfolding copy by (rule take_through_sorted[OF so])
  obtain q where q: "q \<in> set (db_messages db)" "mr_public_id q = mid" "mr_id q = target"
    using resolve_message_in[OF target] by auto
  have same: "(mr_id r = target) = (mr_public_id r = mid)" if "r \<in> set ?rows" for r
    using that q ok db_ok_ids[OF ok] by (auto simp: tables_ok_def distinct_map inj_on_def)
  have "h = map (stored_message C sid (id_map_of src db) db) ?rows"
    using get_history_eq[OF ok src, of C h] h sort_key_id_if_sorted[OF so] by (simp add: session_message_rows_def)
  then show "map (stored_message C sid (id_map_of src db) db) (messages_to_copy src target db)
      = take_through (\<lambda>m. am_id m = mid) h"
    unfolding copy using take_through_cong[of ?rows, OF same] by (simp add: take_through_map stored_message_def)
qed

lemma fork_history:
  assumes ok: "tables_ok db" and ord: "sorted (map mr_created_at (db_messages db))" and h: "get_history C sid db = Inr h"
    and fork: "fork_session C now uuids sid mid origin db = (Inr new, db')"
  shows "get_history C new db' = Inr (map (\<lambda>(k, m). forked_message new (uuids k) m)
       (List.enumerate 1 (take_through (\<lambda>m. am_id m = mid) h)))"
    "\<And>t k. t \<noteq> new \<Longrightarrow> get_history C t db = Inr k \<Longrightarrow> get_history C t db' = Inr k"
proof -
  obtain src target d evs n where f: "resolve_session_internal_id sid db = Inr src"
      "resolve_message_internal_id mid db = Inr target" "new = uuids 0" "new \<notin> sw_public_id ` set (db_sessions db)"
    "copy_messages uuids 1 (next_row_id sw_id (db_sessions db)) (messages_to_copy src target db)
       (db\<lparr>db_sessions := db_sessions db @ [fork_session_row C now new (next_row_id sw_id (db_sessions db)) src target origin db]\<rparr>)
       = Inr d"
    "copy_events uuids n new evs d = Inr db'"
    by (rule fork_session_Inr[OF fork])
  define w where "w = fork_session_row C now new (next_row_id sw_id (db_sessions db)) src target origin db"
  define db1 where "db1 = db\<lparr>db_sessions := db_sessions db @ [w]\<rparr>"
  have w: "sw_id w = next_row_id sw_id (db_sessions db)" "sw_public_id w = new" "sw_public_id w \<notin> sw_public_id ` set (db_sessions db)"
    using f(4) by (auto simp: w_def fork_session_row_def Let_def)
  note n = new_session[OF ok w(1,3), folded db1_def, unfolded w(2)]
  note m = messages_to_copy_history[OF ok ord f(1) h f(2)]
  have dec: "parts_decodable C src db1"
    using get_history_eq[OF ok f(1), of C h] h by (simp add: parts_decodable_def db1_def)
  have sub: "set (messages_to_copy src target db) \<subseteq> {r \<in> set (db_messages db). mr_session_id r = src}"
    unfolding messages_to_copy_def by (rule order_trans[OF take_through_subset]) auto
  have st: "stored_message C sid (id_map_of src db) db1 r = stored_message C sid (id_map_of src db) db r" for r
    by (simp add: stored_message_def stored_parts_def db1_def)
  have c: "get_history C new d = Inr ([] @ map (\<lambda>(k, r). forked_message new (uuids k)
        (stored_message C sid (id_map_of src db) db1 r)) (List.enumerate 1 (messages_to_copy src target db)))
    \<and> (\<forall>t k. t \<noteq> new \<and> get_history C t db1 = Inr k \<longrightarrow> get_history C t d = Inr k)"
    using copy_messages_ok[OF n(1) f(5)[folded w_def db1_def, folded w(1)] _ _ _ dec n(2) n(3) _ m(2)] sub n(5)[OF f(1)] w(1)
    by (auto simp: db1_def)
  have e: "get_history C t db' = get_history C t d" for t
    using copy_events_ok[OF f(6)] by (intro get_history_cong) auto
  show "get_history C new db' = Inr (map (\<lambda>(k, m). forked_message new (uuids k) m)
       (List.enumerate 1 (take_through (\<lambda>m. am_id m = mid) h)))"
    using c e st by (simp add: m(1)[symmetric] enumerate_map comp_def case_prod_unfold)
  show "get_history C t db' = Inr k" if "t \<noteq> new" "get_history C t db = Inr k" for t k
    using c e n(4)[OF that(2)] that(1) by simp
qed

section \<open>The revert states as a stack\<close>

text \<open>What a client of the revert states relies on: one stack per session, whose frames are the message undone
  to and the snapshot taken before.\<close>

locale revert_stack =
  fixes ok :: "'d \<Rightarrow> bool" and stack :: "string \<Rightarrow> 'd \<Rightarrow> (string \<times> string) list"
    and push :: "string \<Rightarrow> revert_state \<Rightarrow> 'd \<Rightarrow> (session_error + unit) \<times> 'd"
    and peek :: "string \<Rightarrow> 'd \<Rightarrow> session_error + revert_state option"
    and pop :: "string \<Rightarrow> 'd \<Rightarrow> (session_error + revert_state option) \<times> 'd"
  assumes push_ok: "ok d \<Longrightarrow> push s st d = (Inr (), d') \<Longrightarrow> ok d' \<and> stack s d' = stack s d @ [(rs_message_id st, rs_snapshot_id st)]"
    and push_other: "ok d \<Longrightarrow> push s st d = (r, d') \<Longrightarrow> t \<noteq> s \<Longrightarrow> stack t d' = stack t d"
    and peek_ok: "ok d \<Longrightarrow> peek s d = Inr f \<Longrightarrow>
      map_option (\<lambda>st. (rs_message_id st, rs_snapshot_id st)) f = (if stack s d = [] then None else Some (last (stack s d)))"
    and pop_ok: "ok d \<Longrightarrow> pop s d = (Inr f, d') \<Longrightarrow> peek s d = Inr f \<and> ok d' \<and> stack s d' = butlast (stack s d)"
    and pop_other: "ok d \<Longrightarrow> pop s d = (q, d') \<Longrightarrow> t \<noteq> s \<Longrightarrow> stack t d' = stack t d"
begin

lemma pop_push:
  assumes "ok d" "push s st d = (Inr (), d1)" "pop s d1 = (Inr f, d2)"
  shows "ok d2 \<and> stack t d2 = stack t d
    \<and> (\<exists>st'. f = Some st' \<and> rs_message_id st' = rs_message_id st \<and> rs_snapshot_id st' = rs_snapshot_id st)"
proof -
  have 1: "ok d1" "stack s d1 = stack s d @ [(rs_message_id st, rs_snapshot_id st)]"
    using push_ok[OF assms(1,2)] by auto
  have 2: "peek s d1 = Inr f" "ok d2" "stack s d2 = butlast (stack s d1)" using pop_ok[OF 1(1) assms(3)] by auto
  have "stack t d2 = stack t d"
    using 1(2) 2(3) pop_other[OF 1(1) assms(3)] push_other[OF assms(1,2)] by (cases "t = s") auto
  moreover have "map_option (\<lambda>st. (rs_message_id st, rs_snapshot_id st)) f = Some (rs_message_id st, rs_snapshot_id st)"
    using peek_ok[OF 1(1) 2(1)] 1(2) by simp
  ultimately show ?thesis using 2(2) by auto
qed

end

definition revert_frames :: "string \<Rightarrow> session_db \<Rightarrow> (string \<times> string) list" where
  "revert_frames sid db = (case resolve_session_internal_id sid db of Inl _ \<Rightarrow> []
     | Inr i \<Rightarrow> map (\<lambda>r. (rw_message_id r, rw_snapshot_id r)) (session_revert_rows i db))"

lemma session_revert_rows_eq: "tables_ok db \<Longrightarrow> session_revert_rows i db = filter (\<lambda>r. rw_session_id r = i) (db_reverts db)"
  unfolding session_revert_rows_def
  by (rule sort_key_id_if_sorted, rule sorted_filter) (simp add: tables_ok_def strict_sorted_iff)

lemma resolve_distinct:
  assumes "tables_ok db" "resolve_session_internal_id s db = Inr i" "resolve_session_internal_id t db = Inr i"
  shows "s = t"
  using resolve_in[OF assms(2)] resolve_in[OF assms(3)] assms(1) by (auto simp: tables_ok_def distinct_map inj_on_def)

lemma resolve_reverts [simp]:
  "resolve_session_internal_id s (db\<lparr>db_reverts := rs\<rparr>) = resolve_session_internal_id s db"
  by (simp add: resolve_session_internal_id_def)

lemma db_ok_set_reverts: "tables_ok db \<Longrightarrow> sorted_wrt (<) (map rw_id rs) \<Longrightarrow> tables_ok (db\<lparr>db_reverts := rs\<rparr>)"
  by (auto simp: tables_ok_def)

lemma db_ok_revert_ids: "tables_ok db \<Longrightarrow> sorted_wrt (<) (map rw_id (db_reverts db))"
  by (simp add: tables_ok_def)

lemma rev_eq_Cons_last: "(case rev xs of [] \<Rightarrow> None | r # _ \<Rightarrow> Some r) = (if xs = [] then None else Some (last xs))"
  by (cases xs rule: rev_cases) auto

lemma filter_butlast_id:
  fixes key :: "'a \<Rightarrow> int"
  assumes "sorted_wrt (<) (map key xs)" "filter P xs \<noteq> []" "z = last (filter P xs)"
  shows "filter P (filter (\<lambda>q. key q \<noteq> key z) xs) = butlast (filter P xs)"
proof -
  obtain ys where ys: "filter P xs = ys @ [z]" using assms(2,3) by (metis append_butlast_last_id)
  have "sorted_wrt (<) (map key (ys @ [z]))" unfolding ys[symmetric] using assms(1)
    by (metis sorted_wrt_filter sorted_wrt_map)
  then have "\<forall>q\<in>set ys. key q \<noteq> key z" by (fastforce simp: sorted_wrt_append)
  then have "filter (\<lambda>q. key q \<noteq> key z) (ys @ [z]) = ys" by simp
  then have "filter (\<lambda>q. key q \<noteq> key z) (filter P xs) = butlast (filter P xs)" by (simp add: ys)
  then show ?thesis by (simp add: conj_commute)
qed

lemma push_revert_frames:
  assumes "tables_ok db" "push_revert_state C now s st db = (r, db')"
  shows "tables_ok db'" "t \<noteq> s \<Longrightarrow> revert_frames t db' = revert_frames t db"
    "r = Inr () \<Longrightarrow> revert_frames s db' = revert_frames s db @ [(rs_message_id st, rs_snapshot_id st)]"
    "db' = db\<lparr>db_reverts := db_reverts db'\<rparr>"
proof -
  have n: "\<forall>x\<in>set (db_reverts db). rw_id x < next_row_id rw_id (db_reverts db)" by simp
  show ok': "tables_ok db'"
    using assms db_ok_revert_ids[OF assms(1)] n
    by (auto simp: push_revert_state_def sorted_wrt_append intro!: db_ok_set_reverts split: sum.splits if_splits)
  show "t \<noteq> s \<Longrightarrow> revert_frames t db' = revert_frames t db"
    using assms(2) resolve_distinct[OF assms(1), of s _ t]
    by (auto simp: push_revert_state_def revert_frames_def session_revert_rows_eq[OF assms(1)] session_revert_rows_eq[OF ok']
        split: sum.splits if_splits)
  show "r = Inr () \<Longrightarrow> revert_frames s db' = revert_frames s db @ [(rs_message_id st, rs_snapshot_id st)]"
    using assms(2)
    by (auto simp: push_revert_state_def revert_frames_def session_revert_rows_eq[OF assms(1)] session_revert_rows_eq[OF ok']
        split: sum.splits if_splits)
  show "db' = db\<lparr>db_reverts := db_reverts db'\<rparr>"
    using assms(2) by (auto simp: push_revert_state_def split: sum.splits if_splits)
qed

lemma peek_revert_frames:
  assumes "tables_ok db" "peek_revert_state C now s db = Inr f"
  shows "map_option (\<lambda>st. (rs_message_id st, rs_snapshot_id st)) f
    = (if revert_frames s db = [] then None else Some (last (revert_frames s db)))"
  using assms(2)
  by (auto simp: peek_revert_state_def last_revert_row_def rev_eq_Cons_last revert_frames_def last_map
      row_to_revert_state_def split: sum.splits if_splits)

lemma pop_revert_state_eq:
  "pop_revert_state C now s db = (case resolve_session_internal_id s db of Inl e \<Rightarrow> (Inl e, db) | Inr i \<Rightarrow>
     if session_revert_rows i db = [] then (Inr None, db)
     else (Inr (Some (row_to_revert_state C now s (last (session_revert_rows i db)))),
       db\<lparr>db_reverts := filter (\<lambda>q. rw_id q \<noteq> rw_id (last (session_revert_rows i db))) (db_reverts db)\<rparr>))"
  by (simp add: pop_revert_state_def last_revert_row_def rev_eq_Cons_last split: sum.splits)

lemma pop_revert_frames:
  assumes "tables_ok db" "pop_revert_state C now s db = (r, db')"
  shows "tables_ok db'" "t \<noteq> s \<Longrightarrow> revert_frames t db' = revert_frames t db"
    "r = Inr f \<Longrightarrow> peek_revert_state C now s db = Inr f \<and> revert_frames s db' = butlast (revert_frames s db)"
    "db' = db\<lparr>db_reverts := db_reverts db'\<rparr>"
proof -
  have "sorted_wrt (<) (map rw_id (filter P (db_reverts db)))" for P
    using assms(1) unfolding tables_ok_def by (metis sorted_wrt_filter sorted_wrt_map)
  then show ok': "tables_ok db'"
    using assms
    by (auto simp: pop_revert_state_def intro!: db_ok_set_reverts split: sum.splits option.splits)
  show "db' = db\<lparr>db_reverts := db_reverts db'\<rparr>"
    using assms(2) by (auto simp: pop_revert_state_def split: sum.splits option.splits)
  consider e where "resolve_session_internal_id s db = Inl e" "db' = db" "r = Inl e"
    | i where "resolve_session_internal_id s db = Inr i" "session_revert_rows i db = []" "db' = db" "r = Inr None"
    | i where "resolve_session_internal_id s db = Inr i" "session_revert_rows i db \<noteq> []"
        "db' = db\<lparr>db_reverts := filter (\<lambda>q. rw_id q \<noteq> rw_id (last (session_revert_rows i db))) (db_reverts db)\<rparr>"
        "r = Inr (Some (row_to_revert_state C now s (last (session_revert_rows i db))))"
    using assms(2) unfolding pop_revert_state_eq
    by (cases "resolve_session_internal_id s db") (simp_all split: if_splits)
  then have "(t \<noteq> s \<longrightarrow> revert_frames t db' = revert_frames t db) \<and>
    (r = Inr f \<longrightarrow> peek_revert_state C now s db = Inr f \<and> revert_frames s db' = butlast (revert_frames s db))"
  proof (cases)
    case (3 i)
    define z where "z = last (session_revert_rows i db)"
    have rows: "session_revert_rows j db' = filter (\<lambda>r. rw_session_id r = j) (filter (\<lambda>q. rw_id q \<noteq> rw_id z) (db_reverts db))" for j
      unfolding session_revert_rows_eq[OF ok'] using 3(3) by (simp add: z_def)
    have z: "z \<in> set (db_reverts db)" "rw_session_id z = i"
      using last_in_set[OF 3(2)] by (auto simp: z_def session_revert_rows_def)
    have so: "sorted_wrt (<) (map rw_id (db_reverts db))" using assms(1) by (simp add: tables_ok_def)
    have same: "session_revert_rows i db' = butlast (session_revert_rows i db)"
      using 3(2) unfolding rows session_revert_rows_eq[OF assms(1)]
      by (intro filter_butlast_id[OF so]) (auto simp: z_def session_revert_rows_eq[OF assms(1)])
    have "r = Inr f \<longrightarrow> peek_revert_state C now s db = Inr f \<and> revert_frames s db' = butlast (revert_frames s db)"
      using 3 same by (auto simp: peek_revert_state_def last_revert_row_def rev_eq_Cons_last revert_frames_def map_butlast)
    moreover have rest: "session_revert_rows j db' = session_revert_rows j db" if "j \<noteq> i" for j
    proof -
      have "q \<in> set (db_reverts db) \<Longrightarrow> rw_id q = rw_id z \<Longrightarrow> q = z" for q
        using so z by (auto simp: strict_sorted_iff distinct_map inj_on_def)
      then show ?thesis
        using that z unfolding rows session_revert_rows_eq[OF assms(1)] filter_filter by (intro filter_cong) auto
    qed
    have "t \<noteq> s \<longrightarrow> revert_frames t db' = revert_frames t db"
    proof (cases "resolve_session_internal_id t db")
      case (Inr j)
      then have "t \<noteq> s \<longrightarrow> j \<noteq> i" using resolve_distinct[OF assms(1) 3(1), of t] by auto
      moreover have "resolve_session_internal_id t db' = Inr j" using Inr 3(3) by simp
      ultimately show ?thesis using Inr rest by (auto simp: revert_frames_def)
    qed (use 3(3) in \<open>auto simp: revert_frames_def\<close>)
    ultimately show ?thesis by blast
  qed (auto simp: peek_revert_state_def last_revert_row_def revert_frames_def)
  then show "t \<noteq> s \<Longrightarrow> revert_frames t db' = revert_frames t db"
    "r = Inr f \<Longrightarrow> peek_revert_state C now s db = Inr f \<and> revert_frames s db' = butlast (revert_frames s db)"
    by blast+
qed

interpretation rs: revert_stack tables_ok revert_frames "push_revert_state C now" "peek_revert_state C now'" "pop_revert_state C now'"
  for C now now'
proof (unfold_locales, goal_cases)
  case 1 then show ?case by (metis push_revert_frames(1,3))
next
  case 2 then show ?case by (metis push_revert_frames(2))
next
  case 3 then show ?case by (rule peek_revert_frames)
next
  case 4 then show ?case by (metis pop_revert_frames(1,3))
next
  case 5 then show ?case by (metis pop_revert_frames(2))
qed

section \<open>What deleting messages does\<close>

text \<open>A parent that is deleted is forgotten (\<^verbatim>\<open>ON DELETE SET NULL\<close>).\<close>

definition forget_parents :: "string set \<Rightarrow> ('f, 'b) agent_message \<Rightarrow> ('f, 'b) agent_message" where
  "forget_parents D m = (if am_parent_message_id m \<in> Some ` D then m\<lparr>am_parent_message_id := None\<rparr> else m)"

definition unlink :: "int set \<Rightarrow> message_row \<Rightarrow> message_row" where
  "unlink ids r = (if mr_parent_message_id r \<in> Some ` ids then r\<lparr>mr_parent_message_id := None\<rparr> else r)"

lemma unlink_simps [simp]:
  "mr_id (unlink ids r) = mr_id r" "mr_public_id (unlink ids r) = mr_public_id r" "mr_session_id (unlink ids r) = mr_session_id r"
  "mr_created_at (unlink ids r) = mr_created_at r" "mr_role (unlink ids r) = mr_role r"
  "mr_source_provider (unlink ids r) = mr_source_provider r" "mr_source_model (unlink ids r) = mr_source_model r"
  "mr_parent_message_id (unlink ids r) = (if mr_parent_message_id r \<in> Some ` ids then None else mr_parent_message_id r)"
  by (simp_all add: unlink_def)

lemma unlink_keys [simp]:
  "mr_id \<circ> unlink ids = mr_id" "mr_public_id \<circ> unlink ids = mr_public_id" "mr_session_id \<circ> unlink ids = mr_session_id"
  "mr_created_at \<circ> unlink ids = mr_created_at"
  by (auto simp: fun_eq_iff)

lemma Some_in_image [simp]: "Some x \<in> Some ` A \<longleftrightarrow> x \<in> A"
  by auto

lemma sorted_wrt_split:
  fixes f :: "'a \<Rightarrow> 'b::linorder"
  shows "sorted_wrt (<) (map f xs) \<Longrightarrow> k < length xs \<Longrightarrow>
    filter (\<lambda>x. \<not> f (xs ! k) \<le> f x) xs = take k xs \<and> filter (\<lambda>x. f (xs ! k) \<le> f x) xs = drop k xs"
proof (induction xs arbitrary: k)
  case (Cons x xs)
  have "\<forall>y\<in>set xs. f x < f y" using Cons.prems(1) by auto
  then show ?case using Cons.IH[of "k - 1"] Cons.prems
    by (cases k) (auto simp: less_imp_le not_le dest: nth_mem intro!: filter_True filter_False)
qed simp

text \<open>The tables without some messages, and the messages of a session that are lost.\<close>

definition without_messages :: "int set \<Rightarrow> session_db \<Rightarrow> session_db" where
  "without_messages ids db = db\<lparr>db_parts := filter (\<lambda>p. pw_message_id p \<notin> ids) (db_parts db),
     db_messages := map (unlink ids) (filter (\<lambda>r. mr_id r \<notin> ids) (db_messages db))\<rparr>"

definition lost_messages :: "int set \<Rightarrow> int \<Rightarrow> session_db \<Rightarrow> string set" where
  "lost_messages ids i db = mr_public_id ` {r \<in> set (db_messages db). mr_session_id r = i \<and> mr_id r \<in> ids}"

lemma without_messages_simps [simp]:
  "db_sessions (without_messages ids db) = db_sessions db" "db_reverts (without_messages ids db) = db_reverts db"
  "db_messages (without_messages ids db) = map (unlink ids) (filter (\<lambda>r. mr_id r \<notin> ids) (db_messages db))"
  "db_parts (without_messages ids db) = filter (\<lambda>p. pw_message_id p \<notin> ids) (db_parts db)"
  "resolve_session_internal_id s (without_messages ids db) = resolve_session_internal_id s db"
  by (simp_all add: without_messages_def resolve_session_internal_id_def)

lemma db_ok_without:
  assumes ok: "tables_ok db"
  shows "tables_ok (without_messages ids db)"
proof -
  let ?keep = "filter (\<lambda>r. mr_id r \<notin> ids) (db_messages db)"
  have kept: "j \<in> mr_id ` set ?keep" if "j \<in> mr_id ` set (db_messages db)" "j \<notin> ids" for j using that by auto
  have "sorted_wrt (<) (map mr_id ?keep)" using ok unfolding tables_ok_def by (metis sorted_wrt_filter sorted_wrt_map)
  moreover have "distinct (map mr_public_id ?keep)" using ok by (simp add: tables_ok_def distinct_map_filter)
  moreover have "p \<in> mr_id ` set ?keep" if "r \<in> set (db_messages db)" "mr_parent_message_id r = Some p" "p \<notin> ids" for r p
    using ok that by (intro kept) (auto simp: tables_ok_def)
  moreover have "pw_message_id p \<in> mr_id ` set ?keep" if "p \<in> set (db_parts db)" "pw_message_id p \<notin> ids" for p
    using db_ok_parts[OF ok that(1)] that(2) by (rule kept)
  ultimately show ?thesis using ok by (auto simp: tables_ok_def image_image image_subset_iff split: if_splits)
qed

lemma without_parent:
  assumes ok: "tables_ok db"
  shows "Option.bind (mr_parent_message_id (unlink ids r)) (id_map_of i (without_messages ids db))
    = (let p = Option.bind (mr_parent_message_id r) (id_map_of i db) in if p \<in> Some ` lost_messages ids i db then None else p)"
proof (cases "mr_parent_message_id r")
  case (Some p)
  note eq = id_map_of_eq[OF ok] id_map_of_eq[OF db_ok_without[OF ok]]
  have "id_map_of i (without_messages ids db) p = Some y \<longleftrightarrow> id_map_of i db p = Some y" if "p \<notin> ids" for y
    unfolding eq using that by auto
  then have idm: "id_map_of i (without_messages ids db) p = id_map_of i db p" if "p \<notin> ids" using that by (metis not_Some_eq)
  have pub: "g \<in> set (db_messages db) \<Longrightarrow> g' \<in> set (db_messages db) \<Longrightarrow> mr_public_id g = mr_public_id g' \<Longrightarrow> g = g'" for g g'
    using ok by (auto simp: tables_ok_def distinct_map inj_on_def)
  have lost: "id_map_of i db p \<in> Some ` lost_messages ids i db \<longleftrightarrow> id_map_of i db p \<noteq> None \<and> p \<in> ids"
  proof (cases "id_map_of i db p")
    case s: (Some y)
    then obtain g where g: "g \<in> set (db_messages db)" "mr_session_id g = i" "mr_id g = p" "mr_public_id g = y"
      unfolding eq by auto
    then show ?thesis using s pub by (auto simp: lost_messages_def)
  qed auto
  show ?thesis using Some idm lost by (auto simp: Let_def)
qed simp

lemma without_history:
  assumes ok: "tables_ok db" and ord: "sorted (map mr_created_at (db_messages db))" and h: "get_history C s db = Inr h"
    and i: "resolve_session_internal_id s db = Inr i"
  shows "get_history C s (without_messages ids db)
    = Inr (map (forget_parents (lost_messages ids i db)) (filter (\<lambda>m. am_id m \<notin> lost_messages ids i db) h))"
proof -
  let ?db = "without_messages ids db"
  let ?rows = "filter (\<lambda>r. mr_session_id r = i) (db_messages db)"
  have so: "sorted (map mr_created_at (filter P (db_messages db)))" for P using ord by (rule sorted_filter)
  have rows: "session_message_rows i db = ?rows" unfolding session_message_rows_def by (rule sort_key_id_if_sorted[OF so])
  have rows': "session_message_rows i ?db = map (unlink ids) (filter (\<lambda>r. mr_id r \<notin> ids) ?rows)"
    unfolding session_message_rows_def
    by (simp add: filter_map comp_def sort_key_map sort_key_id_if_sorted[OF so] conj_commute)
  have hist: "h = map (stored_message C s (id_map_of i db) db) ?rows" "parts_decodable C i db"
    using get_history_eq[OF ok i, of C h] h rows by auto
  have pub: "g \<in> set (db_messages db) \<Longrightarrow> g' \<in> set (db_messages db) \<Longrightarrow> mr_public_id g = mr_public_id g' \<Longrightarrow> g = g'" for g g'
    using ok by (auto simp: tables_ok_def distinct_map inj_on_def)
  have lost: "mr_public_id r \<in> lost_messages ids i db \<longleftrightarrow> mr_id r \<in> ids" if "r \<in> set ?rows" for r
    using that pub by (auto simp: lost_messages_def)
  have parts: "stored_parts C (mr_id r) ?db = stored_parts C (mr_id r) db" if "mr_id r \<notin> ids" for r
  proof -
    have "filter (\<lambda>p. pw_message_id p \<notin> ids \<and> pw_message_id p = mr_id r) (db_parts db)
        = filter (\<lambda>p. pw_message_id p = mr_id r) (db_parts db)"
      using that by (intro filter_cong) auto
    then show ?thesis by (simp add: stored_parts_def)
  qed
  have "stored_message C s (id_map_of i ?db) ?db (unlink ids r)
      = forget_parents (lost_messages ids i db) (stored_message C s (id_map_of i db) db r)" if "mr_id r \<notin> ids" for r
    using parts[OF that] without_parent[OF ok, of ids r i]
    by (simp add: stored_message_def forget_parents_def Let_def)
  then have "map (stored_message C s (id_map_of i ?db) ?db) (session_message_rows i ?db)
      = map (forget_parents (lost_messages ids i db)) (map (stored_message C s (id_map_of i db) db) (filter (\<lambda>r. mr_id r \<notin> ids) ?rows))"
    unfolding rows' by simp
  also have "map (stored_message C s (id_map_of i db) db) (filter (\<lambda>r. mr_id r \<notin> ids) ?rows)
      = filter (\<lambda>m. am_id m \<notin> lost_messages ids i db) h"
    unfolding hist(1) filter_map comp_def
    using lost by (intro arg_cong[where f = "map _"] filter_cong[OF refl]) (simp add: stored_message_def)
  finally have m: "map (stored_message C s (id_map_of i ?db) ?db) (session_message_rows i ?db)
      = map (forget_parents (lost_messages ids i db)) (filter (\<lambda>m. am_id m \<notin> lost_messages ids i db) h)" .
  have "parts_decodable C i ?db" using hist(2) by (auto simp: parts_decodable_def)
  then show ?thesis using get_history_eq[OF db_ok_without[OF ok], of s ids i C] i m by simp
qed

lemma delete_messages_Inr:
  assumes ok: "tables_ok db" and "delete_messages_after sid mid db = (Inr n, db')"
  obtains i m ids where "resolve_session_internal_id sid db = Inr i" "resolve_message_internal_id mid db = Inr m"
    "ids = mr_id ` {r \<in> set (db_messages db). mr_session_id r = i \<and> m \<le> mr_id r}"
    "n = length (filter (\<lambda>r. mr_session_id r = i \<and> m \<le> mr_id r) (db_messages db))" "db' = without_messages ids db"
proof -
  obtain i m where e: "resolve_session_internal_id sid db = Inr i" "resolve_message_internal_id mid db = Inr m"
    using assms(2) by (auto simp: delete_messages_after_def split: sum.splits)
  define ids where "ids = mr_id ` {r \<in> set (db_messages db). mr_session_id r = i \<and> m \<le> mr_id r}"
  have "mr_id r \<in> ids \<longleftrightarrow> mr_session_id r = i \<and> m \<le> mr_id r" if "r \<in> set (db_messages db)" for r
    using that db_ok_ids[OF ok] by (auto simp: ids_def distinct_map inj_on_def)
  then have "filter (\<lambda>r. \<not> (mr_session_id r = i \<and> m \<le> mr_id r)) (db_messages db) = filter (\<lambda>r. mr_id r \<notin> ids) (db_messages db)"
    by (intro filter_cong) auto
  then show ?thesis using that[OF e ids_def] assms(2) e
    by (simp add: delete_messages_after_def Let_def without_messages_def unlink_def[abs_def] ids_def)
qed

lemma delete_history:
  assumes ok: "tables_ok db" and ord: "sorted (map mr_created_at (db_messages db))" and h: "get_history C sid db = Inr h"
    and k: "k < length h" "am_id (h ! k) = mid" and d: "delete_messages_after sid mid db = (Inr n, db')"
  shows "get_history C sid db' = Inr (map (forget_parents (am_id ` set (drop k h))) (take k h))" "n = length h - k" "tables_ok db'"
    "t \<noteq> sid \<Longrightarrow> get_history C t db = Inr x \<Longrightarrow> get_history C t db' = Inr x"
proof -
  obtain i m ids where e: "resolve_session_internal_id sid db = Inr i" "resolve_message_internal_id mid db = Inr m"
    and ids: "ids = mr_id ` {r \<in> set (db_messages db). mr_session_id r = i \<and> m \<le> mr_id r}"
    and n: "n = length (filter (\<lambda>r. mr_session_id r = i \<and> m \<le> mr_id r) (db_messages db))"
    and db': "db' = without_messages ids db"
    by (rule delete_messages_Inr[OF ok d])
  show "tables_ok db'" unfolding db' by (rule db_ok_without[OF ok])
  have inj: "r \<in> set (db_messages db) \<Longrightarrow> r' \<in> set (db_messages db) \<Longrightarrow> mr_id r = mr_id r' \<Longrightarrow> r = r'" for r r'
    using db_ok_ids[OF ok] by (auto simp: distinct_map inj_on_def)
  let ?rows = "filter (\<lambda>r. mr_session_id r = i) (db_messages db)"
  have hist: "h = map (stored_message C sid (id_map_of i db) db) ?rows"
    using get_history_eq[OF ok e(1), of C h] h sort_key_id_if_sorted[OF sorted_filter[OF ord]] by (simp add: session_message_rows_def)
  have len: "k < length ?rows" using k(1) hist by simp
  have "mr_public_id (?rows ! k) = mid" using k(2) len by (simp add: hist stored_message_def)
  moreover obtain q where "q \<in> set (db_messages db)" "mr_public_id q = mid" "mr_id q = m" using resolve_message_in[OF e(2)] by auto
  moreover have "?rows ! k \<in> set (db_messages db)" using nth_mem[OF len] by simp
  ultimately have m: "mr_id (?rows ! k) = m" using ok by (auto simp: tables_ok_def distinct_map inj_on_def)
  have "sorted_wrt (<) (map mr_id ?rows)" using ok unfolding tables_ok_def by (metis sorted_wrt_filter sorted_wrt_map)
  from sorted_wrt_split[OF this len] have split: "filter (\<lambda>r. mr_session_id r = i \<and> m \<le> mr_id r) (db_messages db) = drop k ?rows"
    unfolding m by (simp add: conj_commute)
  have "lost_messages ids i db = mr_public_id ` set (filter (\<lambda>r. mr_session_id r = i \<and> m \<le> mr_id r) (db_messages db))"
    using inj by (auto simp: lost_messages_def ids)
  then have lost: "lost_messages ids i db = am_id ` set (drop k h)"
    unfolding split hist by (auto simp: drop_map stored_message_def image_image)
  show "n = length h - k" unfolding n split by (simp add: hist)
  have "distinct (map am_id h)" using ok by (simp add: hist stored_message_def comp_def tables_ok_def distinct_map_filter)
  then have "distinct (map am_id (take k h @ drop k h))" by simp
  then have "am_id ` set (take k h) \<inter> am_id ` set (drop k h) = {}" unfolding map_append distinct_append by simp
  then have "filter (\<lambda>m. am_id m \<notin> am_id ` set (drop k h)) (take k h @ drop k h) = take k h"
    unfolding filter_append by (auto simp: disjoint_iff filter_id_conv filter_empty_conv)
  then have "filter (\<lambda>m. am_id m \<notin> am_id ` set (drop k h)) h = take k h" by simp
  then show "get_history C sid db' = Inr (map (forget_parents (am_id ` set (drop k h))) (take k h))"
    using without_history[OF ok ord h e(1), of ids] unfolding db' lost by simp
  assume t: "t \<noteq> sid" "get_history C t db = Inr x"
  then obtain j where j: "resolve_session_internal_id t db = Inr j" by (auto simp: get_history_def split: sum.splits)
  have "j \<noteq> i" using t(1) resolve_distinct[OF ok e(1)] j by auto
  then have "lost_messages ids j db = {}" using inj by (auto simp: lost_messages_def ids)
  then show "get_history C t db' = Inr x"
    using without_history[OF ok ord t(2) j, of ids] by (simp add: db' forget_parents_def[abs_def])
qed

section \<open>What the journal returns\<close>

definition journal_ok :: "session_db \<Rightarrow> bool" where
  "journal_ok db \<longleftrightarrow> sorted_wrt (<) (map jw_stream_seq (db_journal db)) \<and>
     (\<forall>r\<in>set (db_journal db). 0 < jw_stream_seq r \<and> jw_stream_seq r < db_next_seq db) \<and> 0 < db_next_seq db"

lemma parse_journal_rows_append:
  "parse_journal_rows C (xs @ ys) = (case parse_journal_rows C xs of Inl e \<Rightarrow> Inl e | Inr es \<Rightarrow> map_sum id ((@) es) (parse_journal_rows C ys))"
proof (induction xs)
  case Nil
  show ?case by (cases "parse_journal_rows C ys") auto
next
  case (Cons x xs)
  then show ?case by (cases "parse_journal_rows C ys") (auto split: option.splits sum.splits)
qed

lemma parse_journal_rows_length: "parse_journal_rows C rs = Inr es \<Longrightarrow> length es = length rs"
proof (induction rs arbitrary: es)
  case (Cons r rs)
  then show ?case by (cases "parse_journal_rows C rs") (auto split: option.splits)
qed simp

lemma load_all_eq:
  assumes "journal_ok db"
  shows "load_session_stream C sid None None db
    = parse_journal_rows C (take 10000 (filter (\<lambda>r. jw_session_id r = sid) (db_journal db)))"
proof -
  have "filter (\<lambda>r. jw_session_id r = sid \<and> 0 < jw_stream_seq r) (db_journal db) = filter (\<lambda>r. jw_session_id r = sid) (db_journal db)"
    using assms by (intro filter_cong) (auto simp: journal_ok_def)
  moreover have "sorted (map jw_stream_seq (filter (\<lambda>r. jw_session_id r = sid) (db_journal db)))"
    using assms by (intro sorted_filter) (simp add: journal_ok_def strict_sorted_iff)
  ultimately show ?thesis by (simp add: load_session_stream_def sql_limit_def sort_key_id_if_sorted)
qed

lemma append_durable_Inr:
  assumes "append_durable C uuid now ev db = (Inr d, db')"
  obtains payload where "cd_event_to C (ne_kind ev) = Inr payload"
    "d = \<lparr>de_event_id = uuid, de_stream_seq = db_next_seq db, de_session_id = ne_session_id ev, de_timestamp = now,
          de_origin = ne_origin ev, de_source_node = ne_source_node ev, de_kind = ne_kind ev\<rparr>"
    "db' = db\<lparr>db_next_seq := db_next_seq db + 1, db_journal := db_journal db @ [\<lparr>jw_event_id = uuid, jw_stream_seq = db_next_seq db,
          jw_session_id = ne_session_id ev, jw_timestamp = now, jw_origin = origin_str (ne_origin ev),
          jw_source_node = ne_source_node ev, jw_kind = event_kind_tag C (ne_kind ev), jw_payload_json = payload\<rparr>]\<rparr>"
  using assms by (auto simp: append_durable_def Let_def split: sum.splits if_splits)

section \<open>The operations that write\<close>

text \<open>One write of the store, whatever its outcome; the identifiers and times are any.\<close>

inductive store_step :: "('f, 'b, 'e) store_codec \<Rightarrow> session_db \<Rightarrow> session_db \<Rightarrow> bool" for C where
  step_add: "store_step C db (snd (store_add_message C now sid m db))"
| step_fork: "store_step C db (snd (fork_session C now uuids sid mid origin db))"
| step_delete: "store_step C db (snd (delete_messages_after sid mid db))"
| step_push: "store_step C db (snd (push_revert_state C now sid st db))"
| step_pop: "store_step C db (snd (pop_revert_state C now sid db))"
| step_clear: "store_step C db (snd (clear_revert_states sid db))"
| step_append: "store_step C db (snd (append_durable C uuid now ev db))"
| step_prune: "store_step C db (snd (delete_session_events_from sid seq db))"

lemma tables_ok_journal [simp]: "tables_ok (db\<lparr>db_journal := js\<rparr>) = tables_ok db" "tables_ok (db\<lparr>db_next_seq := n\<rparr>) = tables_ok db"
  by (simp_all add: tables_ok_def)

lemma journal_ok_cong: "db_journal db' = db_journal db \<Longrightarrow> db_next_seq db' = db_next_seq db \<Longrightarrow> journal_ok db' = journal_ok db"
  by (simp add: journal_ok_def)

lemma journal_ok_snoc:
  "journal_ok db \<Longrightarrow> jw_stream_seq r = db_next_seq db \<Longrightarrow> db_journal db' = db_journal db @ [r] \<Longrightarrow> db_next_seq db' = db_next_seq db + 1
     \<Longrightarrow> journal_ok db'"
  by (auto simp: journal_ok_def sorted_wrt_append)

lemma sorted_wrt_filter_map: "sorted_wrt P (map f xs) \<Longrightarrow> sorted_wrt P (map f (filter Q xs))"
  by (metis sorted_wrt_filter sorted_wrt_map)

lemma copy_message_tables:
  assumes ok: "tables_ok db" and c: "copy_message uuid j r db = Inr db'" and j: "j \<in> sw_id ` set (db_sessions db)"
  shows "tables_ok db' \<and> db_sessions db' = db_sessions db \<and> db_journal db' = db_journal db \<and> db_next_seq db' = db_next_seq db"
proof -
  define mid where "mid = next_row_id mr_id (db_messages db)"
  define row where "row = r\<lparr>mr_id := mid, mr_public_id := uuid, mr_session_id := j, mr_parent_message_id := None\<rparr>"
  define prs where "prs = map (\<lambda>p. p\<lparr>pw_message_id := mid\<rparr>) (filter (\<lambda>p. pw_message_id p = mr_id r) (db_parts db))"
  have db': "db_messages db' = db_messages db @ [row]" "db_parts db' = db_parts db @ prs" "db_sessions db' = db_sessions db"
      "db_reverts db' = db_reverts db" "db_journal db' = db_journal db" "db_next_seq db' = db_next_seq db"
      "uuid \<notin> mr_public_id ` set (db_messages db)"
    using c by (auto simp: copy_message_def Let_def row_def prs_def mid_def split: if_splits)
  have "tables_ok db'"
    by (rule db_ok_append[OF ok _ _ db'(1,2,4)]) (use db' j in \<open>auto simp: row_def prs_def mid_def\<close>)
  then show ?thesis using db' by simp
qed

lemma copy_messages_tables:
  "tables_ok db \<Longrightarrow> copy_messages uuids n j msgs db = Inr db' \<Longrightarrow> j \<in> sw_id ` set (db_sessions db) \<Longrightarrow>
     tables_ok db' \<and> db_journal db' = db_journal db \<and> db_next_seq db' = db_next_seq db"
proof (induction msgs arbitrary: n db)
  case (Cons r msgs)
  then obtain d where d: "copy_message (uuids n) j r db = Inr d" "copy_messages uuids (Suc n) j msgs d = Inr db'"
    by (auto split: sum.splits)
  note c = copy_message_tables[OF Cons.prems(1) d(1) Cons.prems(3)]
  show ?case using Cons.IH[OF _ d(2)] c Cons.prems(3) by simp
qed simp

lemma copy_events_ok_journal:
  "journal_ok db \<Longrightarrow> tables_ok db \<Longrightarrow> copy_events uuids n sid evs db = Inr db' \<Longrightarrow> journal_ok db' \<and> tables_ok db'"
proof (induction evs arbitrary: n db)
  case (Cons r evs)
  then obtain d where d: "copy_event (uuids n) sid r db = Inr d" "copy_events uuids (Suc n) sid evs d = Inr db'"
    by (auto split: sum.splits)
  have "journal_ok d" using d(1) by (intro journal_ok_snoc[OF Cons.prems(1)]) (auto simp: copy_event_def split: if_splits)
  moreover have "tables_ok d" using d(1) Cons.prems(2) by (auto simp: copy_event_def split: if_splits)
  ultimately show ?case by (rule Cons.IH[OF _ _ d(2)])
qed simp

lemma fork_keeps_ok:
  assumes "tables_ok db" "journal_ok db" "fork_session C now uuids sid mid origin db = (r, db')"
  shows "tables_ok db' \<and> journal_ok db'"
proof (cases r)
  case (Inl e)
  then have "db' = db" using assms(3) by (auto simp: fork_session_def Let_def split: sum.splits if_splits)
  then show ?thesis using assms by simp
next
  case (Inr new)
  have fork: "fork_session C now uuids sid mid origin db = (Inr new, db')" using assms(3) Inr by simp
  obtain src target d evs n where f: "resolve_session_internal_id sid db = Inr src"
      "resolve_message_internal_id mid db = Inr target" "new = uuids 0" "new \<notin> sw_public_id ` set (db_sessions db)"
    "copy_messages uuids 1 (next_row_id sw_id (db_sessions db)) (messages_to_copy src target db)
       (db\<lparr>db_sessions := db_sessions db @ [fork_session_row C now new (next_row_id sw_id (db_sessions db)) src target origin db]\<rparr>)
       = Inr d"
    "copy_events uuids n new evs d = Inr db'"
    by (rule fork_session_Inr[OF fork])
  define w where "w = fork_session_row C now new (next_row_id sw_id (db_sessions db)) src target origin db"
  have w: "sw_id w = next_row_id sw_id (db_sessions db)" "sw_public_id w \<notin> sw_public_id ` set (db_sessions db)"
    using f(4) by (auto simp: w_def fork_session_row_def Let_def)
  have "tables_ok d \<and> db_journal d = db_journal db \<and> db_next_seq d = db_next_seq db"
    using copy_messages_tables[OF new_session(1)[OF assms(1) w] f(5)[folded w_def]] w(1) by simp
  then show ?thesis using copy_events_ok_journal[OF _ _ f(6)] journal_ok_cong[of d db] assms(2) by blast
qed

lemma delete_keeps_ok:
  assumes "tables_ok db" "delete_messages_after sid mid db = (r, db')"
  shows "tables_ok db' \<and> db_journal db' = db_journal db \<and> db_next_seq db' = db_next_seq db"
proof (cases r)
  case (Inl e)
  then show ?thesis using assms by (auto simp: delete_messages_after_def Let_def split: sum.splits)
next
  case (Inr n)
  have "delete_messages_after sid mid db = (Inr n, db')" using assms(2) Inr by simp
  then obtain ids where "db' = without_messages ids db" by (rule delete_messages_Inr[OF assms(1)])
  then show ?thesis using db_ok_without[OF assms(1)] by (simp add: without_messages_def)
qed

lemma step_keeps_ok:
  assumes "store_step C db db'" "tables_ok db" "journal_ok db"
  shows "tables_ok db' \<and> journal_ok db'"
  using assms(1)
proof cases
  case (step_add now sid m)
  obtain r where a: "store_add_message C now sid m db = (r, db')" using step_add by (metis prod.collapse)
  have "r = Inr () \<or> db' = db" using a by (auto simp: store_add_message_def Let_def split: sum.splits if_splits)
  moreover have "db_journal db' = db_journal db" "db_next_seq db' = db_next_seq db"
    using a by (auto simp: store_add_message_def Let_def split: sum.splits if_splits)
  ultimately show ?thesis using db_ok_add[OF assms(2)] a assms(2,3) journal_ok_cong by blast
next
  case (step_fork now uuids sid mid origin)
  then show ?thesis using fork_keeps_ok[OF assms(2,3)] by (metis prod.collapse)
next
  case (step_delete sid mid)
  then show ?thesis using delete_keeps_ok[OF assms(2)] assms(3) journal_ok_cong by (metis prod.collapse)
next
  case (step_push now sid st)
  obtain r where p: "push_revert_state C now sid st db = (r, db')" using step_push by (metis prod.collapse)
  show ?thesis using push_revert_frames(1)[OF assms(2) p] p assms(3)
    by (auto simp: push_revert_state_def journal_ok_def split: sum.splits if_splits)
next
  case (step_pop now sid)
  obtain r where p: "pop_revert_state C now sid db = (r, db')" using step_pop by (metis prod.collapse)
  show ?thesis using pop_revert_frames(1)[OF assms(2) p] p assms(3)
    by (auto simp: pop_revert_state_def journal_ok_def split: sum.splits option.splits)
next
  case (step_clear sid)
  then show ?thesis using assms(2,3) db_ok_revert_ids[OF assms(2)]
    by (auto simp: clear_revert_states_def journal_ok_def intro!: db_ok_set_reverts sorted_wrt_filter_map split: sum.splits)
next
  case (step_append uuid now ev)
  then show ?thesis using assms(2,3)
    by (auto simp: append_durable_def Let_def journal_ok_def sorted_wrt_append split: sum.splits)
next
  case (step_prune sid seq)
  then show ?thesis using assms(2,3)
    by (auto simp: delete_session_events_from_def Let_def journal_ok_def intro!: sorted_wrt_filter_map)
qed

section \<open>Properties\<close>

text \<open>C14: A message added to a session is read back at the end of its history, equal in every field, when its
  parts survive their JSON encoding, its parent is a message of the session and no older message has a later
  time stamp. The tables stay well formed and the histories of the other sessions are unchanged.\<close>

theorem history_roundtrip:
  assumes "tables_ok db" "get_history C sid db = Inr h" "store_add_message C now sid m db = (Inr (), db')"
    "am_session_id m = sid" "length (am_parts m) < 2 ^ 31"
    "\<forall>p\<in>set (am_parts m). \<forall>j. cd_part_to C p = Inr j \<longrightarrow> cd_part_of C j = Inr p"
    "case am_parent_message_id m of None \<Rightarrow> True | Some p \<Rightarrow> p \<in> am_id ` set h"
    "\<forall>x\<in>set h. am_created_at x \<le> am_created_at m"
  shows "get_history C sid db' = Inr (h @ [m]) \<and> tables_ok db'
    \<and> (\<forall>s k. s \<noteq> sid \<and> get_history C s db = Inr k \<longrightarrow> get_history C s db' = Inr k)"
  using add_message_stored[OF assms] db_ok_add[OF assms(1,3)] add_message_others[OF assms(1,3)] by blast

definition text_codec :: "(unit, unit, unit) store_codec" where
  "text_codec = \<lparr>cd_part_to = (\<lambda>p. case p of Part_Text t \<Rightarrow> Inr t | _ \<Rightarrow> Inl ''unsupported''),
     cd_part_of = (\<lambda>s. Inr (Part_Text s)), cd_event_to = (\<lambda>_. Inr ''{}''), cd_event_of = (\<lambda>_. Some ()),
     cd_event_value = (\<lambda>_. None), cd_json_of = (\<lambda>_. None), cd_time_to = (\<lambda>_. ''t''), cd_time_of = (\<lambda>_. Some 0)\<rparr>"

lemma text_codec_simps [simp]:
  "cd_part_to text_codec (Part_Text t) = Inr t" "cd_part_of text_codec s = Inr (Part_Text s)"
  "cd_time_to text_codec n = ''t''"
  by (simp_all add: text_codec_def)

definition one_session_db :: session_db where
  "one_session_db = \<lparr>db_sessions = [\<lparr>sw_id = 1, sw_public_id = ''s'', sw_name = None, sw_cwd = None, sw_created_at = ''t'',
       sw_updated_at = ''t'', sw_llm_config_id = None, sw_parent_session_id = None, sw_fork_origin = None,
       sw_fork_point_type = None, sw_fork_point_ref = None\<rparr>],
     db_messages = [], db_parts = [], db_reverts = [], db_journal = [], db_next_seq = 1\<rparr>"

definition text_message :: "string \<Rightarrow> string \<Rightarrow> (unit, unit) agent_message" where
  "text_message i t = \<lparr>am_id = i, am_session_id = ''s'', am_role = User, am_parts = [Part_Text t], am_created_at = 7,
     am_parent_message_id = None, am_source_provider = None, am_source_model = None\<rparr>"

lemma one_session_ok: "tables_ok one_session_db" "get_history text_codec ''s'' one_session_db = Inr []"
  by (simp_all add: tables_ok_def one_session_db_def get_history_def resolve_session_internal_id_def
      session_message_rows_def session_part_rows_def)

lemma text_message_added: "\<exists>d. store_add_message text_codec 0 ''s'' (text_message ''m'' ''hi'') one_session_db = (Inr (), d)"
  by (simp add: store_add_message_def one_session_db_def resolve_session_internal_id_def resolve_parent_def text_message_def
      Let_def)

theorem history_roundtrip_witness:
  "get_history text_codec ''s'' (snd (store_add_message text_codec 0 ''s'' (text_message ''m'' ''hi'') one_session_db))
     = Inr ([] @ [text_message ''m'' ''hi''])"
proof -
  obtain d where d: "store_add_message text_codec 0 ''s'' (text_message ''m'' ''hi'') one_session_db = (Inr (), d)"
    using text_message_added by blast
  show ?thesis
    unfolding d snd_conv by (rule history_roundtrip[OF one_session_ok d, THEN conjunct1]) (simp_all add: text_message_def)
qed


definition two_message_db :: session_db where
  "two_message_db = snd (store_add_message text_codec 0 ''s'' (text_message ''n'' ''yo'')
     (snd (store_add_message text_codec 0 ''s'' (text_message ''m'' ''hi'') one_session_db)))"

definition nth_uuid :: "nat \<Rightarrow> string" where
  "nth_uuid n = CHR ''u'' # replicate n CHR ''1''"


text \<open>C17: An event appended to the journal comes back last, equal in every field, when the stream of its session is
  loaded, as long as the session has fewer than 10,000 events; from then on new events are never returned by a load
  without bounds. Sequence numbers stay strictly increasing. The event must survive its JSON encoding, and an unknown
  origin must not be called local or remote.\<close>

theorem appended_event_is_loaded:
  assumes "journal_ok db" "load_session_stream C sid None None db = Inr evs" "append_durable C uuid now ev db = (Inr d, db')"
    "ne_session_id ev = sid" "\<forall>j. cd_event_to C (ne_kind ev) = Inr j \<longrightarrow> cd_event_of C j = Some (ne_kind ev)"
    "ne_origin ev \<notin> {Origin_Unknown ''local'', Origin_Unknown ''remote''}"
  shows "load_session_stream C sid None None db' = Inr (if length evs < 10000 then evs @ [d] else evs) \<and> journal_ok db'"
proof -
  obtain payload where a: "cd_event_to C (ne_kind ev) = Inr payload"
    "d = \<lparr>de_event_id = uuid, de_stream_seq = db_next_seq db, de_session_id = ne_session_id ev, de_timestamp = now,
          de_origin = ne_origin ev, de_source_node = ne_source_node ev, de_kind = ne_kind ev\<rparr>"
    "db' = db\<lparr>db_next_seq := db_next_seq db + 1, db_journal := db_journal db @ [\<lparr>jw_event_id = uuid, jw_stream_seq = db_next_seq db,
          jw_session_id = ne_session_id ev, jw_timestamp = now, jw_origin = origin_str (ne_origin ev),
          jw_source_node = ne_source_node ev, jw_kind = event_kind_tag C (ne_kind ev), jw_payload_json = payload\<rparr>]\<rparr>"
    by (rule append_durable_Inr[OF assms(3)])
  have ok': "journal_ok db'" using assms(1) a(3) by (auto simp: journal_ok_def sorted_wrt_append)
  let ?rows = "filter (\<lambda>r. jw_session_id r = sid) (db_journal db)"
  have parse: "parse_journal_rows C (take 10000 ?rows) = Inr evs"
    using assms(2) unfolding load_all_eq[OF assms(1)] .
  have len: "length evs = min (length ?rows) 10000" using parse_journal_rows_length[OF parse] by simp
  have origin: "origin_of_str (origin_str (ne_origin ev)) = ne_origin ev"
    using assms(6) by (cases "ne_origin ev") (auto simp: origin_of_str_def origin_str_def)
  have "load_session_stream C sid None None db' = Inr (if length evs < 10000 then evs @ [d] else evs)"
  proof (cases "length ?rows < 10000")
    case True
    then show ?thesis
      using parse assms(4,5) a(1) origin len
      unfolding load_all_eq[OF ok'] by (simp add: a(2,3) parse_journal_rows_append)
  next
    case False
    then show ?thesis using parse assms(4) len unfolding load_all_eq[OF ok'] by (simp add: a(3))
  qed
  then show ?thesis using ok' by simp
qed

theorem appended_event_is_loaded_witness:
  "load_session_stream text_codec ''s'' None None (snd (append_durable text_codec ''e'' 7
       \<lparr>ne_session_id = ''s'', ne_origin = Origin_Local, ne_source_node = None, ne_kind = ()\<rparr> one_session_db))
     = Inr [\<lparr>de_event_id = ''e'', de_stream_seq = 1, de_session_id = ''s'', de_timestamp = 7, de_origin = Origin_Local,
         de_source_node = None, de_kind = ()\<rparr>]"
proof -
  let ?ev = "\<lparr>ne_session_id = ''s'', ne_origin = Origin_Local, ne_source_node = None, ne_kind = ()\<rparr>"
  let ?d = "\<lparr>de_event_id = ''e'', de_stream_seq = 1, de_session_id = ''s'', de_timestamp = 7, de_origin = Origin_Local,
         de_source_node = None, de_kind = ()\<rparr>"
  have ok: "journal_ok one_session_db" by (simp add: journal_ok_def one_session_db_def)
  have l: "load_session_stream text_codec ''s'' None None one_session_db = Inr []"
    unfolding load_all_eq[OF ok] by (simp add: one_session_db_def)
  obtain db where a: "append_durable text_codec ''e'' 7 ?ev one_session_db = (Inr ?d, db)"
    by (simp add: append_durable_def text_codec_def one_session_db_def Let_def)
  show ?thesis
    using appended_event_is_loaded[OF ok l a] unfolding a by (simp add: text_codec_def)
qed



end
