(* ===== verification/Snapshot.thy ===== *)
theory Snapshot
  imports Prelude "HOL-Library.List_Lexorder" "HOL-Library.Char_ord" "HOL-Library.Multiset"
begin

text \<open>
  Snapshots of a working directory (\<^verbatim>\<open>crates/agent/src/snapshot/backend.rs\<close> and \<^verbatim>\<open>snapshot/git.rs\<close>): the
  interface of a snapshot backend and the git backend that implements it, with the file system it reads and
  writes.

  A file system maps the paths below the working directory to the content of a file and its executable bit;
  directories are explicit, and \<open>fs_denied\<close> holds the paths on which the operating system refuses to write.
  The git library \<^verbatim>\<open>gix\<close>, the directory walk of \<^verbatim>\<open>ignore::WalkBuilder\<close> and the hash of a path are third-party
  code: the record \<open>gix\<close> holds the operations the backend calls on a repository of type \<open>'r\<close>, and the
  predicate \<open>gix_ok\<close> states their documented behaviour, on which the results below rest.
\<close>

section \<open>Errors\<close>

datatype snapshot_error =
    Snap_Repository string | Snap_InvalidSnapshotId string | Snap_NotFound string | Snap_Filesystem string
  | Snap_TaskPanicked | Snap_Other string

fun snapshot_error_display :: "snapshot_error \<Rightarrow> string" where
  "snapshot_error_display (Snap_Repository m) = ''Snapshot repository error: '' @ m"
| "snapshot_error_display (Snap_InvalidSnapshotId m) = ''Invalid snapshot ID: '' @ m"
| "snapshot_error_display (Snap_NotFound m) = ''Snapshot not found: '' @ m"
| "snapshot_error_display (Snap_Filesystem m) = ''Filesystem error: '' @ m"
| "snapshot_error_display Snap_TaskPanicked = ''Snapshot task panicked''"
| "snapshot_error_display (Snap_Other m) = m"

section \<open>The backend as its clients see it\<close>

record 's snapshot_backend_ops =
  sb_track :: "'s \<Rightarrow> (snapshot_error + string) \<times> 's"
  sb_diff :: "'s \<Rightarrow> string \<Rightarrow> string \<Rightarrow> (snapshot_error + string list) \<times> 's"
  sb_restore_paths :: "'s \<Rightarrow> string \<Rightarrow> string list \<Rightarrow> (snapshot_error + unit) \<times> 's"

text \<open>A snapshot holds some file below the path \<open>p\<close>.\<close>

definition below :: "(string \<rightharpoonup> string) \<Rightarrow> string \<Rightarrow> bool" where
  "below m p \<longleftrightarrow> (\<exists>q. m (p @ ''/'' @ q) \<noteq> None)"

text \<open>Something is removed and something is added on the way from one snapshot to the other.\<close>

definition may_rename :: "(string \<rightharpoonup> string) \<Rightarrow> (string \<rightharpoonup> string) \<Rightarrow> bool" where
  "may_rename m m' \<longleftrightarrow> \<not> dom m \<subseteq> dom m' \<and> \<not> dom m' \<subseteq> dom m"

text \<open>
  The contract of the trait \<^verbatim>\<open>SnapshotBackend\<close>: \<open>files\<close> are the contents in the working directory, \<open>tracked\<close>
  the paths a snapshot covers, \<open>plain\<close> the paths a snapshot may cover at all, and \<open>snap\<close> the contents held
  by a snapshot. A comparison reports all changes unless it may see a renamed file, of which it reports only the
  new path.
\<close>

locale snapshot_backend =
  fixes B :: "'s snapshot_backend_ops" and good :: "'s \<Rightarrow> bool" and files :: "'s \<Rightarrow> string \<rightharpoonup> string"
    and tracked :: "'s \<Rightarrow> string \<Rightarrow> bool" and plain :: "string \<Rightarrow> bool"
    and snap :: "'s \<Rightarrow> string \<Rightarrow> (string \<rightharpoonup> string) option"
  assumes tree: "good s \<Longrightarrow> files s (p @ ''/'' @ q) \<noteq> None \<Longrightarrow> files s p = None"
    and snap_plain: "good s \<Longrightarrow> snap s i = Some m \<Longrightarrow> m p \<noteq> None \<Longrightarrow> plain p"
    and track: "good s \<Longrightarrow> sb_track B s = (r, s') \<Longrightarrow>
        good s' \<and> files s' = files s \<and> tracked s' = tracked s \<and> (\<forall>i m. snap s i = Some m \<longrightarrow> snap s' i = Some m)
        \<and> (\<forall>i. r = Inr i \<longrightarrow> snap s' i = Some (\<lambda>p. if tracked s p then files s p else None))"
    and diff: "good s \<Longrightarrow> sb_diff B s a b = (d, s') \<Longrightarrow>
        good s' \<and> files s' = files s \<and> tracked s' = tracked s \<and> (\<forall>i m. snap s i = Some m \<longrightarrow> snap s' i = Some m)
        \<and> (\<forall>ps m m'. d = Inr ps \<and> snap s a = Some m \<and> snap s b = Some m' \<longrightarrow>
             (may_rename m m' \<or> {p. m p \<noteq> m' p} \<subseteq> set ps) \<and> set ps \<subseteq> dom m \<union> dom m')"
    and restore: "good s \<Longrightarrow> \<forall>p\<in>set ps. plain p \<Longrightarrow> sb_restore_paths B s i ps = (u, s') \<Longrightarrow>
        good s' \<and> tracked s' = tracked s \<and> (\<forall>i m. snap s i = Some m \<longrightarrow> snap s' i = Some m)
        \<and> (\<forall>p. p \<notin> set ps \<longrightarrow> files s' p = files s p)
        \<and> (\<forall>m. u = Inr () \<and> snap s i = Some m \<longrightarrow>
             (\<forall>p\<in>set ps. (m p \<noteq> None \<or> \<not> below m p) \<longrightarrow> files s' p = m p))"

section \<open>The file system\<close>

record fsys =
  fs_files :: "string \<rightharpoonup> string \<times> bool"
  fs_dirs :: "string set"
  fs_denied :: "string set"

text \<open>The directories on the way to a path.\<close>

definition path_dirs :: "string \<Rightarrow> string list" where
  "path_dirs p = map (\<lambda>i. take i p) (filter (\<lambda>i. p ! i = CHR ''/'') [0..<length p])"

definition fs_read :: "string \<Rightarrow> fsys \<Rightarrow> string + string" where
  "fs_read p fs = (case fs_files fs p of
       Some (c, _) \<Rightarrow> Inr c
     | None \<Rightarrow> Inl (if p \<in> fs_dirs fs then ''Is a directory (os error 21)'' else ''No such file or directory (os error 2)''))"

definition fs_executable :: "string \<Rightarrow> fsys \<Rightarrow> bool" where
  "fs_executable p fs = (case fs_files fs p of Some (_, x) \<Rightarrow> x | None \<Rightarrow> False)"

fun make_dirs :: "string list \<Rightarrow> fsys \<Rightarrow> (string + unit) \<times> fsys" where
  "make_dirs [] fs = (Inr (), fs)"
| "make_dirs (d # ds) fs =
    (if d \<in> fs_dirs fs then make_dirs ds fs
     else if d \<in> fs_denied fs then (Inl ''Permission denied (os error 13)'', fs)
     else make_dirs ds (fs\<lparr>fs_dirs := insert d (fs_dirs fs)\<rparr>))"

text \<open>\<^verbatim>\<open>fs::create_dir_all\<close> for the parent of a path: it fails without a change when a file is on the way.\<close>

definition create_parent_dirs :: "string \<Rightarrow> fsys \<Rightarrow> (string + unit) \<times> fsys" where
  "create_parent_dirs p fs =
    (if \<exists>d\<in>set (path_dirs p). fs_files fs d \<noteq> None then (Inl ''Not a directory (os error 20)'', fs)
     else make_dirs (path_dirs p) fs)"

text \<open>\<^verbatim>\<open>fs::write\<close> keeps the mode of an existing file; a new file is not executable.\<close>

definition fs_write :: "string \<Rightarrow> string \<Rightarrow> fsys \<Rightarrow> (string + unit) \<times> fsys" where
  "fs_write p c fs =
    (if p \<in> fs_dirs fs then (Inl ''Is a directory (os error 21)'', fs)
     else if p \<in> fs_denied fs then (Inl ''Permission denied (os error 13)'', fs)
     else (Inr (), fs\<lparr>fs_files := (fs_files fs)(p \<mapsto> (c, fs_executable p fs))\<rparr>))"

definition fs_exists :: "string \<Rightarrow> fsys \<Rightarrow> bool" where
  "fs_exists p fs = (fs_files fs p \<noteq> None \<or> p \<in> fs_dirs fs)"

definition fs_remove_file :: "string \<Rightarrow> fsys \<Rightarrow> (string + unit) \<times> fsys" where
  "fs_remove_file p fs =
    (if fs_files fs p = None then (Inl ''Is a directory (os error 21)'', fs)
     else if p \<in> fs_denied fs then (Inl ''Permission denied (os error 13)'', fs)
     else (Inr (), fs\<lparr>fs_files := (fs_files fs)(p := None)\<rparr>))"

section \<open>The git library\<close>

datatype entry_kind = Kind_Tree | Kind_Blob | Kind_BlobExecutable

record tree_entry =
  te_kind :: entry_kind
  te_filename :: string
  te_oid :: string

record 'r gix =
  gx_cache_dir :: "string option"                                        \<comment> \<open>\<^verbatim>\<open>dirs::cache_dir()\<close>\<close>
  gx_head_exists :: "'r \<Rightarrow> bool"                                         \<comment> \<open>\<^verbatim>\<open>git_dir.join("HEAD").exists()\<close>\<close>
  gx_create_dir :: "'r \<Rightarrow> string + 'r"
  gx_init_bare :: "'r \<Rightarrow> string + 'r"
  gx_write_worktree_path :: "'r \<Rightarrow> string + 'r"
  gx_read_config :: "'r \<Rightarrow> string + string"
  gx_write_config :: "string \<Rightarrow> 'r \<Rightarrow> string + 'r"
  gx_open :: "'r \<Rightarrow> string + 'r"
  gx_write_blob :: "'r \<Rightarrow> string \<Rightarrow> string + (string \<times> 'r)"
  gx_write_tree :: "'r \<Rightarrow> tree_entry list \<Rightarrow> string + (string \<times> 'r)"
  gx_sort_entries :: "tree_entry list \<Rightarrow> tree_entry list"               \<comment> \<open>the order of \<^verbatim>\<open>gix::objs::tree::Entry\<close>\<close>
  gx_head_commit :: "'r \<Rightarrow> string option"
  gx_commit :: "'r \<Rightarrow> string \<Rightarrow> string \<Rightarrow> string list \<Rightarrow> string + (string \<times> 'r)"
  gx_from_hex :: "string \<Rightarrow> bool"
  gx_find_commit :: "'r \<Rightarrow> string \<Rightarrow> string + unit"
  gx_commit_tree :: "'r \<Rightarrow> string \<Rightarrow> string + string"
  gx_lookup :: "'r \<Rightarrow> string \<Rightarrow> string \<Rightarrow> string + (entry_kind \<times> string) option"   \<comment> \<open>\<^verbatim>\<open>lookup_entry_by_path\<close>\<close>
  gx_object :: "'r \<Rightarrow> string \<Rightarrow> string + string"                        \<comment> \<open>\<^verbatim>\<open>entry.object()\<close> and its data\<close>
  gx_diff :: "'r \<Rightarrow> string \<Rightarrow> string \<Rightarrow> string + (bool \<times> string option) list"   \<comment> \<open>is it a tree, its location in UTF-8\<close>

section \<open>The git backend\<close>

text \<open>The state of the backend: the working directory and the repository of its snapshots.\<close>

record 'r git_state =
  gw_fs :: fsys
  gw_repo :: 'r

record walker =
  wk_hash :: "string \<Rightarrow> u64"                           \<comment> \<open>\<^verbatim>\<open>RapidHash::new\<close>\<close>
  wk_worktree :: string                                \<comment> \<open>the working directory\<close>
  wk_root :: string                                    \<comment> \<open>the same, canonical if it can be resolved\<close>
  wk_walk :: "fsys \<Rightarrow> (string + (string \<times> bool)) list"  \<comment> \<open>relative path and \<^verbatim>\<open>is_file\<close> of every entry of the walk\<close>
  wk_ignored :: "(string \<rightharpoonup> string \<times> bool) \<Rightarrow> string \<Rightarrow> bool"  \<comment> \<open>the ignore rules that the hidden files (\<^verbatim>\<open>.gitignore\<close>) state\<close>

definition hex_digit :: "nat \<Rightarrow> char" where
  "hex_digit n = (if n < 10 then char_of (48 + n) else char_of (87 + n))"

definition hex16 :: "u64 \<Rightarrow> string" where
  "hex16 h = map (\<lambda>i. hex_digit (unat h div 16 ^ (15 - i) mod 16)) [0..<16]"

definition snapshot_dir :: "'r gix \<Rightarrow> walker \<Rightarrow> snapshot_error + string" where
  "snapshot_dir G W = (case gx_cache_dir G of
       None \<Rightarrow> Inl (Snap_Filesystem ''HOME directory must be set'')
     | Some d \<Rightarrow> Inr (d @ ''/querymt/snapshots/'' @ hex16 (wk_hash W (wk_root W))))"

definition git_config_extra :: "string \<Rightarrow> string" where
  "git_config_extra dir = nl @ ''[core]'' @ nl @ [CHR 0x09] @ ''worktree = '' @ dir @ nl @ ''[user]'' @ nl @ [CHR 0x09]
     @ ''name = qmt-snapshot'' @ nl @ [CHR 0x09] @ ''email = snapshot@qmt.local'' @ nl"

definition open_or_init :: "'r gix \<Rightarrow> walker \<Rightarrow> 'r \<Rightarrow> (snapshot_error + unit) \<times> 'r" where
  "open_or_init G W r =
    (case snapshot_dir G W of Inl e \<Rightarrow> (Inl e, r) | Inr _ \<Rightarrow>
     if gx_head_exists G r
     then (case gx_open G r of Inl e \<Rightarrow> (Inl (Snap_Repository (''Failed to open snapshot repository: '' @ e)), r) | Inr r1 \<Rightarrow> (Inr (), r1))
     else
       (case gx_create_dir G r of Inl e \<Rightarrow> (Inl (Snap_Filesystem (''Failed to create snapshot directory: '' @ e)), r) | Inr r1 \<Rightarrow>
        case gx_init_bare G r1 of Inl e \<Rightarrow> (Inl (Snap_Repository (''Failed to initialize snapshot repository: '' @ e)), r1) | Inr r2 \<Rightarrow>
        case gx_write_worktree_path G r2 of Inl e \<Rightarrow> (Inl (Snap_Filesystem (''Failed to write worktree metadata: '' @ e)), r2) | Inr r3 \<Rightarrow>
        let content = (case gx_read_config G r3 of Inl _ \<Rightarrow> [] | Inr c \<Rightarrow> c) in
        case gx_write_config G (content @ git_config_extra (wk_worktree W)) r3 of
          Inl e \<Rightarrow> (Inl (Snap_Filesystem (''Failed to write git config: '' @ e)), r3) | Inr r4 \<Rightarrow>
        case gx_open G r4 of
          Inl e \<Rightarrow> (Inl (Snap_Repository (''Failed to re-open snapshot repository after config: '' @ e)), r4)
        | Inr r5 \<Rightarrow> (Inr (), r5)))"

subsection \<open>Building trees\<close>

type_synonym file_entry = "string \<times> string \<times> bool"   \<comment> \<open>path, blob and executable bit\<close>

definition split_dir :: "string \<Rightarrow> (string \<times> string) option" where
  "split_dir p = (if CHR ''/'' \<in> set p
     then Some (takeWhile (\<lambda>c. c \<noteq> CHR ''/'') p, tl (dropWhile (\<lambda>c. c \<noteq> CHR ''/'') p)) else None)"

text \<open>\<^verbatim>\<open>subdirs.entry(dir).or_default().push(x)\<close> on a map ordered by its keys.\<close>

fun btree_push :: "string \<Rightarrow> 'a \<Rightarrow> (string \<times> 'a list) list \<Rightarrow> (string \<times> 'a list) list" where
  "btree_push k x [] = [(k, [x])]"
| "btree_push k x ((k', xs) # rest) =
    (if k = k' then (k', xs @ [x]) # rest
     else if k < k' then (k, [x]) # (k', xs) # rest
     else (k', xs) # btree_push k x rest)"

fun subdirs_of :: "file_entry list \<Rightarrow> (string \<times> file_entry list) list \<Rightarrow> (string \<times> file_entry list) list" where
  "subdirs_of [] acc = acc"
| "subdirs_of ((p, oid, x) # es) acc =
    (case split_dir p of Some (d, rest) \<Rightarrow> subdirs_of es (btree_push d (rest, oid, x) acc) | None \<Rightarrow> subdirs_of es acc)"

definition blobs_of :: "file_entry list \<Rightarrow> file_entry list" where
  "blobs_of es = filter (\<lambda>(p, _). split_dir p = None) es"

definition blob_entry :: "file_entry \<Rightarrow> tree_entry" where
  "blob_entry e = (case e of (name, oid, x) \<Rightarrow>
     \<lparr>te_kind = (if x then Kind_BlobExecutable else Kind_Blob), te_filename = name, te_oid = oid\<rparr>)"

definition weight :: "file_entry list \<Rightarrow> nat" where
  "weight es = sum_list (map (\<lambda>(p, _). length p) es)"

definition group_weight :: "(string \<times> file_entry list) list \<Rightarrow> nat" where
  "group_weight gs = sum_list (map (\<lambda>(_, es). 2 * weight es + 2) gs)"

lemma split_dir_Some: "split_dir p = Some (d, rest) \<longleftrightarrow> p = d @ ''/'' @ rest \<and> CHR ''/'' \<notin> set d"
proof
  assume a: "split_dir p = Some (d, rest)"
  then have i: "CHR ''/'' \<in> set p" and d: "d = takeWhile (\<lambda>c. c \<noteq> CHR ''/'') p"
    and r: "rest = tl (dropWhile (\<lambda>c. c \<noteq> CHR ''/'') p)"
    by (auto simp: split_dir_def split: if_splits)
  have n: "dropWhile (\<lambda>c. c \<noteq> CHR ''/'') p \<noteq> []" using i by auto
  then have "dropWhile (\<lambda>c. c \<noteq> CHR ''/'') p = CHR ''/'' # rest"
    unfolding r using hd_dropWhile[OF n] by (cases "dropWhile (\<lambda>c. c \<noteq> CHR ''/'') p") auto
  moreover have "p = d @ dropWhile (\<lambda>c. c \<noteq> CHR ''/'') p" unfolding d by simp
  ultimately show "p = d @ ''/'' @ rest \<and> CHR ''/'' \<notin> set d" unfolding d by (auto dest: set_takeWhileD)
next
  assume "p = d @ ''/'' @ rest \<and> CHR ''/'' \<notin> set d"
  moreover from this have "\<forall>c\<in>set d. c \<noteq> CHR ''/''" by auto
  ultimately show "split_dir p = Some (d, rest)" by (auto simp: split_dir_def)
qed

lemma split_dir_None: "split_dir p = None \<longleftrightarrow> CHR ''/'' \<notin> set p"
  by (simp add: split_dir_def)

lemma group_weight_push: "group_weight (btree_push k (p, e) gs) \<le> group_weight gs + 2 * length p + 2"
  by (induction gs) (auto simp: group_weight_def weight_def)

lemma group_weight_subdirs: "group_weight (subdirs_of es acc) \<le> group_weight acc + 2 * weight es"
proof (induction es acc rule: subdirs_of.induct)
  case (2 p oid x es acc)
  show ?case
  proof (cases "split_dir p")
    case (Some dr)
    then obtain d rest where dr: "split_dir p = Some (d, rest)" by (cases dr) auto
    then have "length rest < length p" using split_dir_Some by auto
    then show ?thesis
      using 2(2)[OF dr refl] dr group_weight_push[of d rest "(oid, x)" acc] by (simp add: weight_def)
  qed (use 2(1) in \<open>simp add: weight_def\<close>)
qed (simp add: weight_def)

function build_tree_from_entries :: "'r gix \<Rightarrow> 'r \<Rightarrow> file_entry list \<Rightarrow> (snapshot_error + string) \<times> 'r"
  and build_subtrees :: "'r gix \<Rightarrow> 'r \<Rightarrow> (string \<times> file_entry list) list \<Rightarrow> (snapshot_error + tree_entry list) \<times> 'r" where
  "build_tree_from_entries G r es =
    (case build_subtrees G r (subdirs_of es []) of
       (Inl e, r1) \<Rightarrow> (Inl e, r1)
     | (Inr ts, r1) \<Rightarrow>
         (case gx_write_tree G r1 (gx_sort_entries G (ts @ map blob_entry (blobs_of es))) of
            Inl e \<Rightarrow> (Inl (Snap_Repository (''Failed to write tree object: '' @ e)), r1)
          | Inr (t, r2) \<Rightarrow> (Inr t, r2)))"
| "build_subtrees G r [] = (Inr [], r)"
| "build_subtrees G r ((d, sub) # ds) =
    (case build_tree_from_entries G r sub of
       (Inl e, r1) \<Rightarrow> (Inl e, r1)
     | (Inr t, r1) \<Rightarrow>
         (case build_subtrees G r1 ds of
            (Inl e, r2) \<Rightarrow> (Inl e, r2)
          | (Inr ts, r2) \<Rightarrow> (Inr (\<lparr>te_kind = Kind_Tree, te_filename = d, te_oid = t\<rparr> # ts), r2)))"
  by pat_completeness auto
termination
proof (relation "measure (case_sum (\<lambda>(_, _, es). 2 * weight es + 1) (\<lambda>(_, _, gs). group_weight gs))", goal_cases)
  case (2 G r es)
  show ?case using group_weight_subdirs[of es "[]"] by (simp add: group_weight_def)
qed (auto simp: group_weight_def)

declare build_tree_from_entries.simps [simp del]

subsection \<open>Taking a snapshot\<close>

definition hidden :: "string \<Rightarrow> bool" where
  "hidden p = (prefix ''.'' p \<or> str_contains ''/.'' p)"

text \<open>The loop over the walk: every visible file is written as a blob.\<close>

fun collect_entries ::
    "'r gix \<Rightarrow> fsys \<Rightarrow> (string + (string \<times> bool)) list \<Rightarrow> 'r \<Rightarrow> (snapshot_error + file_entry list) \<times> 'r" where
  "collect_entries G fs [] r = (Inr [], r)"
| "collect_entries G fs (Inl e # ws) r = (Inl (Snap_Filesystem (''Failed to walk directory: '' @ e)), r)"
| "collect_entries G fs (Inr (p, is_file) # ws) r =
    (if \<not> is_file \<or> hidden p then collect_entries G fs ws r
     else case fs_read p fs of
         Inl e \<Rightarrow> (Inl (Snap_Filesystem (''Failed to read file: '' @ e)), r)
       | Inr c \<Rightarrow>
           (case gx_write_blob G r c of
              Inl e \<Rightarrow> (Inl (Snap_Repository (''Failed to write blob: '' @ e)), r)
            | Inr (oid, r1) \<Rightarrow>
                (case collect_entries G fs ws r1 of
                   (Inl e, r2) \<Rightarrow> (Inl e, r2)
                 | (Inr es, r2) \<Rightarrow> (Inr ((p, oid, fs_executable p fs) # es), r2))))"

definition create_snapshot ::
    "'r gix \<Rightarrow> walker \<Rightarrow> string \<Rightarrow> 'r git_state \<Rightarrow> (snapshot_error + string) \<times> 'r git_state" where
  "create_snapshot G W message s =
    (case open_or_init G W (gw_repo s) of (Inl e, r0) \<Rightarrow> (Inl e, s\<lparr>gw_repo := r0\<rparr>) | (Inr _, r0) \<Rightarrow>
     case collect_entries G (gw_fs s) (wk_walk W (gw_fs s)) r0 of
       (Inl e, r1) \<Rightarrow> (Inl e, s\<lparr>gw_repo := r1\<rparr>)
     | (Inr es, r1) \<Rightarrow>
       (case build_tree_from_entries G r1 (sort_key fst es) of
          (Inl e, r2) \<Rightarrow> (Inl e, s\<lparr>gw_repo := r2\<rparr>)
        | (Inr t, r2) \<Rightarrow>
          (case gx_commit G r2 message t (case gx_head_commit G r2 of Some c \<Rightarrow> [c] | None \<Rightarrow> []) of
             Inl e \<Rightarrow> (Inl (Snap_Repository (''Failed to create commit: '' @ e)), s\<lparr>gw_repo := r2\<rparr>)
           | Inr (c, r3) \<Rightarrow> (Inr c, s\<lparr>gw_repo := r3\<rparr>))))"

subsection \<open>Comparing and restoring\<close>

text \<open>A commit named by its identifier, with the three ways it can fail.\<close>

definition tree_of_commit :: "'r gix \<Rightarrow> 'r \<Rightarrow> string \<Rightarrow> string \<Rightarrow> string \<Rightarrow> snapshot_error + string" where
  "tree_of_commit G r what tree_what cid =
    (if \<not> gx_from_hex G cid then Inl (Snap_InvalidSnapshotId cid)
     else case gx_find_commit G r cid of
         Inl e \<Rightarrow> Inl (Snap_NotFound (what @ cid @ '': '' @ e))
       | Inr _ \<Rightarrow> map_sum (\<lambda>e. Snap_Repository (''Failed to get '' @ tree_what @ '': '' @ e)) id (gx_commit_tree G r cid))"

text \<open>Both identifiers are parsed and both commits are found before a tree is read.\<close>

definition diff_commits :: "'r gix \<Rightarrow> 'r \<Rightarrow> string \<Rightarrow> string \<Rightarrow> snapshot_error + string list" where
  "diff_commits G r a b =
    (if \<not> gx_from_hex G a then Inl (Snap_InvalidSnapshotId a)
     else if \<not> gx_from_hex G b then Inl (Snap_InvalidSnapshotId b)
     else case gx_find_commit G r a of Inl e \<Rightarrow> Inl (Snap_NotFound (sq @ ''from'' @ sq @ '' commit '' @ a @ '': '' @ e)) | Inr _ \<Rightarrow>
     case gx_find_commit G r b of Inl e \<Rightarrow> Inl (Snap_NotFound (sq @ ''to'' @ sq @ '' commit '' @ b @ '': '' @ e)) | Inr _ \<Rightarrow>
     case gx_commit_tree G r a of Inl e \<Rightarrow> Inl (Snap_Repository (''Failed to get '' @ sq @ ''from'' @ sq @ '' tree: '' @ e)) | Inr ta \<Rightarrow>
     case gx_commit_tree G r b of Inl e \<Rightarrow> Inl (Snap_Repository (''Failed to get '' @ sq @ ''to'' @ sq @ '' tree: '' @ e)) | Inr tb \<Rightarrow>
     case gx_diff G r ta tb of Inl e \<Rightarrow> Inl (Snap_Repository (''Failed to compute tree diff: '' @ e)) | Inr cs \<Rightarrow>
     Inr (List.map_filter (\<lambda>(is_tree, loc). if is_tree then None else loc) cs))"

text \<open>One path of \<^verbatim>\<open>checkout_paths\<close>.\<close>

definition checkout_path :: "'r gix \<Rightarrow> 'r \<Rightarrow> string \<Rightarrow> string \<Rightarrow> fsys \<Rightarrow> (snapshot_error + unit) \<times> fsys" where
  "checkout_path G r t p fs =
    (case gx_lookup G r t p of
       Inl e \<Rightarrow> (Inl (Snap_Repository (''Failed to look up tree entry: '' @ e)), fs)
     | Inr (Some (k, oid)) \<Rightarrow>
         (if k = Kind_Tree then (Inr (), fs)
          else case gx_object G r oid of
              Inl e \<Rightarrow> (Inl (Snap_Repository (''Failed to get blob object: '' @ e)), fs)
            | Inr data \<Rightarrow>
                (case create_parent_dirs p fs of
                   (Inl e, fs1) \<Rightarrow> (Inl (Snap_Filesystem (''Failed to create parent directory: '' @ e)), fs1)
                 | (Inr _, fs1) \<Rightarrow> map_prod (map_sum (\<lambda>e. Snap_Filesystem (''Failed to write file: '' @ e)) id) id (fs_write p data fs1)))
     | Inr None \<Rightarrow> (Inr (), if fs_exists p fs then snd (fs_remove_file p fs) else fs))"

fun checkout_loop :: "'r gix \<Rightarrow> 'r \<Rightarrow> string \<Rightarrow> string list \<Rightarrow> fsys \<Rightarrow> (snapshot_error + unit) \<times> fsys" where
  "checkout_loop G r t [] fs = (Inr (), fs)"
| "checkout_loop G r t (p # ps) fs =
    (case checkout_path G r t p fs of (Inl e, fs1) \<Rightarrow> (Inl e, fs1) | (Inr _, fs1) \<Rightarrow> checkout_loop G r t ps fs1)"

definition checkout_paths :: "'r gix \<Rightarrow> 'r \<Rightarrow> string \<Rightarrow> string list \<Rightarrow> fsys \<Rightarrow> (snapshot_error + unit) \<times> fsys" where
  "checkout_paths G r cid ps fs =
    (case tree_of_commit G r ''commit '' ''tree'' cid of Inl e \<Rightarrow> (Inl e, fs) | Inr t \<Rightarrow> checkout_loop G r t ps fs)"

text \<open>The trait methods.\<close>

definition git_track :: "'r gix \<Rightarrow> walker \<Rightarrow> 'r git_state \<Rightarrow> (snapshot_error + string) \<times> 'r git_state" where
  "git_track G W s = create_snapshot G W ''snapshot'' s"

definition git_diff :: "'r gix \<Rightarrow> walker \<Rightarrow> 'r git_state \<Rightarrow> string \<Rightarrow> string \<Rightarrow> (snapshot_error + string list) \<times> 'r git_state" where
  "git_diff G W s a b =
    (case open_or_init G W (gw_repo s) of (Inl e, r) \<Rightarrow> (Inl e, s\<lparr>gw_repo := r\<rparr>) | (Inr _, r) \<Rightarrow> (diff_commits G r a b, s\<lparr>gw_repo := r\<rparr>))"

definition git_restore_paths ::
    "'r gix \<Rightarrow> walker \<Rightarrow> 'r git_state \<Rightarrow> string \<Rightarrow> string list \<Rightarrow> (snapshot_error + unit) \<times> 'r git_state" where
  "git_restore_paths G W s cid ps =
    (case open_or_init G W (gw_repo s) of (Inl e, r) \<Rightarrow> (Inl e, s\<lparr>gw_repo := r\<rparr>) | (Inr _, r) \<Rightarrow>
     case checkout_paths G r cid ps (gw_fs s) of (u, fs) \<Rightarrow> (u, s\<lparr>gw_repo := r, gw_fs := fs\<rparr>))"

definition git_backend :: "'r gix \<Rightarrow> walker \<Rightarrow> 'r git_state snapshot_backend_ops" where
  "git_backend G W = \<lparr>sb_track = git_track G W, sb_diff = git_diff G W, sb_restore_paths = git_restore_paths G W\<rparr>"

section \<open>The documented behaviour of the libraries\<close>

text \<open>Git objects are never changed or removed.\<close>

definition grows :: "'r gix \<Rightarrow> 'r \<Rightarrow> 'r \<Rightarrow> bool" where
  "grows G r r' \<longleftrightarrow>
     (\<forall>oid c. gx_object G r oid = Inr c \<longrightarrow> gx_object G r' oid = Inr c) \<and>
     (\<forall>t p e. gx_lookup G r t p = Inr e \<longrightarrow> gx_lookup G r' t p = Inr e) \<and>
     (\<forall>c. gx_find_commit G r c = Inr () \<longrightarrow> gx_find_commit G r' c = Inr ()) \<and>
     (\<forall>c t. gx_commit_tree G r c = Inr t \<longrightarrow> gx_commit_tree G r' c = Inr t)"

definition find_entry :: "tree_entry list \<Rightarrow> string \<Rightarrow> (entry_kind \<times> string) option" where
  "find_entry es n = map_option (\<lambda>e. (te_kind e, te_oid e)) (List.find (\<lambda>e. te_filename e = n) es)"

definition blob_at :: "'r gix \<Rightarrow> 'r \<Rightarrow> string \<Rightarrow> string \<Rightarrow> string option" where
  "blob_at G r t p = (case gx_lookup G r t p of
     Inr (Some (k, oid)) \<Rightarrow> if k = Kind_Tree then None else Some oid | _ \<Rightarrow> None)"

definition gix_ok :: "'r gix \<Rightarrow> bool" where
  "gix_ok G \<longleftrightarrow>
     (\<forall>r r'. gx_create_dir G r = Inr r' \<or> gx_init_bare G r = Inr r' \<or> gx_write_worktree_path G r = Inr r'
        \<or> gx_open G r = Inr r' \<or> (\<exists>c. gx_write_config G c r = Inr r') \<longrightarrow> grows G r r') \<and>
     (\<forall>r c oid r'. gx_write_blob G r c = Inr (oid, r') \<longrightarrow> grows G r r' \<and> gx_object G r' oid = Inr c) \<and>
     (\<forall>r es t r'. gx_write_tree G r es = Inr (t, r') \<longrightarrow> grows G r r' \<and>
        (distinct (map te_filename es) \<longrightarrow> (\<forall>p. gx_lookup G r' t p = (case split_dir p of
            None \<Rightarrow> Inr (find_entry es p)
          | Some (d, rest) \<Rightarrow> (case find_entry es d of
               Some (k, oid) \<Rightarrow> if k = Kind_Tree then gx_lookup G r' oid rest else Inr None
             | None \<Rightarrow> Inr None))))) \<and>
     (\<forall>es. mset (gx_sort_entries G es) = mset es) \<and>
     (\<forall>r m t ps c r'. gx_commit G r m t ps = Inr (c, r') \<longrightarrow> grows G r r' \<and> gx_from_hex G c
        \<and> gx_find_commit G r' c = Inr () \<and> gx_commit_tree G r' c = Inr t) \<and>
     (\<forall>r a b cs. gx_diff G r a b = Inr cs \<longrightarrow>
        (\<forall>p. blob_at G r a p \<noteq> blob_at G r b p \<longrightarrow> (False, Some p) \<in> set cs \<or>
           blob_at G r b p = None \<and> (\<exists>q. blob_at G r a q = None \<and> blob_at G r b q \<noteq> None \<and> (False, Some q) \<in> set cs)) \<and>
        (\<forall>p. (False, Some p) \<in> set cs \<longrightarrow> blob_at G r a p \<noteq> None \<or> blob_at G r b p \<noteq> None))"

text \<open>The walk reports the files that no ignore rule excludes, all of them when it meets no error.\<close>

definition hidden_files :: "fsys \<Rightarrow> string \<rightharpoonup> string \<times> bool" where
  "hidden_files fs = fs_files fs |` {p. hidden p}"

definition walk_ok :: "walker \<Rightarrow> bool" where
  "walk_ok W \<longleftrightarrow> (\<forall>fs. finite (dom (fs_files fs)) \<longrightarrow>
     distinct (List.map_filter (\<lambda>w. case w of Inr (p, True) \<Rightarrow> Some p | _ \<Rightarrow> None) (wk_walk W fs)) \<and>
     (\<forall>p. Inr (p, True) \<in> set (wk_walk W fs) \<longrightarrow> fs_files fs p \<noteq> None \<and> \<not> wk_ignored W (hidden_files fs) p) \<and>
     ((\<forall>e. Inl e \<notin> set (wk_walk W fs)) \<longrightarrow>
        (\<forall>p. fs_files fs p \<noteq> None \<and> \<not> wk_ignored W (hidden_files fs) p \<longrightarrow> Inr (p, True) \<in> set (wk_walk W fs))))"

definition fs_wf :: "fsys \<Rightarrow> bool" where
  "fs_wf fs \<longleftrightarrow> finite (dom (fs_files fs)) \<and> dom (fs_files fs) \<inter> fs_dirs fs = {} \<and>
     (\<forall>p \<in> dom (fs_files fs) \<union> fs_dirs fs. set (path_dirs p) \<subseteq> fs_dirs fs)"

lemma grows_refl [simp]: "grows G r r"
  by (simp add: grows_def)

lemma grows_trans [trans]: "grows G a b \<Longrightarrow> grows G b c \<Longrightarrow> grows G a c"
  by (simp add: grows_def)

lemma gix_setup:
  assumes "gix_ok G"
  shows "gx_create_dir G r = Inr r' \<Longrightarrow> grows G r r'" "gx_init_bare G r = Inr r' \<Longrightarrow> grows G r r'"
    "gx_write_worktree_path G r = Inr r' \<Longrightarrow> grows G r r'" "gx_open G r = Inr r' \<Longrightarrow> grows G r r'"
    "gx_write_config G c r = Inr r' \<Longrightarrow> grows G r r'"
proof -
  note c = assms[unfolded gix_ok_def, THEN conjunct1, rule_format]
  show "gx_create_dir G r = Inr r' \<Longrightarrow> grows G r r'" "gx_init_bare G r = Inr r' \<Longrightarrow> grows G r r'"
    "gx_write_worktree_path G r = Inr r' \<Longrightarrow> grows G r r'" "gx_open G r = Inr r' \<Longrightarrow> grows G r r'"
    "gx_write_config G c r = Inr r' \<Longrightarrow> grows G r r'" using c by blast+
qed

lemma gix_blob: "gix_ok G \<Longrightarrow> gx_write_blob G r c = Inr (oid, r') \<Longrightarrow> grows G r r' \<and> gx_object G r' oid = Inr c"
  by (simp add: gix_ok_def)

lemma gix_tree: "gix_ok G \<Longrightarrow> gx_write_tree G r es = Inr (t, r') \<Longrightarrow> grows G r r'"
  by (simp add: gix_ok_def)

lemma gix_tree_lookup:
  "gix_ok G \<Longrightarrow> gx_write_tree G r es = Inr (t, r') \<Longrightarrow> distinct (map te_filename es) \<Longrightarrow>
   gx_lookup G r' t p = (case split_dir p of
       None \<Rightarrow> Inr (find_entry es p)
     | Some (d, rest) \<Rightarrow> (case find_entry es d of
          Some (k, oid) \<Rightarrow> if k = Kind_Tree then gx_lookup G r' oid rest else Inr None
        | None \<Rightarrow> Inr None))"
  by (simp add: gix_ok_def)

lemma gix_commit:
  "gix_ok G \<Longrightarrow> gx_commit G r m t ps = Inr (c, r') \<Longrightarrow> grows G r r' \<and> gx_from_hex G c
     \<and> gx_find_commit G r' c = Inr () \<and> gx_commit_tree G r' c = Inr t"
  by (simp add: gix_ok_def)

lemma gix_sort: "gix_ok G \<Longrightarrow> mset (gx_sort_entries G es) = mset es"
  by (simp add: gix_ok_def)

lemma open_or_init_grows:
  assumes "gix_ok G" "open_or_init G W r = (u, r')"
  shows "grows G r r'"
proof -
  note g = gix_setup[OF assms(1)]
  show ?thesis
    using assms(2) unfolding open_or_init_def Let_def
    by (auto split: sum.splits if_splits dest!: g(1) g(2) g(3) g(4) g(5)) (metis grows_trans)+
qed

section \<open>Trees hold their entries\<close>

lemma find_entry_Some:
  assumes "distinct (map te_filename es)"
  shows "find_entry es n = Some (k, oid) \<longleftrightarrow> \<lparr>te_kind = k, te_filename = n, te_oid = oid\<rparr> \<in> set es"
  using assms
proof (induction es)
  case (Cons e es)
  obtain k' n' o' where e: "e = \<lparr>te_kind = k', te_filename = n', te_oid = o'\<rparr>" by (cases e)
  have "n' = n \<Longrightarrow> \<lparr>te_kind = k, te_filename = n, te_oid = oid\<rparr> \<notin> set es"
    using Cons.prems by (force simp: e)
  then show ?case using Cons by (auto simp: find_entry_def e)
qed (simp add: find_entry_def)

lemma btree_push_map:
  "sorted_wrt (<) (map fst m) \<Longrightarrow> sorted_wrt (<) (map fst (btree_push k x m))
     \<and> fst ` set (btree_push k x m) = insert k (fst ` set m)
     \<and> map_of (btree_push k x m) = (map_of m)(k \<mapsto> (case map_of m k of None \<Rightarrow> [x] | Some xs \<Rightarrow> xs @ [x]))"
proof (induction m)
  case (Cons kv m)
  obtain k' xs where kv: "kv = (k', xs)" by (cases kv)
  have lt: "\<forall>j \<in> fst ` set m. k' < j" using Cons.prems by (auto simp: kv)
  show ?case
  proof (cases "k = k'")
    case False
    have none: "k < k' \<Longrightarrow> map_of m k = None"
      using lt by (metis less_asym map_of_eq_None_iff)
    then show ?thesis
      using Cons lt False by (auto simp: kv fun_upd_twist split: option.splits)
  qed (use Cons in \<open>auto simp: kv\<close>)
qed auto

lemma btree_push_nonempty: "\<forall>d. (d, []) \<notin> set m \<Longrightarrow> \<forall>d. (d, []) \<notin> set (btree_push k x m)"
  by (induction m) (auto split: if_splits)

text \<open>The entries below a directory, with the rest of their paths.\<close>

definition dir_entries :: "string \<Rightarrow> file_entry list \<Rightarrow> file_entry list" where
  "dir_entries d es = List.map_filter (\<lambda>(p, e). case split_dir p of
     Some (d', rest) \<Rightarrow> if d' = d then Some (rest, e) else None | None \<Rightarrow> None) es"

lemma in_dir_entries: "(rest, e) \<in> set (dir_entries d es) \<longleftrightarrow> (d @ ''/'' @ rest, e) \<in> set es \<and> CHR ''/'' \<notin> set d"
proof (induction es)
  case (Cons f es)
  obtain p e' where f: "f = (p, e')" by (cases f)
  show ?case
  proof (cases "split_dir p")
    case None
    then have "p \<noteq> d @ ''/'' @ rest" by (auto simp: split_dir_None)
    then show ?thesis using Cons None by (auto simp: dir_entries_def List.map_filter_simps f)
  next
    case (Some dr)
    then obtain d' rest' where "p = d' @ ''/'' @ rest'" "CHR ''/'' \<notin> set d'" "split_dir p = Some (d', rest')"
      by (cases dr) (auto simp: split_dir_Some)
    moreover from this have "p = d @ ''/'' @ rest \<and> CHR ''/'' \<notin> set d \<longleftrightarrow> d' = d \<and> rest' = rest"
      by (metis option.inject prod.inject split_dir_Some)
    ultimately show ?thesis using Cons by (auto simp: dir_entries_def List.map_filter_simps f)
  qed
qed (simp add: dir_entries_def List.map_filter_simps)

lemma subdirs_of_map:
  assumes "sorted_wrt (<) (map fst acc)" "\<forall>d. (d, []) \<notin> set acc"
  shows "sorted_wrt (<) (map fst (subdirs_of es acc)) \<and>
    map_of (subdirs_of es acc) d = (let old = (case map_of acc d of None \<Rightarrow> [] | Some xs \<Rightarrow> xs); new = old @ dir_entries d es
       in if new = [] then None else Some new)"
  using assms
proof (induction es acc rule: subdirs_of.induct)
  case (1 acc)
  then show ?case by (auto simp: dir_entries_def List.map_filter_def Let_def split: option.splits dest: map_of_SomeD)
next
  case (2 p oid x es acc)
  show ?case
  proof (cases "split_dir p")
    case None
    then show ?thesis using 2(1)[OF None 2(3,4)] by (simp add: dir_entries_def)
  next
    case (Some dr)
    then obtain k rest where dr: "split_dir p = Some (k, rest)" by (cases dr) auto
    note push = btree_push_map[OF 2(3), of k "(rest, oid, x)"]
    have ne: "\<forall>d. (d, []) \<notin> set (btree_push k (rest, oid, x) acc)"
      using 2(4) by (rule btree_push_nonempty)
    show ?thesis
      using 2(2)[OF dr refl conjunct1[OF push] ne] push dr
      by (auto simp: dir_entries_def Let_def split: option.splits)
  qed
qed

definition entries_ok :: "file_entry list \<Rightarrow> bool" where
  "entries_ok es \<longleftrightarrow> distinct (map fst es) \<and> (\<forall>p q. p \<in> fst ` set es \<longrightarrow> p @ ''/'' @ q \<notin> fst ` set es)"

definition tree_holds :: "'r gix \<Rightarrow> 'r \<Rightarrow> string \<Rightarrow> file_entry list \<Rightarrow> bool" where
  "tree_holds G r t es \<longleftrightarrow>
     (\<forall>p oid x. (p, oid, x) \<in> set es \<longrightarrow> gx_lookup G r t p = Inr (Some (if x then Kind_BlobExecutable else Kind_Blob, oid))) \<and>
     (\<forall>p. p \<notin> fst ` set es \<longrightarrow> gx_lookup G r t p = Inr None
        \<or> (\<exists>sub q. gx_lookup G r t p = Inr (Some (Kind_Tree, sub)) \<and> p @ ''/'' @ q \<in> fst ` set es))"

lemma tree_holds_grows: "grows G r r' \<Longrightarrow> tree_holds G r t es \<Longrightarrow> tree_holds G r' t es"
  unfolding tree_holds_def grows_def by meson

lemma in_fst_image: "x \<in> fst ` A \<longleftrightarrow> (\<exists>y. (x, y) \<in> A)"
  by force

lemma path_in_dir: "d @ ''/'' @ rest \<in> fst ` set es \<Longrightarrow> CHR ''/'' \<notin> set d \<Longrightarrow> rest \<in> fst ` set (dir_entries d es)"
  unfolding in_fst_image in_dir_entries by blast

lemma dir_in_path: "rest \<in> fst ` set (dir_entries d es) \<Longrightarrow> d @ ''/'' @ rest \<in> fst ` set es \<and> CHR ''/'' \<notin> set d"
  unfolding in_fst_image in_dir_entries by blast

lemma map_filter_fst_distinct:
  "distinct (map fst es) \<Longrightarrow> distinct (map fst (dir_entries d es))"
proof (induction es)
  case (Cons f es)
  obtain p e where f: "f = (p, e)" by (cases f)
  have "split_dir p = Some (d, rest) \<Longrightarrow> rest \<notin> fst ` set (dir_entries d es)" for rest
    using Cons.prems dir_in_path[of rest d es] by (auto simp: f split_dir_Some)
  then show ?case using Cons by (auto simp: dir_entries_def List.map_filter_simps f split: option.splits)
qed (simp add: dir_entries_def List.map_filter_simps)

lemma entries_ok_dir: "entries_ok es \<Longrightarrow> entries_ok (dir_entries d es)"
  unfolding entries_ok_def
  by (metis append_assoc dir_in_path map_filter_fst_distinct)

lemma groups:
  shows "distinct (map fst (subdirs_of es []))"
    "(d, sub) \<in> set (subdirs_of es []) \<longleftrightarrow> sub = dir_entries d es \<and> sub \<noteq> []"
proof -
  note m = subdirs_of_map[of "[]" es, simplified]
  show d: "distinct (map fst (subdirs_of es []))" using m[of d] by (simp add: strict_sorted_iff)
  show "(d, sub) \<in> set (subdirs_of es []) \<longleftrightarrow> sub = dir_entries d es \<and> sub \<noteq> []"
    unfolding map_of_eq_Some_iff[OF d, symmetric] using m[of d] by (auto simp: Let_def)
qed

lemma blob_entry_in:
  "\<lparr>te_kind = k, te_filename = n, te_oid = oid\<rparr> \<in> blob_entry ` {e \<in> set es. split_dir (fst e) = None}
     \<longleftrightarrow> (\<exists>x. k = (if x then Kind_BlobExecutable else Kind_Blob) \<and> (n, oid, x) \<in> set es \<and> split_dir n = None)"
proof -
  have "\<lparr>te_kind = k, te_filename = n, te_oid = oid\<rparr> = blob_entry (p, oid', x)
      \<longleftrightarrow> p = n \<and> oid' = oid \<and> k = (if x then Kind_BlobExecutable else Kind_Blob)" for p oid' x
    by (auto simp: blob_entry_def)
  then show ?thesis by (simp add: image_iff Bex_def) blast
qed

lemma tree_entries_of:
  assumes es: "entries_ok es"
    and ts: "list_all2 (\<lambda>g e. te_kind e = Kind_Tree \<and> te_filename e = fst g \<and> H (te_oid e) (snd g)) (subdirs_of es []) ts"
    and all: "mset all = mset (ts @ map blob_entry (blobs_of es))"
  shows "distinct (map te_filename all)"
    "find_entry all n = Some (k, oid) \<longleftrightarrow>
       k = Kind_Tree \<and> \<lparr>te_kind = Kind_Tree, te_filename = n, te_oid = oid\<rparr> \<in> set ts
       \<or> (\<exists>x. k = (if x then Kind_BlobExecutable else Kind_Blob) \<and> (n, oid, x) \<in> set es \<and> split_dir n = None)"
proof -
  have tn: "map te_filename ts = map fst (subdirs_of es [])"
    using ts by (auto simp: list_all2_conv_all_nth intro: nth_equalityI)
  have bn: "map te_filename (map blob_entry (blobs_of es)) = map fst (blobs_of es)"
    by (auto simp: blob_entry_def)
  have "distinct (map fst (blobs_of es))"
    using es unfolding entries_ok_def blobs_of_def by (metis distinct_map_filter)
  moreover have "d \<notin> fst ` set (blobs_of es)" if dk: "d \<in> set (map fst (subdirs_of es []))" for d
  proof -
    obtain sub where "(d, sub) \<in> set (subdirs_of es [])" using dk by auto
    then have "dir_entries d es \<noteq> []" by (auto simp: groups(2))
    then obtain rest where "rest \<in> fst ` set (dir_entries d es)" by (metis ex_in_conv image_is_empty set_empty)
    then show ?thesis using dir_in_path es by (fastforce simp: entries_ok_def blobs_of_def)
  qed
  ultimately have "distinct (map te_filename (ts @ map blob_entry (blobs_of es)))"
    unfolding map_append tn bn using groups(1) by auto
  then show dis: "distinct (map te_filename all)"
    by (subst mset_eq_imp_distinct_iff[where ys = "map te_filename (ts @ map blob_entry (blobs_of es))"])
      (simp only: mset_map all)
  have kt: "e \<in> set ts \<Longrightarrow> te_kind e = Kind_Tree" for e
    using ts by (auto simp: list_all2_conv_all_nth in_set_conv_nth)
  let ?e = "\<lparr>te_kind = k, te_filename = n, te_oid = oid\<rparr>"
  have "set all = set ts \<union> blob_entry ` {e \<in> set es. split_dir (fst e) = None}"
    unfolding mset_eq_setD[OF all] by (auto simp: blobs_of_def)
  then have "?e \<in> set all \<longleftrightarrow> ?e \<in> set ts
      \<or> (\<exists>x. k = (if x then Kind_BlobExecutable else Kind_Blob) \<and> (n, oid, x) \<in> set es \<and> split_dir n = None)"
    unfolding blob_entry_in[symmetric] by simp
  moreover have "?e \<in> set ts \<longleftrightarrow> k = Kind_Tree \<and> \<lparr>te_kind = Kind_Tree, te_filename = n, te_oid = oid\<rparr> \<in> set ts"
    using kt[of ?e] by (metis tree_entry.select_convs(1))
  ultimately show "find_entry all n = Some (k, oid) \<longleftrightarrow>
       k = Kind_Tree \<and> \<lparr>te_kind = Kind_Tree, te_filename = n, te_oid = oid\<rparr> \<in> set ts
       \<or> (\<exists>x. k = (if x then Kind_BlobExecutable else Kind_Blob) \<and> (n, oid, x) \<in> set es \<and> split_dir n = None)"
    unfolding find_entry_Some[OF dis] by simp
qed

text \<open>One level of the tree: the subtrees hold their groups, so the tree holds the entries.\<close>

lemma tree_level:
  assumes G: "gix_ok G" and es: "entries_ok es"
    and ts: "list_all2 (\<lambda>g e. te_kind e = Kind_Tree \<and> te_filename e = fst g \<and> tree_holds G r (te_oid e) (snd g))
      (subdirs_of es []) ts"
    and w: "gx_write_tree G r (gx_sort_entries G (ts @ map blob_entry (blobs_of es))) = Inr (t, r')"
  shows "tree_holds G r' t es"
proof -
  define all where "all = gx_sort_entries G (ts @ map blob_entry (blobs_of es))"
  note te = tree_entries_of[OF es ts, of all, unfolded all_def, OF gix_sort[OF G], folded all_def]
  note lk = gix_tree_lookup[OF G w[folded all_def] te(1)]
  have gr: "grows G r r'" by (rule gix_tree[OF G w])
  have grp: "dir_entries d es \<noteq> [] \<and> tree_holds G r' oid (dir_entries d es)"
    if dt: "\<lparr>te_kind = Kind_Tree, te_filename = d, te_oid = oid\<rparr> \<in> set ts" for d oid
  proof -
    obtain i where i: "i < length ts" "ts ! i = \<lparr>te_kind = Kind_Tree, te_filename = d, te_oid = oid\<rparr>"
      using dt by (metis in_set_conv_nth)
    then have "subdirs_of es [] ! i \<in> set (subdirs_of es [])" "fst (subdirs_of es [] ! i) = d"
        "tree_holds G r oid (snd (subdirs_of es [] ! i))"
      using ts by (auto simp: list_all2_conv_all_nth)
    moreover from this have "(d, snd (subdirs_of es [] ! i)) \<in> set (subdirs_of es [])" by (metis prod.collapse)
    ultimately show ?thesis unfolding groups(2) using tree_holds_grows[OF gr] by auto
  qed
  have gex: "\<exists>oid. find_entry all d = Some (Kind_Tree, oid)" if "dir_entries d es \<noteq> []" for d
  proof -
    have "(d, dir_entries d es) \<in> set (subdirs_of es [])" using that by (simp add: groups(2))
    then obtain i where "i < length ts" "te_kind (ts ! i) = Kind_Tree" "te_filename (ts ! i) = d"
      using ts by (auto simp: list_all2_conv_all_nth in_set_conv_nth)
    then have "\<lparr>te_kind = Kind_Tree, te_filename = d, te_oid = te_oid (ts ! i)\<rparr> \<in> set ts"
      by (metis (full_types) nth_mem old.unit.exhaust tree_entry.surjective)
    then show ?thesis using te(2) by blast
  qed
  have "gx_lookup G r' t p = Inr (Some (if x then Kind_BlobExecutable else Kind_Blob, oid))"
    if p: "(p, oid, x) \<in> set es" for p oid x
  proof (cases "split_dir p")
    case None
    then have "find_entry all p = Some (if x then Kind_BlobExecutable else Kind_Blob, oid)" using te(2) p by blast
    then show ?thesis using lk[of p] None by simp
  next
    case (Some dr)
    then obtain d rest where dr: "split_dir p = Some (d, rest)" by (cases dr) auto
    then have sub: "(rest, oid, x) \<in> set (dir_entries d es)" using p by (auto simp: in_dir_entries split_dir_Some)
    then have "dir_entries d es \<noteq> []" by (metis empty_iff list.set(1))
    then obtain so where so: "find_entry all d = Some (Kind_Tree, so)" using gex[of d] by auto
    then have "tree_holds G r' so (dir_entries d es)" using te(2)[of d Kind_Tree so] grp by (auto split: if_splits)
    then show ?thesis using lk[of p] dr so sub by (simp add: tree_holds_def)
  qed
  moreover have "gx_lookup G r' t p = Inr None \<or> (\<exists>so q. gx_lookup G r' t p = Inr (Some (Kind_Tree, so)) \<and> p @ ''/'' @ q \<in> fst ` set es)"
    if p: "p \<notin> fst ` set es" for p
  proof (cases "split_dir p")
    case None
    show ?thesis
    proof (cases "find_entry all p")
      case (Some e)
      then obtain k oid where e: "find_entry all p = Some (k, oid)" by (cases e) auto
      then have k: "k = Kind_Tree" "dir_entries p es \<noteq> []"
        using te(2)[of p k oid] p grp[of p oid] by (auto simp: in_fst_image)
      then obtain rest where "rest \<in> fst ` set (dir_entries p es)" by (metis ex_in_conv image_is_empty set_empty)
      then show ?thesis using lk[of p] None e k dir_in_path by fastforce
    qed (use lk[of p] None in simp)
  next
    case (Some dr)
    then obtain d rest where dr: "split_dir p = Some (d, rest)" by (cases dr) auto
    then have pd: "p = d @ ''/'' @ rest" by (simp add: split_dir_Some)
    show ?thesis
    proof (cases "find_entry all d")
      case (Some e)
      then obtain k oid where e: "find_entry all d = Some (k, oid)" by (cases e) auto
      show ?thesis
      proof (cases "k = Kind_Tree")
        case True
        then have h: "tree_holds G r' oid (dir_entries d es)" using te(2)[of d k oid] e grp by (auto split: if_splits)
        have "rest \<notin> fst ` set (dir_entries d es)" using p dir_in_path pd by blast
        then have "gx_lookup G r' oid rest = Inr None
            \<or> (\<exists>so q. gx_lookup G r' oid rest = Inr (Some (Kind_Tree, so)) \<and> rest @ ''/'' @ q \<in> fst ` set (dir_entries d es))"
          using h by (simp add: tree_holds_def)
        moreover have "rest @ ''/'' @ q \<in> fst ` set (dir_entries d es) \<Longrightarrow> p @ ''/'' @ q \<in> fst ` set es" for q
          using dir_in_path[of "rest @ ''/'' @ q" d es] pd by simp
        moreover have "gx_lookup G r' t p = gx_lookup G r' oid rest" using lk[of p] dr e True by simp
        ultimately show ?thesis by metis
      qed (use lk[of p] dr e in simp)
    qed (use lk[of p] dr in simp)
  qed
  ultimately show ?thesis unfolding tree_holds_def by blast
qed

lemma build_tree_holds:
  "build_tree_from_entries G r es = (u, r') \<Longrightarrow> gix_ok G \<Longrightarrow>
     grows G r r' \<and> (\<forall>t. u = Inr t \<and> entries_ok es \<longrightarrow> tree_holds G r' t es)"
  "build_subtrees G r gs = (v, r') \<Longrightarrow> gix_ok G \<Longrightarrow>
     grows G r r' \<and> (\<forall>ts. v = Inr ts \<and> (\<forall>g\<in>set gs. entries_ok (snd g)) \<longrightarrow>
       list_all2 (\<lambda>g e. te_kind e = Kind_Tree \<and> te_filename e = fst g \<and> tree_holds G r' (te_oid e) (snd g)) gs ts)"
proof (induction G r es and G r gs arbitrary: u r' and v r' rule: build_tree_from_entries_build_subtrees.induct)
  case (1 G r es)
  obtain v r1 where b: "build_subtrees G r (subdirs_of es []) = (v, r1)" by (cases "build_subtrees G r (subdirs_of es [])")
  note ih = 1(1)[OF b 1(3)]
  show ?case
  proof (cases v)
    case (Inl e)
    then show ?thesis using 1(2) b ih by (auto simp: build_tree_from_entries.simps)
  next
    case (Inr ts)
    have sub: "entries_ok es \<Longrightarrow> \<forall>g\<in>set (subdirs_of es []). entries_ok (snd g)"
      using groups(2)[of _ _ es] entries_ok_dir by auto
    show ?thesis
    proof (cases "gx_write_tree G r1 (gx_sort_entries G (ts @ map blob_entry (blobs_of es)))")
      case (Inr tr)
      then obtain t r2 where w: "gx_write_tree G r1 (gx_sort_entries G (ts @ map blob_entry (blobs_of es))) = Inr (t, r2)"
        by (cases tr) auto
      then have u: "u = Inr t" "r' = r2" using 1(2) b \<open>v = Inr ts\<close> by (auto simp: build_tree_from_entries.simps)
      have "grows G r r2" by (rule grows_trans[OF conjunct1[OF ih] gix_tree[OF 1(3) w]])
      moreover have "entries_ok es \<Longrightarrow> tree_holds G r2 t es"
        using ih sub \<open>v = Inr ts\<close> by (intro tree_level[OF 1(3) _ _ w]) auto
      ultimately show ?thesis using u by auto
    qed (use 1(2) b ih \<open>v = Inr ts\<close> in \<open>auto simp: build_tree_from_entries.simps\<close>)
  qed
next
  case (3 G r d sub ds)
  obtain u1 r1 where b1: "build_tree_from_entries G r sub = (u1, r1)" by (cases "build_tree_from_entries G r sub")
  note ih1 = 3(1)[OF b1 3(4)]
  show ?case
  proof (cases u1)
    case (Inr t)
    obtain v2 r2 where b2: "build_subtrees G r1 ds = (v2, r2)" by (cases "build_subtrees G r1 ds")
    note ih2 = 3(2)[OF b1[symmetric, unfolded Inr] refl b2 3(4)]
    have g: "grows G r r2" by (rule grows_trans[OF conjunct1[OF ih1] conjunct1[OF ih2]])
    show ?thesis
    proof (cases v2)
      case (Inl e)
      then show ?thesis using 3(3) b1 b2 \<open>u1 = Inr t\<close> g by auto
    next
      case (Inr ts2)
      then have v: "v = Inr (\<lparr>te_kind = Kind_Tree, te_filename = d, te_oid = t\<rparr> # ts2)" "r' = r2"
        using 3(3) b1 b2 \<open>u1 = Inr t\<close> by auto
      have "entries_ok sub \<Longrightarrow> tree_holds G r2 t sub"
        using ih1 \<open>u1 = Inr t\<close> tree_holds_grows[OF conjunct1[OF ih2]] by simp
      then show ?thesis using v ih2 g Inr by auto
    qed
  qed (use 3(3) b1 ih1 in auto)
qed simp

section \<open>What a snapshot holds\<close>

definition walked :: "(string + (string \<times> bool)) list \<Rightarrow> string list" where
  "walked ws = List.map_filter (\<lambda>w. case w of Inr (p, True) \<Rightarrow> Some p | _ \<Rightarrow> None) ws"

lemma walked_simps [simp]:
  "walked [] = []" "walked (Inl e # ws) = walked ws" "walked (Inr (p, f) # ws) = (if f then p # walked ws else walked ws)"
  by (auto simp: walked_def List.map_filter_simps)

lemma in_walked: "p \<in> set (walked ws) \<longleftrightarrow> Inr (p, True) \<in> set ws"
proof (induction ws)
  case (Cons w ws)
  then show ?case by (cases w) (auto split: if_splits)
qed simp

lemma collect_entries_ok:
  assumes "gix_ok G" "collect_entries G fs ws r = (u, r')"
  shows "grows G r r'"
    "u = Inr es \<Longrightarrow> map fst es = filter (\<lambda>p. \<not> hidden p) (walked ws) \<and> (\<forall>e. Inl e \<notin> set ws)
       \<and> (\<forall>p oid x. (p, oid, x) \<in> set es \<longrightarrow> (\<exists>c. fs_files fs p = Some (c, x) \<and> gx_object G r' oid = Inr c))"
proof -
  have "grows G r r' \<and> (\<forall>es. u = Inr es \<longrightarrow> map fst es = filter (\<lambda>p. \<not> hidden p) (walked ws) \<and> (\<forall>e. Inl e \<notin> set ws)
       \<and> (\<forall>p oid x. (p, oid, x) \<in> set es \<longrightarrow> (\<exists>c. fs_files fs p = Some (c, x) \<and> gx_object G r' oid = Inr c)))"
    using assms(2)
  proof (induction ws arbitrary: r u r')
    case (Cons w ws)
    show ?case
    proof (cases w)
      case (Inl e)
      then show ?thesis using Cons.prems by auto
    next
      case (Inr pf)
      then obtain p f where w: "w = Inr (p, f)" by (cases pf) auto
      show ?thesis
      proof (cases "\<not> f \<or> hidden p")
        case True
        then show ?thesis using Cons.prems Cons.IH[of r u r'] w by auto
      next
        case False
        show ?thesis
        proof (cases "fs_files fs p")
          case None
          then show ?thesis using Cons.prems w False by (auto simp: fs_read_def)
        next
          case (Some cx)
          then obtain c x where c: "fs_files fs p = Some (c, x)" by (cases cx) auto
          show ?thesis
          proof (cases "gx_write_blob G r c")
            case (Inl e)
            then show ?thesis using Cons.prems w False c by (auto simp: fs_read_def)
          next
            case (Inr or)
            then obtain oid r1 where b: "gx_write_blob G r c = Inr (oid, r1)" by (cases or) auto
            obtain v r2 where l: "collect_entries G fs ws r1 = (v, r2)" by (cases "collect_entries G fs ws r1")
            have g1: "grows G r r1" "gx_object G r1 oid = Inr c" using gix_blob[OF assms(1) b] by auto
            note ih = Cons.IH[OF l]
            have r': "r' = r2" "u = (case v of Inl e \<Rightarrow> Inl e | Inr es \<Rightarrow> Inr ((p, oid, x) # es))"
              using Cons.prems w False c b l by (auto simp: fs_read_def fs_executable_def split: sum.splits)
            have "gx_object G r2 oid = Inr c" using g1(2) ih by (simp add: grows_def)
            moreover have "grows G r r2" using grows_trans[OF g1(1)] ih by blast
            ultimately show ?thesis using r' ih c w False by (auto split: sum.splits)
          qed
        qed
      qed
    qed
  qed simp
  then show "grows G r r'"
    "u = Inr es \<Longrightarrow> map fst es = filter (\<lambda>p. \<not> hidden p) (walked ws) \<and> (\<forall>e. Inl e \<notin> set ws)
       \<and> (\<forall>p oid x. (p, oid, x) \<in> set es \<longrightarrow> (\<exists>c. fs_files fs p = Some (c, x) \<and> gx_object G r' oid = Inr c))" by auto
qed

definition tree_map :: "'r gix \<Rightarrow> 'r \<Rightarrow> string \<Rightarrow> string \<rightharpoonup> string" where
  "tree_map G r t p = (case blob_at G r t p of None \<Rightarrow> None | Some oid \<Rightarrow>
     (case gx_object G r oid of Inr c \<Rightarrow> Some c | Inl _ \<Rightarrow> None))"

text \<open>A tree all of whose objects can be read, without hidden files and empty directories.\<close>

definition sound_tree :: "'r gix \<Rightarrow> 'r \<Rightarrow> string \<Rightarrow> bool" where
  "sound_tree G r t \<longleftrightarrow> (\<forall>p. \<exists>e. gx_lookup G r t p = Inr e \<and> (case e of None \<Rightarrow> True | Some (k, oid) \<Rightarrow>
     if k = Kind_Tree then below (tree_map G r t) p else \<not> hidden p \<and> (\<exists>c. gx_object G r oid = Inr c)))"

definition repo_snap :: "'r gix \<Rightarrow> 'r \<Rightarrow> string \<Rightarrow> (string \<rightharpoonup> string) option" where
  "repo_snap G r i = (if gx_from_hex G i \<and> gx_find_commit G r i = Inr () then
     (case gx_commit_tree G r i of Inr t \<Rightarrow> if sound_tree G r t then Some (tree_map G r t) else None | Inl _ \<Rightarrow> None) else None)"

lemma sound_treeD:
  assumes "sound_tree G r t"
  shows "\<exists>e. gx_lookup G r t p = Inr e"
    "blob_at G r t p = Some oid \<Longrightarrow> \<exists>c. gx_object G r oid = Inr c" "blob_at G r t p = Some oid \<Longrightarrow> \<not> hidden p"
    "gx_lookup G r t p = Inr (Some (Kind_Tree, sub)) \<Longrightarrow> below (tree_map G r t) p"
proof -
  obtain e where e: "gx_lookup G r t p = Inr e" "case e of None \<Rightarrow> True | Some (k, oid) \<Rightarrow>
      if k = Kind_Tree then below (tree_map G r t) p else \<not> hidden p \<and> (\<exists>c. gx_object G r oid = Inr c)"
    using assms unfolding sound_tree_def by blast
  then show "\<exists>e. gx_lookup G r t p = Inr e"
    "gx_lookup G r t p = Inr (Some (Kind_Tree, sub)) \<Longrightarrow> below (tree_map G r t) p" by auto
  show "blob_at G r t p = Some oid \<Longrightarrow> \<exists>c. gx_object G r oid = Inr c" "blob_at G r t p = Some oid \<Longrightarrow> \<not> hidden p"
    using e by (cases e; auto simp: blob_at_def split: if_splits)+
qed

lemma sound_tree_grows:
  assumes "grows G r r'" "sound_tree G r t"
  shows "tree_map G r' t = tree_map G r t" "sound_tree G r' t"
proof -
  have look: "gx_lookup G r' t p = gx_lookup G r t p" for p
    using assms unfolding sound_tree_def grows_def by metis
  have obj: "gx_object G r' oid = gx_object G r oid" if bl: "blob_at G r t p = Some oid" for p oid
  proof -
    obtain c where "gx_object G r oid = Inr c" using sound_treeD(2)[OF assms(2) bl] by blast
    then show ?thesis using assms(1) by (simp add: grows_def)
  qed
  show m: "tree_map G r' t = tree_map G r t"
  proof
    fix p
    have "blob_at G r' t p = blob_at G r t p" by (simp add: blob_at_def look)
    then show "tree_map G r' t p = tree_map G r t p" using obj by (auto simp: tree_map_def split: option.splits)
  qed
  show "sound_tree G r' t"
    unfolding sound_tree_def m look
  proof
    fix p
    obtain e where e: "gx_lookup G r t p = Inr e" "case e of None \<Rightarrow> True | Some (k, oid) \<Rightarrow>
        if k = Kind_Tree then below (tree_map G r t) p else \<not> hidden p \<and> (\<exists>c. gx_object G r oid = Inr c)"
      using assms(2) unfolding sound_tree_def by blast
    have "case e of None \<Rightarrow> True | Some (k, oid) \<Rightarrow>
        if k = Kind_Tree then below (tree_map G r t) p else \<not> hidden p \<and> (\<exists>c. gx_object G r' oid = Inr c)"
      using e(2) assms(1) by (auto simp: grows_def split: option.splits)
    with e(1) show "\<exists>e. gx_lookup G r t p = Inr e \<and> (case e of None \<Rightarrow> True | Some (k, oid) \<Rightarrow>
        if k = Kind_Tree then below (tree_map G r t) p else \<not> hidden p \<and> (\<exists>c. gx_object G r' oid = Inr c))" by blast
  qed
qed

lemma repo_snap_grows: "grows G r r' \<Longrightarrow> repo_snap G r i = Some m \<Longrightarrow> repo_snap G r' i = Some m"
  using sound_tree_grows[of G r r']
  by (auto simp: repo_snap_def grows_def split: if_splits sum.splits)

lemma path_dirs_below: "p \<in> set (path_dirs (p @ ''/'' @ q))"
  by (auto simp: path_dirs_def nth_append intro!: image_eqI[where x = "length p"])

lemma fs_wf_below: "fs_wf fs \<Longrightarrow> fs_files fs (p @ ''/'' @ q) \<noteq> None \<Longrightarrow> fs_files fs p = None"
proof -
  assume wf: "fs_wf fs" and "fs_files fs (p @ ''/'' @ q) \<noteq> None"
  then have "set (path_dirs (p @ ''/'' @ q)) \<subseteq> fs_dirs fs" unfolding fs_wf_def by blast
  then have "p \<in> fs_dirs fs" using path_dirs_below[of p q] by blast
  then show "fs_files fs p = None" using wf unfolding fs_wf_def by blast
qed

section \<open>Writing into the working directory\<close>

definition fs_contents :: "fsys \<Rightarrow> string \<rightharpoonup> string" where
  "fs_contents fs p = map_option fst (fs_files fs p)"

lemma path_dirs_trans: "d \<in> set (path_dirs p) \<Longrightarrow> set (path_dirs d) \<subseteq> set (path_dirs p)"
  by (auto simp: path_dirs_def min_def split: if_splits)

lemma make_dirs_ok:
  "fs_denied fs = {} \<Longrightarrow> make_dirs ds fs = (Inr (), fs\<lparr>fs_dirs := set ds \<union> fs_dirs fs\<rparr>)"
  by (induction ds arbitrary: fs) (auto simp: insert_absorb)

lemma create_parent_dirs_ok:
  assumes "fs_wf fs" "fs_denied fs = {}" "create_parent_dirs p fs = (u, fs')"
  shows "fs_wf fs' \<and> fs_denied fs' = {} \<and> fs_files fs' = fs_files fs \<and> (u = Inr () \<longrightarrow> set (path_dirs p) \<subseteq> fs_dirs fs')"
proof (cases "\<exists>d\<in>set (path_dirs p). fs_files fs d \<noteq> None")
  case False
  then have fs': "u = Inr ()" "fs' = fs\<lparr>fs_dirs := set (path_dirs p) \<union> fs_dirs fs\<rparr>"
    using assms(2,3) make_dirs_ok[OF assms(2)] by (auto simp: create_parent_dirs_def)
  have "set (path_dirs q) \<subseteq> set (path_dirs p) \<union> fs_dirs fs" if "q \<in> dom (fs_files fs) \<union> (set (path_dirs p) \<union> fs_dirs fs)" for q
    using that assms(1) path_dirs_trans[of q p] unfolding fs_wf_def by auto
  then show ?thesis using assms(1,2) False unfolding fs' fs_wf_def by auto
qed (use assms in \<open>auto simp: create_parent_dirs_def\<close>)

lemma fs_wf_upd:
  assumes "fs_wf fs" "p \<notin> fs_dirs fs" "set (path_dirs p) \<subseteq> fs_dirs fs"
  shows "fs_wf (fs\<lparr>fs_files := (fs_files fs)(p \<mapsto> v)\<rparr>)"
proof -
  have "dom ((fs_files fs)(p \<mapsto> v)) = insert p (dom (fs_files fs))" by simp
  then show ?thesis using assms unfolding fs_wf_def by (simp del: dom_fun_upd)
qed

lemma fs_write_ok:
  assumes "fs_wf fs" "fs_denied fs = {}" "set (path_dirs p) \<subseteq> fs_dirs fs" "fs_write p c fs = (u, fs')"
  shows "fs_wf fs' \<and> fs_denied fs' = {} \<and> (\<forall>q. q \<noteq> p \<longrightarrow> fs_files fs' q = fs_files fs q)
    \<and> (u = Inr () \<longrightarrow> fs_contents fs' p = Some c)"
  using assms fs_wf_upd[OF assms(1) _ assms(3), of "(c, fs_executable p fs)"]
  by (cases "p \<in> fs_dirs fs") (auto simp: fs_write_def fs_contents_def)

lemma fs_remove_ok:
  assumes "fs_wf fs" "fs_denied fs = {}"
  shows "fs_wf (snd (fs_remove_file p fs)) \<and> fs_denied (snd (fs_remove_file p fs)) = {}
    \<and> (\<forall>q. q \<noteq> p \<longrightarrow> fs_files (snd (fs_remove_file p fs)) q = fs_files fs q) \<and> fs_files (snd (fs_remove_file p fs)) p = None"
  using assms by (auto simp: fs_remove_file_def fs_wf_def dom_def intro: finite_subset[rotated])

lemma checkout_path_frame:
  assumes "fs_wf fs" "fs_denied fs = {}" "checkout_path G r t p fs = (u, fs')"
  shows "fs_wf fs' \<and> fs_denied fs' = {} \<and> (\<forall>q. q \<noteq> p \<longrightarrow> fs_files fs' q = fs_files fs q)"
proof -
  have rem: "fs_wf (snd (fs_remove_file p fs)) \<and> fs_denied (snd (fs_remove_file p fs)) = {}
    \<and> (\<forall>q. q \<noteq> p \<longrightarrow> fs_files (snd (fs_remove_file p fs)) q = fs_files fs q)" using fs_remove_ok[OF assms(1,2)] by blast
  have wr: "fs_wf fs2 \<and> fs_denied fs2 = {} \<and> (\<forall>q. q \<noteq> p \<longrightarrow> fs_files fs2 q = fs_files fs q)"
    if "create_parent_dirs p fs = (Inr (), fs1)" "fs_write p c fs1 = (v, fs2)" for fs1 c v fs2
    using create_parent_dirs_ok[OF assms(1,2) that(1)] fs_write_ok[of fs1 p c v fs2] that(2) by auto
  show ?thesis
    using assms rem wr create_parent_dirs_ok[OF assms(1,2)] unfolding checkout_path_def
    by (auto split: sum.splits option.splits if_splits prod.splits simp: map_prod_def)
qed

lemma checkout_path_effect:
  assumes "fs_wf fs" "fs_denied fs = {}" "sound_tree G r t" "checkout_path G r t p fs = (Inr (), fs')"
    "tree_map G r t p \<noteq> None \<or> \<not> below (tree_map G r t) p"
  shows "fs_contents fs' p = tree_map G r t p"
proof (cases "blob_at G r t p")
  case None
  then have m: "tree_map G r t p = None" by (simp add: tree_map_def)
  obtain e where e: "gx_lookup G r t p = Inr e" using sound_treeD(1)[OF assms(3)] by blast
  have "e = None"
    using None e m assms(5) sound_treeD(4)[OF assms(3), of p]
    by (cases e) (auto simp: blob_at_def split: if_splits)
  then have "fs' = (if fs_exists p fs then snd (fs_remove_file p fs) else fs)"
    using assms(4) e by (simp add: checkout_path_def)
  then show ?thesis using fs_remove_ok[OF assms(1,2), of p] m
    by (cases "fs_files fs p") (auto simp: fs_contents_def fs_exists_def)
next
  case (Some oid)
  obtain c where c: "gx_object G r oid = Inr c" using sound_treeD(2)[OF assms(3) Some] by blast
  obtain k where k: "gx_lookup G r t p = Inr (Some (k, oid))" "k \<noteq> Kind_Tree"
    using Some by (auto simp: blob_at_def split: sum.splits option.splits if_splits)
  obtain fs1 where 1: "create_parent_dirs p fs = (Inr (), fs1)" "fs_write p c fs1 = (Inr (), fs')"
    using assms(4) c k by (auto simp: checkout_path_def map_prod_def map_sum_def split: sum.splits prod.splits)
  have "fs_contents fs' p = Some c"
    using create_parent_dirs_ok[OF assms(1,2) 1(1)] fs_write_ok[OF _ _ _ 1(2)] by blast
  then show ?thesis using Some c by (simp add: tree_map_def)
qed

lemma checkout_loop_ok:
  assumes "fs_wf fs" "fs_denied fs = {}" "checkout_loop G r t ps fs = (u, fs')"
  shows "fs_wf fs'" "fs_denied fs' = {}" "q \<notin> set ps \<Longrightarrow> fs_files fs' q = fs_files fs q"
    "sound_tree G r t \<Longrightarrow> u = Inr () \<Longrightarrow> q \<in> set ps \<Longrightarrow> tree_map G r t q \<noteq> None \<or> \<not> below (tree_map G r t) q \<Longrightarrow>
       fs_contents fs' q = tree_map G r t q"
proof -
  have "fs_wf fs' \<and> fs_denied fs' = {} \<and> (q \<notin> set ps \<longrightarrow> fs_files fs' q = fs_files fs q)
    \<and> (sound_tree G r t \<and> u = Inr () \<and> q \<in> set ps \<and> (tree_map G r t q \<noteq> None \<or> \<not> below (tree_map G r t) q) \<longrightarrow>
       fs_contents fs' q = tree_map G r t q)"
    using assms
  proof (induction ps arbitrary: fs)
    case (Cons p ps)
    obtain v fs1 where c: "checkout_path G r t p fs = (v, fs1)" by (cases "checkout_path G r t p fs")
    note f = checkout_path_frame[OF Cons.prems(1,2) c]
    show ?case
    proof (cases v)
      case (Inr x)
      then have l: "checkout_loop G r t ps fs1 = (u, fs')" using Cons.prems(3) c by simp
      note ih = Cons.IH[OF conjunct1[OF f] conjunct1[OF conjunct2[OF f]] l]
      have "sound_tree G r t \<Longrightarrow> tree_map G r t q \<noteq> None \<or> \<not> below (tree_map G r t) q \<Longrightarrow> q = p \<Longrightarrow> q \<notin> set ps \<Longrightarrow>
          fs_contents fs' q = tree_map G r t q"
        using checkout_path_effect[OF Cons.prems(1,2), of G r t p fs1] c Inr ih by (auto simp: fs_contents_def)
      then show ?thesis using ih f by auto
    qed (use Cons.prems(3) c f in auto)
  qed simp
  then show "fs_wf fs'" "fs_denied fs' = {}" "q \<notin> set ps \<Longrightarrow> fs_files fs' q = fs_files fs q"
    "sound_tree G r t \<Longrightarrow> u = Inr () \<Longrightarrow> q \<in> set ps \<Longrightarrow> tree_map G r t q \<noteq> None \<or> \<not> below (tree_map G r t) q \<Longrightarrow>
       fs_contents fs' q = tree_map G r t q" by blast+
qed

section \<open>The git backend keeps the contract\<close>

definition git_good :: "'r gix \<Rightarrow> walker \<Rightarrow> 'r git_state \<Rightarrow> bool" where
  "git_good G W s \<longleftrightarrow> gix_ok G \<and> walk_ok W \<and> fs_wf (gw_fs s) \<and> fs_denied (gw_fs s) = {}"

definition git_tracked :: "walker \<Rightarrow> 'r git_state \<Rightarrow> string \<Rightarrow> bool" where
  "git_tracked W s p \<longleftrightarrow> \<not> hidden p \<and> \<not> wk_ignored W (hidden_files (gw_fs s)) p"

lemma entries_of_walk:
  assumes W: "walk_ok W" and wf: "fs_wf fs" and e: "map fst es = filter (\<lambda>p. \<not> hidden p) (walked (wk_walk W fs))"
    and n: "\<forall>e. Inl e \<notin> set (wk_walk W fs)"
  shows "entries_ok es"
    "p \<in> fst ` set es \<longleftrightarrow> fs_files fs p \<noteq> None \<and> \<not> hidden p \<and> \<not> wk_ignored W (hidden_files fs) p"
proof -
  have fin: "finite (dom (fs_files fs))" using wf by (simp add: fs_wf_def)
  have "fst ` set es = {p. \<not> hidden p \<and> Inr (p, True) \<in> set (wk_walk W fs)}"
    using arg_cong[OF e, of set] by (auto simp: in_walked)
  moreover have "Inr (q, True) \<in> set (wk_walk W fs) \<longleftrightarrow> fs_files fs q \<noteq> None \<and> \<not> wk_ignored W (hidden_files fs) q" for q
    using W fin n unfolding walk_ok_def by metis
  ultimately show m: "p \<in> fst ` set es \<longleftrightarrow> fs_files fs p \<noteq> None \<and> \<not> hidden p \<and> \<not> wk_ignored W (hidden_files fs) p" for p
    by blast
  have "distinct (walked (wk_walk W fs))" using W fin unfolding walk_ok_def walked_def by blast
  then have "distinct (map fst es)" unfolding e by simp
  then show "entries_ok es" using m fs_wf_below[OF wf] unfolding entries_ok_def by blast
qed

lemma tree_map_of:
  assumes "tree_holds G r t es" "\<forall>p oid x. (p, oid, x) \<in> set es \<longrightarrow> \<not> hidden p \<and> (\<exists>c. f p = Some c \<and> gx_object G r oid = Inr c)"
  shows "tree_map G r t = (\<lambda>p. if p \<in> fst ` set es then f p else None)" "sound_tree G r t"
proof -
  have out: "p \<notin> fst ` set es \<Longrightarrow> blob_at G r t p = None" for p
    using assms(1) unfolding tree_holds_def blob_at_def by (fastforce split: sum.splits option.splits)
  have inn: "(p, oid, x) \<in> set es \<Longrightarrow> blob_at G r t p = Some oid" for p oid x
    using assms(1) unfolding tree_holds_def blob_at_def by fastforce
  show m: "tree_map G r t = (\<lambda>p. if p \<in> fst ` set es then f p else None)"
  proof
    fix p show "tree_map G r t p = (if p \<in> fst ` set es then f p else None)"
    proof (cases "p \<in> fst ` set es")
      case True
      then obtain oid x where e: "(p, oid, x) \<in> set es" by auto
      then obtain c where "f p = Some c" "gx_object G r oid = Inr c" using assms(2) by blast
      then show ?thesis using True inn[OF e] by (simp add: tree_map_def)
    qed (use out in \<open>simp add: tree_map_def\<close>)
  qed
  show "sound_tree G r t"
    unfolding sound_tree_def
  proof
    fix p
    show "\<exists>e. gx_lookup G r t p = Inr e \<and> (case e of None \<Rightarrow> True | Some (k, oid) \<Rightarrow>
      if k = Kind_Tree then below (tree_map G r t) p else \<not> hidden p \<and> (\<exists>c. gx_object G r oid = Inr c))"
    proof (cases "p \<in> fst ` set es")
      case True
      then obtain oid x where e: "(p, oid, x) \<in> set es" by auto
      then have "gx_lookup G r t p = Inr (Some (if x then Kind_BlobExecutable else Kind_Blob, oid))"
        using assms(1) unfolding tree_holds_def by blast
      then show ?thesis using e assms(2) by auto
    next
      case False
      then consider "gx_lookup G r t p = Inr None"
        | sub q where "gx_lookup G r t p = Inr (Some (Kind_Tree, sub))" "p @ ''/'' @ q \<in> fst ` set es"
        using assms(1) unfolding tree_holds_def by blast
      then show ?thesis
      proof cases
        case (2 sub q)
        then obtain oid x where "(p @ ''/'' @ q, oid, x) \<in> set es" by auto
        then have "f (p @ ''/'' @ q) \<noteq> None" using assms(2) by fastforce
        then have "below (tree_map G r t) p" using 2(2) unfolding below_def m by (intro exI[of _ q]) simp
        then show ?thesis using 2(1) by simp
      qed simp
    qed
  qed
qed

lemma create_snapshot_repo:
  assumes G: "gix_ok G" and W: "walk_ok W" and wf: "fs_wf (gw_fs s)" and c: "create_snapshot G W msg s = (u, s')"
  shows "gw_fs s' = gw_fs s" "grows G (gw_repo s) (gw_repo s')"
    "u = Inr i \<Longrightarrow> repo_snap G (gw_repo s') i = Some (\<lambda>p. if git_tracked W s p then fs_contents (gw_fs s) p else None)"
proof -
  obtain v0 r0 where o: "open_or_init G W (gw_repo s) = (v0, r0)" by (cases "open_or_init G W (gw_repo s)")
  obtain v1 r1 where l: "collect_entries G (gw_fs s) (wk_walk W (gw_fs s)) r0 = (v1, r1)"
    by (cases "collect_entries G (gw_fs s) (wk_walk W (gw_fs s)) r0")
  have g0: "grows G (gw_repo s) r0" by (rule open_or_init_grows[OF G o])
  have g1: "grows G (gw_repo s) r1" by (rule grows_trans[OF g0 collect_entries_ok(1)[OF G l]])
  have "gw_fs s' = gw_fs s \<and> grows G (gw_repo s) (gw_repo s') \<and> (\<forall>i. u = Inr i \<longrightarrow>
      repo_snap G (gw_repo s') i = Some (\<lambda>p. if git_tracked W s p then fs_contents (gw_fs s) p else None))"
  proof (cases "\<exists>e. v0 = Inl e \<or> v1 = Inl e")
    case True
    then show ?thesis using c o l g0 g1 unfolding create_snapshot_def by (cases v0; cases v1) auto
  next
    case False
    then obtain es where v: "v0 = Inr ()" "v1 = Inr es" by (cases v0; cases v1) auto
    obtain v2 r2 where b: "build_tree_from_entries G r1 (sort_key fst es) = (v2, r2)"
      by (cases "build_tree_from_entries G r1 (sort_key fst es)")
    note bt = build_tree_holds(1)[OF b G]
    have g2: "grows G (gw_repo s) r2" using grows_trans[OF g1] bt by blast
    note ce = collect_entries_ok(2)[OF G l v(2)]
    note ew = entries_of_walk[OF W wf conjunct1[OF ce] conjunct1[OF conjunct2[OF ce]]]
    show ?thesis
    proof (cases v2)
      case (Inl e)
      then show ?thesis using c o l v b g2 unfolding create_snapshot_def by auto
    next
      case (Inr t)
      let ?ps = "case gx_head_commit G r2 of Some c \<Rightarrow> [c] | None \<Rightarrow> []"
      show ?thesis
      proof (cases "gx_commit G r2 msg t ?ps")
        case (Inl e)
        then show ?thesis using c o l v b g2 \<open>v2 = Inr t\<close> unfolding create_snapshot_def by auto
      next
        case (Inr cr)
        then obtain cid r3 where k: "gx_commit G r2 msg t ?ps = Inr (cid, r3)" by (cases cr) auto
        note gc = gix_commit[OF G k]
        have s': "u = Inr cid" "s' = s\<lparr>gw_repo := r3\<rparr>"
          using c o l v b k \<open>v2 = Inr t\<close> unfolding create_snapshot_def by auto
        have "entries_ok (sort_key fst es)" using ew(1) by (simp add: entries_ok_def distinct_map)
        then have "tree_holds G r2 t (sort_key fst es)" using bt \<open>v2 = Inr t\<close> by simp
        then have th: "tree_holds G r3 t (sort_key fst es)" by (rule tree_holds_grows[OF conjunct1[OF gc]])
        have obj: "\<forall>p oid x. (p, oid, x) \<in> set (sort_key fst es) \<longrightarrow>
            \<not> hidden p \<and> (\<exists>c. fs_contents (gw_fs s) p = Some c \<and> gx_object G r3 oid = Inr c)"
        proof (intro allI impI)
          fix p oid x assume "(p, oid, x) \<in> set (sort_key fst es)"
          then have p: "(p, oid, x) \<in> set es" by simp
          then obtain c where c: "fs_files (gw_fs s) p = Some (c, x)" "gx_object G r1 oid = Inr c" using ce by blast
          then have "gx_object G r3 oid = Inr c" using bt gc by (simp add: grows_def)
          moreover have "\<not> hidden p" using ew(2)[of p] p by (auto simp: in_fst_image)
          ultimately show "\<not> hidden p \<and> (\<exists>c. fs_contents (gw_fs s) p = Some c \<and> gx_object G r3 oid = Inr c)"
            using c by (simp add: fs_contents_def)
        qed
        note tm = tree_map_of[OF th obj]
        have "tree_map G r3 t = (\<lambda>p. if git_tracked W s p then fs_contents (gw_fs s) p else None)"
          unfolding tm(1) set_sort ew(2) by (rule ext, case_tac "fs_files (gw_fs s) p") (simp_all add: git_tracked_def fs_contents_def)
        then have "repo_snap G r3 cid = Some (\<lambda>p. if git_tracked W s p then fs_contents (gw_fs s) p else None)"
          using gc tm(2) by (simp add: repo_snap_def)
        moreover have "grows G (gw_repo s) r3" using grows_trans[OF g2] gc by blast
        ultimately show ?thesis using s' by simp
      qed
    qed
  qed
  then show "gw_fs s' = gw_fs s" "grows G (gw_repo s) (gw_repo s')"
    "u = Inr i \<Longrightarrow> repo_snap G (gw_repo s') i = Some (\<lambda>p. if git_tracked W s p then fs_contents (gw_fs s) p else None)"
    by auto
qed

lemma git_tracked_frame:
  assumes "\<And>q. q \<notin> set ps \<Longrightarrow> fs_files (gw_fs s') q = fs_files (gw_fs s) q" "\<forall>p\<in>set ps. \<not> hidden p"
  shows "git_tracked W s' = git_tracked W s"
proof -
  have "hidden_files (gw_fs s') = hidden_files (gw_fs s)"
    unfolding hidden_files_def using assms by (intro ext) (auto simp: restrict_map_def)
  then show ?thesis by (auto simp: git_tracked_def)
qed

lemma repo_snap_SomeE:
  assumes "repo_snap G r i = Some m"
  obtains t where "gx_from_hex G i" "gx_find_commit G r i = Inr ()" "gx_commit_tree G r i = Inr t" "sound_tree G r t"
    "m = tree_map G r t"
  using assms by (auto simp: repo_snap_def split: if_splits sum.splits)

lemma diff_commits_ok:
  assumes G: "gix_ok G" and d: "diff_commits G r a b = Inr ps"
    and a: "repo_snap G r a = Some m" and b: "repo_snap G r b = Some m'"
  shows "(may_rename m m' \<or> {p. m p \<noteq> m' p} \<subseteq> set ps) \<and> set ps \<subseteq> dom m \<union> dom m'"
proof -
  obtain ta where ta: "gx_from_hex G a" "gx_find_commit G r a = Inr ()" "gx_commit_tree G r a = Inr ta" "sound_tree G r ta"
      "m = tree_map G r ta" by (rule repo_snap_SomeE[OF a])
  obtain tb where tb: "gx_from_hex G b" "gx_find_commit G r b = Inr ()" "gx_commit_tree G r b = Inr tb" "sound_tree G r tb"
      "m' = tree_map G r tb" by (rule repo_snap_SomeE[OF b])
  obtain cs where cs: "gx_diff G r ta tb = Inr cs" "ps = List.map_filter (\<lambda>(is_tree, loc). if is_tree then None else loc) cs"
    using d ta tb by (auto simp: diff_commits_def split: sum.splits)
  have law: "(\<forall>p. blob_at G r ta p \<noteq> blob_at G r tb p \<longrightarrow> (False, Some p) \<in> set cs \<or>
         blob_at G r tb p = None \<and> (\<exists>q. blob_at G r ta q = None \<and> blob_at G r tb q \<noteq> None \<and> (False, Some q) \<in> set cs)) \<and>
      (\<forall>p. (False, Some p) \<in> set cs \<longrightarrow> blob_at G r ta p \<noteq> None \<or> blob_at G r tb p \<noteq> None)"
    using G cs(1) by (simp add: gix_ok_def)
  have ps: "p \<in> set ps \<longleftrightarrow> (False, Some p) \<in> set cs" for p
    unfolding cs(2) by (induction cs) (auto simp: List.map_filter_simps split: option.splits if_splits)
  have dom: "blob_at G r t p \<noteq> None \<Longrightarrow> sound_tree G r t \<Longrightarrow> tree_map G r t p \<noteq> None" for t p
    using sound_treeD(2)[of G r t p] by (fastforce simp: tree_map_def)
  have none: "blob_at G r t p = None \<Longrightarrow> tree_map G r t p = None" for t p by (simp add: tree_map_def)
  have "may_rename m m' \<or> p \<in> set ps" if "m p \<noteq> m' p" for p
  proof -
    have ne: "blob_at G r ta p \<noteq> blob_at G r tb p" using that unfolding ta(5) tb(5) by (metis tree_map_def)
    consider "(False, Some p) \<in> set cs" | q where "blob_at G r tb p = None" "blob_at G r ta q = None" "blob_at G r tb q \<noteq> None"
      using conjunct1[OF law, rule_format, OF ne] by blast
    then show ?thesis
    proof cases
      case 2
      then have "m' p = None" "m p \<noteq> None" "m q = None" "m' q \<noteq> None"
        using none dom[OF _ ta(4)] dom[OF _ tb(4)] ne unfolding ta(5) tb(5) by metis+
      then show ?thesis by (auto simp: may_rename_def)
    qed (simp add: ps)
  qed
  then have "may_rename m m' \<or> {p. m p \<noteq> m' p} \<subseteq> set ps" by blast
  moreover have "p \<in> set ps \<Longrightarrow> p \<in> dom m \<union> dom m'" for p
    using law dom[OF _ ta(4)] dom[OF _ tb(4)] unfolding ps ta(5) tb(5) by blast
  ultimately show ?thesis by (simp add: subset_iff)
qed

lemma git_restore_ok:
  assumes good: "git_good G W s" and pl: "\<forall>p\<in>set ps. \<not> hidden p" and r: "git_restore_paths G W s i ps = (u, s')"
  shows "git_good G W s' \<and> git_tracked W s' = git_tracked W s
    \<and> (\<forall>j m. repo_snap G (gw_repo s) j = Some m \<longrightarrow> repo_snap G (gw_repo s') j = Some m)
    \<and> (\<forall>p. p \<notin> set ps \<longrightarrow> fs_contents (gw_fs s') p = fs_contents (gw_fs s) p)
    \<and> (\<forall>m. u = Inr () \<and> repo_snap G (gw_repo s) i = Some m \<longrightarrow>
         (\<forall>p\<in>set ps. (m p \<noteq> None \<or> \<not> below m p) \<longrightarrow> fs_contents (gw_fs s') p = m p))"
proof -
  have G: "gix_ok G" "fs_wf (gw_fs s)" "fs_denied (gw_fs s) = {}" using good by (auto simp: git_good_def)
  obtain v r0 where o: "open_or_init G W (gw_repo s) = (v, r0)" by (cases "open_or_init G W (gw_repo s)")
  have gr: "grows G (gw_repo s) r0" by (rule open_or_init_grows[OF G(1) o])
  note pers = repo_snap_grows[OF gr]
  show ?thesis
  proof (cases v)
    case (Inl e)
    then show ?thesis using r o pers good
      by (auto simp: git_restore_paths_def git_good_def git_tracked_def)
  next
    case (Inr w)
    show ?thesis
    proof (cases "tree_of_commit G r0 ''commit '' ''tree'' i")
      case (Inl e)
      have s': "u = Inl e" "gw_fs s' = gw_fs s" "gw_repo s' = r0"
        using r o \<open>v = Inr w\<close> Inl by (auto simp: git_restore_paths_def checkout_paths_def)
      then show ?thesis using pers good by (auto simp: git_good_def git_tracked_def)
    next
      case (Inr t)
      obtain fs' where l: "checkout_loop G r0 t ps (gw_fs s) = (u, fs')" and s': "gw_fs s' = fs'" "gw_repo s' = r0"
        using r o \<open>v = Inr w\<close> Inr by (auto simp: git_restore_paths_def checkout_paths_def split: prod.splits)
      note c = checkout_loop_ok[OF G(2,3) l]
      have "git_tracked W s' = git_tracked W s" using c(3) pl s' by (intro git_tracked_frame) auto
      moreover have "\<forall>p\<in>set ps. (m p \<noteq> None \<or> \<not> below m p) \<longrightarrow> fs_contents fs' p = m p"
        if uo: "u = Inr ()" and sn: "repo_snap G (gw_repo s) i = Some m" for m
      proof -
        obtain t' where "gx_from_hex G i" "gx_find_commit G r0 i = Inr ()" "gx_commit_tree G r0 i = Inr t'" "sound_tree G r0 t'"
            "m = tree_map G r0 t'" by (rule repo_snap_SomeE[OF pers[OF sn]])
        moreover from this have "t' = t" using Inr by (simp add: tree_of_commit_def)
        ultimately show ?thesis using c(4) uo by auto
      qed
      ultimately show ?thesis using c(1,2,3) pers good s' by (auto simp: git_good_def fs_contents_def)
    qed
  qed
qed

interpretation gb: snapshot_backend "git_backend G W" "git_good G W" "\<lambda>s. fs_contents (gw_fs s)" "git_tracked W"
    "\<lambda>p. \<not> hidden p" "\<lambda>s. repo_snap G (gw_repo s)" for G W
proof (unfold_locales, goal_cases)
  case (1 s p q)
  then show ?case using fs_wf_below[of "gw_fs s" p q] by (auto simp: git_good_def fs_contents_def)
next
  case (2 s i m p)
  then show ?case using sound_treeD(3) by (fastforce elim!: repo_snap_SomeE simp: tree_map_def split: option.splits)
next
  case (3 s r s')
  have c: "create_snapshot G W ''snapshot'' s = (r, s')" using 3(2) by (simp add: git_backend_def git_track_def)
  have g: "gix_ok G" "walk_ok W" "fs_wf (gw_fs s)" using 3(1) by (auto simp: git_good_def)
  note cs = create_snapshot_repo[OF g c]
  have "git_good G W s'" using 3(1) cs(1) by (simp add: git_good_def)
  moreover have "git_tracked W s' = git_tracked W s" by (simp add: git_tracked_def cs(1) fun_eq_iff)
  ultimately show ?case using cs(1,3) repo_snap_grows[OF cs(2)] by auto
next
  case (4 s a b d s')
  obtain v r0 where o: "open_or_init G W (gw_repo s) = (v, r0)" by (cases "open_or_init G W (gw_repo s)")
  have G: "gix_ok G" using 4(1) by (simp add: git_good_def)
  have gr: "grows G (gw_repo s) r0" by (rule open_or_init_grows[OF G o])
  have s': "s' = s\<lparr>gw_repo := r0\<rparr>" "\<forall>ps. d = Inr ps \<longrightarrow> diff_commits G r0 a b = Inr ps"
    using 4(2) o by (auto simp: git_backend_def git_diff_def split: sum.splits)
  have pers: "\<forall>i m. repo_snap G (gw_repo s) i = Some m \<longrightarrow> repo_snap G r0 i = Some m" using repo_snap_grows[OF gr] by blast
  then have "\<forall>ps m m'. d = Inr ps \<and> repo_snap G (gw_repo s) a = Some m \<and> repo_snap G (gw_repo s) b = Some m' \<longrightarrow>
      (may_rename m m' \<or> {p. m p \<noteq> m' p} \<subseteq> set ps) \<and> set ps \<subseteq> dom m \<union> dom m'"
    using s'(2) by (intro allI impI diff_commits_ok[OF G, of r0 a b]) auto
  moreover have "git_good G W s'" "git_tracked W s' = git_tracked W s" "gw_fs s' = gw_fs s" "gw_repo s' = r0"
    using 4(1) s'(1) by (auto simp: git_good_def git_tracked_def fun_eq_iff)
  ultimately show ?case using pers by simp
next
  case (5 s ps i u s')
  then show ?case using git_restore_ok[OF 5(1,2), of i u s'] by (simp add: git_backend_def)
qed

end
