(* ===== verification/Mem_Git.thy ===== *)
theory Mem_Git
  imports Snapshot
begin

text \<open>
  An object store in memory and a walk over the files of a working directory that meet the hypotheses
  \<^const>\<open>gix_ok\<close> and \<^const>\<open>walk_ok\<close> of the snapshot backend: the libraries they stand for can behave as documented.
  The store is a list of objects, the newest first; an object is named by the number of objects before it.
\<close>

datatype mem_object = Mem_Blob string | Mem_Tree "tree_entry list" | Mem_Commit string

type_synonym mem_store = "mem_object list"

definition mem_id :: "nat \<Rightarrow> string" where
  "mem_id n = replicate n CHR ''0''"

lemma mem_id_eq [simp]: "mem_id m = mem_id n \<longleftrightarrow> m = n"
  by (metis length_replicate mem_id_def)

fun mem_find :: "mem_store \<Rightarrow> string \<Rightarrow> mem_object option" where
  "mem_find [] i = None"
| "mem_find (x # r) i = (if i = mem_id (length r) then Some x else mem_find r i)"

fun mem_lookup :: "mem_store \<Rightarrow> string \<Rightarrow> string \<Rightarrow> string + (entry_kind \<times> string) option" where
  "mem_lookup [] t p = Inl ''missing object''"
| "mem_lookup (x # r) t p =
    (if t = mem_id (length r)
     then (case x of
         Mem_Tree es \<Rightarrow> (case split_dir p of
             None \<Rightarrow> Inr (find_entry es p)
           | Some (d, rest) \<Rightarrow> (case find_entry es d of
               Some (k, oid) \<Rightarrow> if k = Kind_Tree then mem_lookup r oid rest else Inr None
             | None \<Rightarrow> Inr None))
       | _ \<Rightarrow> Inl ''not a tree'')
     else mem_lookup r t p)"

fun mem_paths :: "mem_store \<Rightarrow> string \<Rightarrow> string list" where
  "mem_paths [] t = []"
| "mem_paths (x # r) t =
    (if t = mem_id (length r)
     then (case x of
         Mem_Tree es \<Rightarrow> concat (map (\<lambda>e. if te_kind e = Kind_Tree then map (\<lambda>q. te_filename e @ ''/'' @ q) (mem_paths r (te_oid e))
           else [te_filename e]) es)
       | _ \<Rightarrow> [])
     else mem_paths r t)"

definition mem_blob_at :: "mem_store \<Rightarrow> string \<Rightarrow> string \<Rightarrow> string option" where
  "mem_blob_at r t p = (case mem_lookup r t p of
     Inr (Some (k, oid)) \<Rightarrow> if k = Kind_Tree then None else Some oid | _ \<Rightarrow> None)"

text \<open>A removed file with the content of an added one is reported as the latter only, as a rename.\<close>

definition mem_renamed :: "mem_store \<Rightarrow> string \<Rightarrow> string \<Rightarrow> string \<Rightarrow> bool" where
  "mem_renamed r a b p = (mem_blob_at r b p = None \<and> (\<exists>q\<in>set (mem_paths r b). mem_blob_at r a q = None \<and>
     mem_blob_at r b q \<noteq> None \<and> Option.bind (mem_blob_at r b q) (mem_find r) = Option.bind (mem_blob_at r a p) (mem_find r)))"

definition mem_diff :: "mem_store \<Rightarrow> string \<Rightarrow> string \<Rightarrow> string list" where
  "mem_diff r a b = filter (\<lambda>p. mem_blob_at r a p \<noteq> mem_blob_at r b p \<and> \<not> mem_renamed r a b p) (mem_paths r a @ mem_paths r b)"

definition mem_head :: "mem_store \<Rightarrow> string option" where
  "mem_head r = first_defined (\<lambda>(n, x). case x of Mem_Commit _ \<Rightarrow> Some (mem_id n) | _ \<Rightarrow> None) (rev (List.enumerate 0 (rev r)))"

definition mem_git :: "mem_store gix" where
  "mem_git = \<lparr>gx_cache_dir = Some ''/cache'', gx_head_exists = (\<lambda>_. True), gx_create_dir = Inr, gx_init_bare = Inr,
     gx_write_worktree_path = Inr, gx_read_config = (\<lambda>_. Inr []), gx_write_config = (\<lambda>_. Inr), gx_open = Inr,
     gx_write_blob = (\<lambda>r c. Inr (mem_id (length r), Mem_Blob c # r)),
     gx_write_tree = (\<lambda>r es. if mem_id (length r) \<in> te_oid ` set es then Inl ''missing object''
        else Inr (mem_id (length r), Mem_Tree es # r)),
     gx_sort_entries = id,
     gx_head_commit = mem_head,
     gx_commit = (\<lambda>r m t ps. Inr (mem_id (length r), Mem_Commit t # r)),
     gx_from_hex = (\<lambda>_. True),
     gx_find_commit = (\<lambda>r i. case mem_find r i of Some (Mem_Commit _) \<Rightarrow> Inr () | _ \<Rightarrow> Inl ''missing object''),
     gx_commit_tree = (\<lambda>r i. case mem_find r i of Some (Mem_Commit t) \<Rightarrow> Inr t | _ \<Rightarrow> Inl ''missing object''),
     gx_lookup = mem_lookup,
     gx_object = (\<lambda>r i. case mem_find r i of Some (Mem_Blob c) \<Rightarrow> Inr c | _ \<Rightarrow> Inl ''missing object''),
     gx_diff = (\<lambda>r a b. Inr (map (\<lambda>p. (False, Some p)) (mem_diff r a b)))\<rparr>"

lemma mem_find_bound: "mem_find r i = Some x \<Longrightarrow> \<exists>n<length r. i = mem_id n"
  by (induction r) (auto split: if_splits intro: less_SucI)

lemma mem_lookup_bound: "mem_lookup r t p = Inr e \<Longrightarrow> \<exists>n<length r. t = mem_id n"
  by (induction r) (auto split: if_splits intro: less_SucI)

lemma mem_find_Cons: "mem_find r i = Some x \<Longrightarrow> mem_find (y # r) i = Some x"
  using mem_find_bound[of r i x] by auto

lemma mem_lookup_Cons: "mem_lookup r t p = Inr e \<Longrightarrow> mem_lookup (y # r) t p = Inr e"
  using mem_lookup_bound[of r t p e] by auto

lemma mem_grows: "grows mem_git r (y # r)"
  using mem_find_Cons[of r _ _ y] mem_lookup_Cons[of r _ _ _ y]
  by (auto simp: grows_def mem_git_def simp del: mem_find.simps mem_lookup.simps
      split: option.splits mem_object.splits)

lemma mem_paths_complete: "mem_blob_at r t p \<noteq> None \<Longrightarrow> p \<in> set (mem_paths r t)"
proof (induction r arbitrary: t p)
  case (Cons x r)
  show ?case
  proof (cases "t = mem_id (length r)")
    case t: True
    then obtain es where x: "x = Mem_Tree es" using Cons.prems by (cases x) (auto simp: mem_blob_at_def)
    have mem: "\<exists>e\<in>set es. te_filename e = n \<and> te_kind e = k \<and> te_oid e = i" if "find_entry es n = Some (k, i)" for n k i
      using that by (auto simp: find_entry_def find_Some_iff)
    show ?thesis
    proof (cases "split_dir p")
      case None
      then obtain k i where "find_entry es p = Some (k, i)" "k \<noteq> Kind_Tree"
        using Cons.prems t x by (auto simp: mem_blob_at_def split: option.splits if_splits)
      then show ?thesis using mem[of p k i] t x by force
    next
      case (Some dr)
      then obtain d rest where s: "split_dir p = Some (d, rest)" by (cases dr) auto
      then have p: "p = d @ ''/'' @ rest" using split_dir_Some by blast
      obtain i where i: "find_entry es d = Some (Kind_Tree, i)" "mem_blob_at r i rest \<noteq> None"
        using Cons.prems t x s by (auto simp: mem_blob_at_def split: option.splits if_splits)
      obtain e where "e \<in> set es" "te_filename e = d" "te_kind e = Kind_Tree" "te_oid e = i" using mem[OF i(1)] by blast
      then show ?thesis using Cons.IH[OF i(2)] t x p by force
    qed
  next
    case False
    then show ?thesis using Cons by (simp add: mem_blob_at_def)
  qed
qed (simp add: mem_blob_at_def)

lemma mem_blob_at: "blob_at mem_git r t p = mem_blob_at r t p"
  by (simp add: blob_at_def mem_blob_at_def mem_git_def)

lemma mem_changed_path:
  assumes "mem_blob_at r a p \<noteq> mem_blob_at r b p"
  shows "p \<in> set (mem_paths r a @ mem_paths r b)"
proof (cases "mem_blob_at r a p")
  case None
  then have "mem_blob_at r b p \<noteq> None" using assms by metis
  then show ?thesis using mem_paths_complete[of r b p] by simp
qed (use mem_paths_complete[of r a p] in simp)

lemma mem_diff_complete:
  assumes "mem_blob_at r a p \<noteq> mem_blob_at r b p"
  shows "p \<in> set (mem_diff r a b) \<or> mem_blob_at r b p = None \<and>
    (\<exists>q. mem_blob_at r a q = None \<and> mem_blob_at r b q \<noteq> None \<and> q \<in> set (mem_diff r a b))"
proof (cases "mem_renamed r a b p")
  case True
  then obtain q where q: "mem_blob_at r b p = None" "mem_blob_at r a q = None" "mem_blob_at r b q \<noteq> None"
    by (auto simp: mem_renamed_def)
  have ne: "mem_blob_at r a q \<noteq> mem_blob_at r b q" using q(2,3) by auto
  have "\<not> mem_renamed r a b q" using q(3) by (auto simp: mem_renamed_def)
  then have "q \<in> set (mem_diff r a b)" using mem_changed_path[OF ne] ne by (simp add: mem_diff_def)
  then show ?thesis using q by blast
next
  case False
  then show ?thesis using mem_changed_path[OF assms] assms by (simp add: mem_diff_def)
qed

lemma mem_diff_sound: "p \<in> set (mem_diff r a b) \<Longrightarrow> mem_blob_at r a p \<noteq> None \<or> mem_blob_at r b p \<noteq> None"
  by (auto simp: mem_diff_def)

lemma mem_tree_lookup:
  assumes "mem_id (length r) \<notin> te_oid ` set es"
  shows "mem_lookup (Mem_Tree es # r) (mem_id (length r)) p = (case split_dir p of
      None \<Rightarrow> Inr (find_entry es p)
    | Some (d, rest) \<Rightarrow> (case find_entry es d of
        Some (k, oid) \<Rightarrow> if k = Kind_Tree then mem_lookup (Mem_Tree es # r) oid rest else Inr None
      | None \<Rightarrow> Inr None))"
proof -
  have "oid \<noteq> mem_id (length r)" if "find_entry es d = Some (k, oid)" for d k oid
    using that assms by (auto simp: find_entry_def find_Some_iff) (metis image_eqI nth_mem)
  then show ?thesis by (auto split: option.splits)
qed

theorem mem_git_ok: "gix_ok mem_git"
proof -
  have 1: "\<forall>r r'. gx_create_dir mem_git r = Inr r' \<or> gx_init_bare mem_git r = Inr r' \<or> gx_write_worktree_path mem_git r = Inr r'
        \<or> gx_open mem_git r = Inr r' \<or> (\<exists>c. gx_write_config mem_git c r = Inr r') \<longrightarrow> grows mem_git r r'"
    by (auto simp: mem_git_def)
  have 2: "\<forall>r c oid r'. gx_write_blob mem_git r c = Inr (oid, r') \<longrightarrow> grows mem_git r r' \<and> gx_object mem_git r' oid = Inr c"
    using mem_grows by (auto simp: mem_git_def)
  have 3: "\<forall>r es t r'. gx_write_tree mem_git r es = Inr (t, r') \<longrightarrow> grows mem_git r r' \<and>
        (distinct (map te_filename es) \<longrightarrow> (\<forall>p. gx_lookup mem_git r' t p = (case split_dir p of
            None \<Rightarrow> Inr (find_entry es p)
          | Some (d, rest) \<Rightarrow> (case find_entry es d of
               Some (k, oid) \<Rightarrow> if k = Kind_Tree then gx_lookup mem_git r' oid rest else Inr None
             | None \<Rightarrow> Inr None))))"
  proof (intro allI impI)
    fix r es t r' assume "gx_write_tree mem_git r es = Inr (t, r')"
    then have t: "mem_id (length r) \<notin> te_oid ` set es" "t = mem_id (length r)" "r' = Mem_Tree es # r"
      by (auto simp: mem_git_def split: if_splits)
    have l: "gx_lookup mem_git = mem_lookup" by (simp add: mem_git_def)
    show "grows mem_git r r' \<and> (distinct (map te_filename es) \<longrightarrow> (\<forall>p. gx_lookup mem_git r' t p = (case split_dir p of
            None \<Rightarrow> Inr (find_entry es p)
          | Some (d, rest) \<Rightarrow> (case find_entry es d of
               Some (k, oid) \<Rightarrow> if k = Kind_Tree then gx_lookup mem_git r' oid rest else Inr None
             | None \<Rightarrow> Inr None))))"
      using mem_tree_lookup[OF t(1)] mem_grows unfolding l t(2,3) by blast
  qed
  have 4: "\<forall>es. mset (gx_sort_entries mem_git es) = mset es" by (simp add: mem_git_def)
  have 5: "\<forall>r m t ps c r'. gx_commit mem_git r m t ps = Inr (c, r') \<longrightarrow> grows mem_git r r' \<and> gx_from_hex mem_git c
        \<and> gx_find_commit mem_git r' c = Inr () \<and> gx_commit_tree mem_git r' c = Inr t"
    using mem_grows by (auto simp: mem_git_def)
  have 6: "\<forall>r a b cs. gx_diff mem_git r a b = Inr cs \<longrightarrow>
        (\<forall>p. blob_at mem_git r a p \<noteq> blob_at mem_git r b p \<longrightarrow> (False, Some p) \<in> set cs \<or> blob_at mem_git r b p = None \<and>
           (\<exists>q. blob_at mem_git r a q = None \<and> blob_at mem_git r b q \<noteq> None \<and> (False, Some q) \<in> set cs)) \<and>
        (\<forall>p. (False, Some p) \<in> set cs \<longrightarrow> blob_at mem_git r a p \<noteq> None \<or> blob_at mem_git r b p \<noteq> None)"
  proof (intro allI impI)
    fix r a b cs assume "gx_diff mem_git r a b = Inr cs"
    then have cs: "cs = map (\<lambda>p. (False, Some p)) (mem_diff r a b)" by (simp add: mem_git_def)
    show "(\<forall>p. blob_at mem_git r a p \<noteq> blob_at mem_git r b p \<longrightarrow> (False, Some p) \<in> set cs \<or> blob_at mem_git r b p = None \<and>
           (\<exists>q. blob_at mem_git r a q = None \<and> blob_at mem_git r b q \<noteq> None \<and> (False, Some q) \<in> set cs)) \<and>
        (\<forall>p. (False, Some p) \<in> set cs \<longrightarrow> blob_at mem_git r a p \<noteq> None \<or> blob_at mem_git r b p \<noteq> None)"
      using mem_diff_complete[of r a _ b] mem_diff_sound[of _ r a b] unfolding mem_blob_at cs by (auto simp: image_iff)
  qed
  show ?thesis unfolding gix_ok_def by (intro conjI 1 2 3 4 5 6)
qed

definition plain_walker :: walker where
  "plain_walker = \<lparr>wk_hash = (\<lambda>_. 0), wk_worktree = ''/w'', wk_root = ''/w'',
     wk_walk = (\<lambda>fs. map (\<lambda>p. Inr (p, True)) (sorted_list_of_set (dom (fs_files fs)))), wk_ignored = (\<lambda>_ _. False)\<rparr>"

theorem plain_walker_ok: "walk_ok plain_walker"
proof -
  have "List.map_filter (\<lambda>w :: string + (string \<times> bool). case w of Inr (p, True) \<Rightarrow> Some p | _ \<Rightarrow> None) (map (\<lambda>p. Inr (p, True)) ps) = ps" for ps :: "string list"
    by (induction ps) (auto simp: List.map_filter_def)
  then show ?thesis by (auto simp: walk_ok_def plain_walker_def dom_def)
qed

end
