(* ===== verification/Undo.thy ===== *)
theory Undo
  imports Session_Store Mem_Git
begin

text \<open>
  Undo and redo (\<^verbatim>\<open>crates/agent/src/agent/undo.rs\<close>) over the session store and a snapshot backend, with the
  handlers of the session actor that call them and the snapshots it records around a turn
  (\<^verbatim>\<open>agent/session_actor.rs\<close>). The state is the backend's and the tables of the store; identifiers and times
  that the code generates are arguments. An error that is printed into a message is kept as the error.
\<close>

section \<open>Errors and results\<close>

datatype undo_error =
    NoSnapshotBackend | NoWorkingDirectory | Undo_Snapshot string | Undo_Store string session_error
  | MessageNotFound string | NothingToRedo | ActorSend string | Undo_Other string

definition undo_error_of_snapshot :: "snapshot_error \<Rightarrow> undo_error" where
  "undo_error_of_snapshot e = Undo_Snapshot (snapshot_error_display e)"

record undo_result =
  ur_reverted_files :: "string list"
  ur_message_id :: string

text \<open>Of the events in the journal only \<^verbatim>\<open>PromptReceived\<close> is looked at.\<close>

datatype 'x journal_event = PromptReceived string "string option" | OtherEvent 'x

section \<open>The patches to undo\<close>

fun position :: "('a \<Rightarrow> bool) \<Rightarrow> 'a list \<Rightarrow> nat option" where
  "position P [] = None"
| "position P (x # xs) = (if P x then Some 0 else map_option Suc (position P xs))"

type_synonym turn_patch = "string \<times> string \<times> string list"   \<comment> \<open>turn, snapshot before it and changed paths\<close>

definition record_starts :: "('f, 'b) agent_message list \<Rightarrow> (string \<rightharpoonup> string) \<Rightarrow> (string \<rightharpoonup> string)" where
  "record_starts msgs pre = fold (\<lambda>p m. case p of Part_TurnSnapshotStart t i \<Rightarrow> m(t \<mapsto> i) | _ \<Rightarrow> m)
     (concat (map am_parts msgs)) pre"

definition patches_in :: "(string \<rightharpoonup> string) \<Rightarrow> ('f, 'b) agent_message list \<Rightarrow> turn_patch list" where
  "patches_in pre msgs = List.map_filter (\<lambda>p. case p of
     Part_TurnSnapshotPatch t _ paths \<Rightarrow> map_option (\<lambda>i. (t, i, paths)) (pre t) | _ \<Rightarrow> None) (concat (map am_parts msgs))"

text \<open>The session itself is scanned after the target message, every child session from its beginning; a child
  whose history cannot be read is skipped.\<close>

fun scan_sessions ::
    "('f, 'b, 'e) store_codec \<Rightarrow> string \<Rightarrow> ('f, 'b) agent_message list \<Rightarrow> session_db \<Rightarrow> string list
     \<Rightarrow> (string \<rightharpoonup> string) \<Rightarrow> turn_patch list" where
  "scan_sessions C sid after db [] pre = []"
| "scan_sessions C sid after db (s # ss) pre =
    (case (if s = sid then Inr after else get_history C s db) of
       Inl _ \<Rightarrow> scan_sessions C sid after db ss pre
     | Inr msgs \<Rightarrow>
         let pre' = record_starts msgs pre in patches_in pre' msgs @ scan_sessions C sid after db ss pre')"

definition undo_patches ::
    "('f, 'b, 'e) store_codec \<Rightarrow> string \<Rightarrow> ('f, 'b) agent_message list \<Rightarrow> session_db \<Rightarrow> turn_patch list" where
  "undo_patches C sid after db =
    scan_sessions C sid after db (sid # (case list_child_sessions sid db of Inr cs \<Rightarrow> cs | Inl _ \<Rightarrow> [])) Map.empty"

section \<open>Undo\<close>

fun restore_patches :: "'s snapshot_backend_ops \<Rightarrow> turn_patch list \<Rightarrow> 's \<Rightarrow> string list \<times> 's" where
  "restore_patches B [] s = ([], s)"
| "restore_patches B ((t, i, paths) # ps) s =
    (case sb_restore_paths B s i paths of
       (Inl _, s1) \<Rightarrow> restore_patches B ps s1
     | (Inr _, s1) \<Rightarrow> (case restore_patches B ps s1 of (fs, s2) \<Rightarrow> (paths @ fs, s2)))"

text \<open>Without patches: back to the first snapshot that the target message records.\<close>

fun fallback_restore :: "'s snapshot_backend_ops \<Rightarrow> ('f, 'b) message_part list \<Rightarrow> 's \<Rightarrow> (undo_error + string list) \<times> 's" where
  "fallback_restore B [] s = (Inr [], s)"
| "fallback_restore B (Part_TurnSnapshotPatch t i paths # ps) s =
    (case sb_track B s of (Inl e, s1) \<Rightarrow> (Inl (undo_error_of_snapshot e), s1) | (Inr cur, s1) \<Rightarrow>
     case sb_diff B s1 cur i of (Inl e, s2) \<Rightarrow> (Inl (undo_error_of_snapshot e), s2) | (Inr changed, s2) \<Rightarrow>
     if changed = [] then (Inr [], s2)
     else case sb_restore_paths B s2 i changed of
         (Inl e, s3) \<Rightarrow> (Inl (undo_error_of_snapshot e), s3)
       | (Inr _, s3) \<Rightarrow> (Inr changed, s3))"
| "fallback_restore B (_ # ps) s = fallback_restore B ps s"

definition undo_impl ::
    "'s snapshot_backend_ops \<Rightarrow> ('f, 'b, 'e) store_codec \<Rightarrow> string \<Rightarrow> int \<Rightarrow> string \<Rightarrow> string \<Rightarrow> 's \<Rightarrow> session_db
     \<Rightarrow> (undo_error + undo_result) \<times> 's \<times> session_db" where
  "undo_impl B C uuid now sid mid s db =
    (case sb_track B s of (Inl e, s1) \<Rightarrow> (Inl (undo_error_of_snapshot e), s1, db) | (Inr pre, s1) \<Rightarrow>
     case get_history C sid db of Inl e \<Rightarrow> (Inl (Undo_Store ''Failed to get history: '' e), s1, db) | Inr h \<Rightarrow>
     case position (\<lambda>m. am_id m = mid) h of None \<Rightarrow> (Inl (MessageNotFound mid), s1, db) | Some k \<Rightarrow>
     let patches = undo_patches C sid (drop (Suc k) h) db in
     case restore_patches B (rev patches) s1 of (reverted, s2) \<Rightarrow>
     case (if patches = [] then fallback_restore B (am_parts (h ! k)) s2 else (Inr [], s2)) of
       (Inl e, s3) \<Rightarrow> (Inl e, s3, db)
     | (Inr extra, s3) \<Rightarrow>
       (case push_revert_state C now sid \<lparr>rs_public_id = uuid, rs_session_id = sid, rs_message_id = mid,
               rs_snapshot_id = pre, rs_backend_id = ''git'', rs_created_at = now\<rparr> db of
          (Inl e, db1) \<Rightarrow> (Inl (Undo_Store ''Failed to store revert state: '' e), s3, db1)
        | (Inr _, db1) \<Rightarrow> (Inr \<lparr>ur_reverted_files = reverted @ extra, ur_message_id = mid\<rparr>, s3, db1)))"

section \<open>Redo\<close>

text \<open>The result \<open>Inr restored\<close>; it is true whenever there is no error.\<close>

definition redo_impl ::
    "'s snapshot_backend_ops \<Rightarrow> ('f, 'b, 'e) store_codec \<Rightarrow> int \<Rightarrow> string \<Rightarrow> 's \<Rightarrow> session_db
     \<Rightarrow> (undo_error + bool) \<times> 's \<times> session_db" where
  "redo_impl B C now sid s db =
    (case peek_revert_state C now sid db of
       Inl e \<Rightarrow> (Inl (Undo_Store ''Failed to get revert state: '' e), s, db)
     | Inr None \<Rightarrow> (Inl NothingToRedo, s, db)
     | Inr (Some st) \<Rightarrow>
       (case sb_track B s of (Inl e, s1) \<Rightarrow> (Inl (undo_error_of_snapshot e), s1, db) | (Inr cur, s1) \<Rightarrow>
        case sb_diff B s1 cur (rs_snapshot_id st) of (Inl e, s2) \<Rightarrow> (Inl (undo_error_of_snapshot e), s2, db) | (Inr changed, s2) \<Rightarrow>
        case (if changed = [] then (Inr (), s2) else sb_restore_paths B s2 (rs_snapshot_id st) changed) of
          (Inl e, s3) \<Rightarrow> (Inl (undo_error_of_snapshot e), s3, db)
        | (Inr _, s3) \<Rightarrow>
          (case pop_revert_state C now sid db of
             (Inl e, db1) \<Rightarrow> (Inl (Undo_Store ''Failed to update revert state: '' e), s3, db1)
           | (Inr _, db1) \<Rightarrow> (Inr True, s3, db1))))"

section \<open>Cleaning up on the next prompt\<close>

definition frontier_seq :: "string \<Rightarrow> 'x journal_event durable_event list \<Rightarrow> int option" where
  "frontier_seq mid evs = first_defined (\<lambda>e. case de_kind e of
     PromptReceived _ (Some m) \<Rightarrow> if m = mid then Some (de_stream_seq e) else None | _ \<Rightarrow> None) evs"

definition prune_journal ::
    "('f, 'b, 'x journal_event) store_codec \<Rightarrow> string \<Rightarrow> string \<Rightarrow> session_db \<Rightarrow> session_db" where
  "prune_journal C sid mid db =
    (case load_session_stream C sid None None db of
       Inl _ \<Rightarrow> db
     | Inr evs \<Rightarrow> (case frontier_seq mid evs of None \<Rightarrow> db | Some seq \<Rightarrow> snd (delete_session_events_from sid seq db)))"

definition cleanup_revert_on_prompt ::
    "('f, 'b, 'x journal_event) store_codec \<Rightarrow> int \<Rightarrow> string \<Rightarrow> session_db \<Rightarrow> (undo_error + unit) \<times> session_db" where
  "cleanup_revert_on_prompt C now sid db =
    (case peek_revert_state C now sid db of
       Inl e \<Rightarrow> (Inl (Undo_Store ''Failed to get revert state: '' e), db)
     | Inr None \<Rightarrow> (Inr (), db)
     | Inr (Some st) \<Rightarrow>
       (case delete_messages_after sid (rs_message_id st) db of
          (Inl e, db1) \<Rightarrow> (Inl (Undo_Store ''Failed to delete messages: '' e), db1)
        | (Inr _, db1) \<Rightarrow>
          (case clear_revert_states sid (prune_journal C sid (rs_message_id st) db1) of
             (Inl e, db2) \<Rightarrow> (Inl (Undo_Store ''Failed to clear revert state: '' e), db2)
           | (Inr _, db2) \<Rightarrow> (Inr (), db2))))"

section \<open>The session actor\<close>

definition handle_undo ::
    "'s snapshot_backend_ops option \<Rightarrow> string option \<Rightarrow> ('f, 'b, 'e) store_codec \<Rightarrow> string \<Rightarrow> int \<Rightarrow> string \<Rightarrow> string \<Rightarrow> 's \<Rightarrow> session_db
     \<Rightarrow> (undo_error + undo_result) \<times> 's \<times> session_db" where
  "handle_undo backend cwd C uuid now sid mid s db =
    (case backend of None \<Rightarrow> (Inl NoSnapshotBackend, s, db) | Some B \<Rightarrow>
     case cwd of None \<Rightarrow> (Inl NoWorkingDirectory, s, db) | Some _ \<Rightarrow> undo_impl B C uuid now sid mid s db)"

definition handle_redo ::
    "'s snapshot_backend_ops option \<Rightarrow> string option \<Rightarrow> ('f, 'b, 'e) store_codec \<Rightarrow> int \<Rightarrow> string \<Rightarrow> 's \<Rightarrow> session_db
     \<Rightarrow> (undo_error + bool) \<times> 's \<times> session_db" where
  "handle_redo backend cwd C now sid s db =
    (case backend of None \<Rightarrow> (Inl NoSnapshotBackend, s, db) | Some B \<Rightarrow>
     case cwd of None \<Rightarrow> (Inl NoWorkingDirectory, s, db) | Some _ \<Rightarrow> redo_impl B C now sid s db)"

text \<open>After a turn: the paths changed since the snapshot taken before it are recorded in a message. A failure
  is logged and otherwise ignored. The garbage collection that follows only counts commits.\<close>

definition patch_message :: "string \<Rightarrow> string \<Rightarrow> int \<Rightarrow> ('f, 'b) message_part \<Rightarrow> ('f, 'b) agent_message" where
  "patch_message uuid sid now part = \<lparr>am_id = uuid, am_session_id = sid, am_role = Assistant, am_parts = [part],
     am_created_at = now, am_parent_message_id = None, am_source_provider = None, am_source_model = None\<rparr>"

definition post_turn_snapshot ::
    "'s snapshot_backend_ops \<Rightarrow> ('f, 'b, 'e) store_codec \<Rightarrow> string \<Rightarrow> int \<Rightarrow> string \<Rightarrow> (string \<times> string) option \<Rightarrow> 's \<Rightarrow> session_db
     \<Rightarrow> 's \<times> session_db" where
  "post_turn_snapshot B C uuid now sid turn s db =
    (case turn of None \<Rightarrow> (s, db) | Some (turn_id, pre) \<Rightarrow>
     case sb_track B s of (Inl _, s1) \<Rightarrow> (s1, db) | (Inr post, s1) \<Rightarrow>
     if pre = post then (s1, db)
     else case sb_diff B s1 pre post of
         (Inl _, s2) \<Rightarrow> (s2, db)
       | (Inr changed, s2) \<Rightarrow>
           (if changed = [] then (s2, db)
            else (s2, snd (store_add_message C now sid
              (patch_message uuid sid now (Part_TurnSnapshotPatch turn_id post changed)) db))))"

section \<open>What restoring does to the files\<close>

text \<open>The turns that the patches record follow each other: each lists all paths whose content differs between its
  start and the start of the next one, the last one those that differ from \<open>final\<close>.\<close>

fun turn_chain :: "(string \<Rightarrow> (string \<rightharpoonup> string) option) \<Rightarrow> (string \<Rightarrow> bool) \<Rightarrow> turn_patch list
    \<Rightarrow> (string \<rightharpoonup> string) \<Rightarrow> (string \<rightharpoonup> string) \<Rightarrow> bool" where
  "turn_chain snap plain [] final m \<longleftrightarrow> m = final"
| "turn_chain snap plain ((t, i, paths) # ps) final m \<longleftrightarrow> snap i = Some m \<and> (\<forall>p\<in>set paths. plain p)
     \<and> (\<exists>m'. turn_chain snap plain ps final m' \<and> {p. m p \<noteq> m' p} \<subseteq> set paths)"

lemma restore_patches_append:
  "restore_patches B (xs @ ys) s = (case restore_patches B xs s of (fs, s1) \<Rightarrow>
     case restore_patches B ys s1 of (gs, s2) \<Rightarrow> (fs @ gs, s2))"
  by (induction xs arbitrary: s) (auto split: prod.splits sum.splits)

lemma restore_patches_length: "restore_patches B ps s = (fs, s') \<Longrightarrow>
   length fs \<le> length (concat (map (\<lambda>(t, i, paths). paths) ps))"
  by (induction ps arbitrary: s fs s') (fastforce split: prod.splits sum.splits)+

context snapshot_backend
begin

text \<open>The state after any number of operations of the backend on plain paths.\<close>

definition later :: "'s \<Rightarrow> 's \<Rightarrow> bool" where
  "later s s' \<longleftrightarrow> good s' \<and> tracked s' = tracked s \<and> (\<forall>i m. snap s i = Some m \<longrightarrow> snap s' i = Some m)"

lemma later_refl: "good s \<Longrightarrow> later s s"
  by (simp add: later_def)

lemma later_trans: "later a b \<Longrightarrow> later b c \<Longrightarrow> later a c"
  by (simp add: later_def)

lemma restore_later: "good s \<Longrightarrow> \<forall>p\<in>set ps. plain p \<Longrightarrow> sb_restore_paths B s i ps = (u, s') \<Longrightarrow> later s s'"
  using restore[of s ps i u s'] by (simp add: later_def)

lemma track_later: "good s \<Longrightarrow> sb_track B s = (r, s') \<Longrightarrow> later s s' \<and> files s' = files s"
  using track[of s r s'] by (simp add: later_def)

lemma diff_later: "good s \<Longrightarrow> sb_diff B s a b = (d, s') \<Longrightarrow> later s s' \<and> files s' = files s"
  using diff[of s a b d s'] by (simp add: later_def)

lemma restore_patches_later:
  "good s \<Longrightarrow> \<forall>(t, i, paths)\<in>set ps. \<forall>p\<in>set paths. plain p \<Longrightarrow> restore_patches B ps s = (fs, s') \<Longrightarrow> later s s'"
proof (induction ps arbitrary: s fs s')
  case (Cons x ps)
  obtain t i paths where x: "x = (t, i, paths)" by (cases x)
  obtain u s1 where r: "sb_restore_paths B s i paths = (u, s1)" by (cases "sb_restore_paths B s i paths")
  have l: "later s s1" using Cons.prems(1,2) x by (intro restore_later[OF _ _ r]) auto
  obtain fs1 s2 where r2: "restore_patches B ps s1 = (fs1, s2)" by (cases "restore_patches B ps s1")
  have "s' = s2" using Cons.prems(3) x r r2 by (auto split: sum.splits)
  moreover have "later s1 s2" using Cons.prems(2) l by (intro Cons.IH[OF _ _ r2]) (auto simp: later_def)
  ultimately show ?case using later_trans[OF l] by simp
qed (simp add: later_refl)

text \<open>Restoring all paths on which the tracked files differ from a snapshot makes them equal to it.\<close>

lemma revert_step:
  assumes g: "good s" and i: "snap s i = Some m" and d: "\<forall>p. m p \<noteq> None \<longrightarrow> tracked s p"
    and f: "\<forall>p. tracked s p \<longrightarrow> files s p = m' p" and ps: "{p. m p \<noteq> m' p} \<subseteq> set ps" "\<forall>p\<in>set ps. plain p"
    and r: "sb_restore_paths B s i ps = (Inr (), s')"
  shows "\<forall>p. tracked s' p \<longrightarrow> files s' p = m p"
proof (intro allI impI)
  note rs = restore[OF g ps(2) r]
  have some: "files s' p = m p" if "m p \<noteq> None" for p
  proof (cases "p \<in> set ps")
    case True
    then show ?thesis using rs i that by blast
  next
    case False
    then have "files s' p = files s p" "m p = m' p" using rs ps(1) by blast+
    then show ?thesis using f d that by metis
  qed
  fix p assume "tracked s' p"
  then have t: "tracked s p" using rs by simp
  show "files s' p = m p"
  proof (cases "m p = None \<and> p \<in> set ps")
    case True
    show ?thesis
    proof (cases "below m p")
      case b: True
      then obtain q where "m (p @ ''/'' @ q) \<noteq> None" unfolding below_def by blast
      then have "files s' (p @ ''/'' @ q) \<noteq> None" using some by simp
      then show ?thesis using tree[of s' p q] rs True by simp
    qed (use rs i True in blast)
  next
    case False
    then consider "m p \<noteq> None" | "p \<notin> set ps" by auto
    then show ?thesis
    proof cases
      case 2
      then have "files s' p = files s p" "m p = m' p" using rs ps(1) by blast+
      then show ?thesis using f t by simp
    qed (rule some)
  qed
qed

text \<open>Undoing a chain of turns, the last one first, leads back to the start of the first one.\<close>

lemma restore_chain:
  assumes "good s" "turn_chain (snap s) plain ps final m" "\<forall>p. tracked s p \<longrightarrow> files s p = final p"
    "\<forall>i\<in>set ps. \<forall>m. snap s (fst (snd i)) = Some m \<longrightarrow> (\<forall>p. m p \<noteq> None \<longrightarrow> tracked s p)"
    "restore_patches B (rev ps) s = (concat (map (\<lambda>(t, i, paths). paths) (rev ps)), s')"
  shows "later s s' \<and> (\<forall>p. tracked s' p \<longrightarrow> files s' p = m p)"
  using assms
proof (induction ps arbitrary: m s')
  case Nil
  then show ?case by (auto simp: later_refl)
next
  case (Cons x ps)
  obtain t i paths where x: "x = (t, i, paths)" by (cases x)
  obtain m' where c: "snap s i = Some m" "\<forall>p\<in>set paths. plain p" "turn_chain (snap s) plain ps final m'"
      "{p. m p \<noteq> m' p} \<subseteq> set paths" using Cons.prems(2) x by auto
  obtain fs s1 where r1: "restore_patches B (rev ps) s = (fs, s1)" by (cases "restore_patches B (rev ps) s")
  obtain u s2 where r2: "sb_restore_paths B s1 i paths = (u, s2)" by (cases "sb_restore_paths B s1 i paths")
  have eq: "concat (map (\<lambda>(t, i, paths). paths) (rev ps)) @ paths = fs @ (case u of Inl _ \<Rightarrow> [] | Inr _ \<Rightarrow> paths)" "s' = s2"
    using Cons.prems(5) x r1 r2 by (auto simp: restore_patches_append split: sum.splits)
  have fs: "length fs \<le> length (concat (map (\<lambda>(t, i, paths). paths) (rev ps)))" by (rule restore_patches_length[OF r1])
  have u: "paths \<noteq> [] \<Longrightarrow> \<exists>v. u = Inr v" using arg_cong[OF eq(1), of length] fs by (cases u; cases paths) auto
  have "fs = concat (map (\<lambda>(t, i, paths). paths) (rev ps))"
    using eq(1) u by (cases "paths = []"; cases u) auto
  then have ih: "later s s1 \<and> (\<forall>p. tracked s1 p \<longrightarrow> files s1 p = m' p)"
    using Cons.IH[OF Cons.prems(1) c(3) Cons.prems(3) _ r1[unfolded \<open>fs = _\<close>]] Cons.prems(4) by auto
  have l2: "later s1 s2" using ih c(2) by (intro restore_later[OF _ _ r2]) (auto simp: later_def)
  have s1: "good s1" "snap s1 i = Some m" "\<forall>p. m p \<noteq> None \<longrightarrow> tracked s1 p"
    using ih c(1) Cons.prems(4) x by (auto simp: later_def)
  have "\<forall>p. tracked s2 p \<longrightarrow> files s2 p = m p"
  proof (cases "paths = []")
    case True
    then show ?thesis using restore[OF s1(1) c(2) r2] ih c(4) by auto
  next
    case False
    then have "u = Inr ()" using u by auto
    then show ?thesis using revert_step[OF s1 _ c(4,2)] ih r2 by blast
  qed
  then show ?case using eq(2) later_trans[of s s1 s2] ih l2 by blast
qed

text \<open>Comparing the working directory with a snapshot and restoring the difference, as redo does.\<close>

lemma goto_snapshot:
  assumes g: "good s" and i: "snap s i = Some m" and d: "\<forall>p. m p \<noteq> None \<longrightarrow> tracked s p"
    and t: "sb_track B s = (Inr cur, s1)" and df: "sb_diff B s1 cur i = (Inr changed, s2)"
    and r: "(if changed = [] then (Inr (), s2) else sb_restore_paths B s2 i changed) = (Inr (), s3)"
    and nr: "\<not> may_rename (\<lambda>p. if tracked s p then files s p else None) m"
  shows "later s s3 \<and> (\<forall>p. tracked s3 p \<longrightarrow> files s3 p = m p)"
proof -
  note tr = track[OF g t]
  have l1: "later s s1" using track_later[OF g t] by simp
  have g1: "good s1" using tr by simp
  note di = diff[OF g1 df]
  have l2: "later s1 s2" using diff_later[OF g1 df] by simp
  have g2: "good s2" using di by simp
  have files: "files s2 = files s" "tracked s2 = tracked s" using tr di by auto
  have s13: "snap s1 i = Some m" using tr i by simp
  have s12: "snap s1 cur = Some (\<lambda>p. if tracked s p then files s p else None)" using tr by simp
  have s11: "snap s2 i = Some m" using di s13 by simp
  note s2 = s11 s12 s13
  have ch: "{p. m p \<noteq> (if tracked s p then files s p else None)} \<subseteq> set changed"
      "set changed \<subseteq> dom m \<union> dom (\<lambda>p. if tracked s p then files s p else None)"
    using di s2(2,3) nr by fastforce+
  have pl: "\<forall>p\<in>set changed. plain p"
  proof
    fix p assume "p \<in> set changed"
    then have "m p \<noteq> None \<or> (if tracked s p then files s p else None) \<noteq> None" using ch(2) by (auto simp: dom_def)
    then show "plain p" using snap_plain[OF g1 s2(2), of p] snap_plain[OF g1 s2(3), of p] by auto
  qed
  have l3: "later s2 s3"
  proof (cases "changed = []")
    case True
    then show ?thesis using r later_refl[OF g2] by simp
  next
    case False
    then have "sb_restore_paths B s2 i changed = (Inr (), s3)" using r by simp
    then show ?thesis by (rule restore_later[OF g2 pl])
  qed
  have "\<forall>p. tracked s3 p \<longrightarrow> files s3 p = m p"
  proof (cases "changed = []")
    case True
    then have "\<forall>p. m p = (if tracked s p then files s p else None)" using ch(1) by auto
    then show ?thesis using True r files by simp
  next
    case False
    then have r': "sb_restore_paths B s2 i changed = (Inr (), s3)" using r by simp
    show ?thesis
      using revert_step[OF g2 s2(1) _ _ ch(1) pl r'] d files by simp
  qed
  then show ?thesis using later_trans[OF later_trans[OF l1 l2] l3] by simp
qed

text \<open>What the fallback needs to know of the snapshots recorded in the target message.\<close>

definition known_snapshots :: "('f, 'b) message_part list \<Rightarrow> 's \<Rightarrow> bool" where
  "known_snapshots parts s \<longleftrightarrow> (\<forall>t i paths. Part_TurnSnapshotPatch t i paths \<in> set parts \<longrightarrow> snap s i \<noteq> None)"

lemma fallback_patch_later:
  assumes g: "good s" and k: "snap s i \<noteq> None" and f: "fallback_restore B (Part_TurnSnapshotPatch t i paths # ps) s = (u, s')"
  shows "later s s'"
proof -
  obtain m where m: "snap s i = Some m" using k by blast
  obtain v s1 where t: "sb_track B s = (v, s1)" by (cases "sb_track B s")
  have l1: "later s s1" using track_later[OF g t] by simp
  show ?thesis
  proof (cases v)
    case (Inl e)
    then show ?thesis using f t l1 by simp
  next
    case (Inr cur)
    obtain d s2 where d: "sb_diff B s1 cur i = (d, s2)" by (cases "sb_diff B s1 cur i")
    have g1: "good s1" using l1 by (simp add: later_def)
    have l2: "later s s2" using diff_later[OF g1 d] later_trans[OF l1] by simp
    show ?thesis
    proof (cases d)
      case (Inl e)
      then show ?thesis using f t d l2 \<open>v = Inr cur\<close> by simp
    next
      case (Inr changed)
      have "snap s1 i = Some m" "snap s1 cur = Some (\<lambda>p. if tracked s p then files s p else None)"
        using track[OF g t] m \<open>v = Inr cur\<close> by auto
      then have "set changed \<subseteq> dom m \<union> dom (\<lambda>p. if tracked s p then files s p else None)"
        using diff[OF g1 d] Inr by blast
      then have "\<forall>p\<in>set changed. plain p"
        using snap_plain[OF g1 \<open>snap s1 i = _\<close>] snap_plain[OF g1 \<open>snap s1 cur = _\<close>] by (simp add: dom_def) fast
      moreover obtain w s3 where r: "sb_restore_paths B s2 i changed = (w, s3)" by (cases "sb_restore_paths B s2 i changed")
      ultimately have "later s2 s3" using l2 by (intro restore_later[OF _ _ r]) (auto simp: later_def)
      then have "later s s3" by (rule later_trans[OF l2])
      then show ?thesis using f t d r l2 \<open>v = Inr cur\<close> Inr by (auto split: if_splits sum.splits)
    qed
  qed
qed

lemma fallback_later:
  "good s \<Longrightarrow> known_snapshots parts s \<Longrightarrow> fallback_restore B parts s = (u, s') \<Longrightarrow> later s s'"
proof (induction parts)
  case (Cons part parts)
  show ?case
  proof (cases "\<exists>t i paths. part = Part_TurnSnapshotPatch t i paths")
    case True
    then obtain t i paths where part: "part = Part_TurnSnapshotPatch t i paths" by blast
    have "snap s i \<noteq> None" using Cons.prems(2) part by (auto simp: known_snapshots_def)
    then show ?thesis using fallback_patch_later[OF Cons.prems(1)] Cons.prems(3) part by blast
  next
    case False
    then have "fallback_restore B parts s = (u, s')" using Cons.prems(3) by (cases part) auto
    moreover have "known_snapshots parts s" using Cons.prems(2) by (auto simp: known_snapshots_def)
    ultimately show ?thesis using Cons.IH Cons.prems(1) by blast
  qed
qed (simp add: later_refl)

text \<open>Undo followed by redo.\<close>

lemma undo_parts:
  assumes "undo_impl B C uuid now sid mid s db = (Inr res, s', db')"
  obtains pre s1 h k reverted s2 extra where "sb_track B s = (Inr pre, s1)" "get_history C sid db = Inr h"
    "position (\<lambda>m. am_id m = mid) h = Some k"
    "restore_patches B (rev (undo_patches C sid (drop (Suc k) h) db)) s1 = (reverted, s2)"
    "(if undo_patches C sid (drop (Suc k) h) db = [] then fallback_restore B (am_parts (h ! k)) s2 else (Inr [], s2)) = (Inr extra, s')"
    "push_revert_state C now sid \<lparr>rs_public_id = uuid, rs_session_id = sid, rs_message_id = mid,
       rs_snapshot_id = pre, rs_backend_id = ''git'', rs_created_at = now\<rparr> db = (Inr (), db')"
    "res = \<lparr>ur_reverted_files = reverted @ extra, ur_message_id = mid\<rparr>"
  using assms unfolding undo_impl_def Let_def
  by (auto split: prod.splits sum.splits option.splits)

lemma undo_later:
  assumes g: "good s" and u: "undo_impl B C uuid now sid mid s db = (Inr res, s', db')"
    and h: "get_history C sid db = Inr h" and k: "position (\<lambda>m. am_id m = mid) h = Some k"
    and pl: "\<forall>(t, i, paths)\<in>set (undo_patches C sid (drop (Suc k) h) db). \<forall>p\<in>set paths. plain p"
    and kn: "known_snapshots (am_parts (h ! k)) s"
  obtains pre where "later s s'" "snap s' pre = Some (\<lambda>p. if tracked s p then files s p else None)"
    "push_revert_state C now sid \<lparr>rs_public_id = uuid, rs_session_id = sid, rs_message_id = mid,
       rs_snapshot_id = pre, rs_backend_id = ''git'', rs_created_at = now\<rparr> db = (Inr (), db')"
proof -
  obtain pre s1 reverted s2 extra where p: "sb_track B s = (Inr pre, s1)"
    "restore_patches B (rev (undo_patches C sid (drop (Suc k) h) db)) s1 = (reverted, s2)"
    "(if undo_patches C sid (drop (Suc k) h) db = [] then fallback_restore B (am_parts (h ! k)) s2 else (Inr [], s2)) = (Inr extra, s')"
    "push_revert_state C now sid \<lparr>rs_public_id = uuid, rs_session_id = sid, rs_message_id = mid,
       rs_snapshot_id = pre, rs_backend_id = ''git'', rs_created_at = now\<rparr> db = (Inr (), db')"
    using undo_parts[OF u] h k by (metis option.inject sum.inject(2))
  have l1: "later s s1" using track_later[OF g p(1)] by simp
  have "later s1 s2" using l1 pl by (intro restore_patches_later[OF _ _ p(2)]) (auto simp: later_def)
  then have l2: "later s s2" by (rule later_trans[OF l1])
  have "later s2 s'"
  proof (cases "undo_patches C sid (drop (Suc k) h) db = []")
    case True
    have "known_snapshots (am_parts (h ! k)) s2" using kn l2 by (fastforce simp: known_snapshots_def later_def)
    then show ?thesis using p(3) True l2 fallback_later[of s2] by (simp add: later_def)
  next
    case False
    then show ?thesis using p(3) l2 by (simp add: later_def)
  qed
  then have l3: "later s1 s'" using later_trans \<open>later s1 s2\<close> by blast
  have "snap s1 pre = Some (\<lambda>p. if tracked s p then files s p else None)" using track[OF g p(1)] by simp
  then have "snap s' pre = Some (\<lambda>p. if tracked s p then files s p else None)" using l3 by (simp add: later_def)
  then show ?thesis using that later_trans[OF l1 l3] p(4) by blast
qed

lemma redo_parts:
  assumes "redo_impl B C now sid s db = (Inr b, s', db')"
  obtains st cur s1 changed s2 f where "peek_revert_state C now sid db = Inr (Some st)" "sb_track B s = (Inr cur, s1)"
    "sb_diff B s1 cur (rs_snapshot_id st) = (Inr changed, s2)"
    "(if changed = [] then (Inr (), s2) else sb_restore_paths B s2 (rs_snapshot_id st) changed) = (Inr (), s')"
    "pop_revert_state C now sid db = (Inr f, db')"
  using assms unfolding redo_impl_def by (auto split: prod.splits sum.splits option.splits)

lemma redo_undo:
  assumes g: "good s" and ok: "tables_ok db" and h: "get_history C sid db = Inr h" and k: "position (\<lambda>m. am_id m = mid) h = Some k"
    and pl: "\<forall>(t, i, paths)\<in>set (undo_patches C sid (drop (Suc k) h) db). \<forall>p\<in>set paths. plain p"
    and kn: "known_snapshots (am_parts (h ! k)) s"
    and u: "undo_impl B C uuid now sid mid s db = (Inr res, s1, db1)" and r: "redo_impl B C now' sid s1 db1 = (Inr b, s2, db2)"
    and nr: "\<not> may_rename (\<lambda>p. if tracked s1 p then files s1 p else None) (\<lambda>p. if tracked s p then files s p else None)"
  shows "\<forall>p. tracked s p \<longrightarrow> files s2 p = files s p" "later s s2" "tables_ok db2"
    "\<forall>t. revert_frames t db2 = revert_frames t db" "db2 = db\<lparr>db_reverts := db_reverts db2\<rparr>"
proof -
  let ?m = "\<lambda>p. if tracked s p then files s p else None"
  obtain pre where un: "later s s1" "snap s1 pre = Some ?m"
    "push_revert_state C now sid \<lparr>rs_public_id = uuid, rs_session_id = sid, rs_message_id = mid,
       rs_snapshot_id = pre, rs_backend_id = ''git'', rs_created_at = now\<rparr> db = (Inr (), db1)"
    by (rule undo_later[OF g u h k pl kn])
  obtain st cur t1 changed t2 f where re: "peek_revert_state C now' sid db1 = Inr (Some st)" "sb_track B s1 = (Inr cur, t1)"
    "sb_diff B t1 cur (rs_snapshot_id st) = (Inr changed, t2)"
    "(if changed = [] then (Inr (), t2) else sb_restore_paths B t2 (rs_snapshot_id st) changed) = (Inr (), s2)"
    "pop_revert_state C now' sid db1 = (Inr f, db2)"
    by (rule redo_parts[OF r])
  note pp = rs.pop_push[OF ok un(3) re(5)]
  have ok1: "tables_ok db1" by (rule push_revert_frames(1)[OF ok un(3)])
  have "f = Some st" using pop_revert_frames(3)[OF ok1 re(5)] re(1) by simp
  then have st: "rs_snapshot_id st = pre" using pp by auto
  have tr: "\<forall>p. ?m p \<noteq> None \<longrightarrow> tracked s1 p" using un(1) by (simp add: later_def)
  have gs: "later s1 s2 \<and> (\<forall>p. tracked s2 p \<longrightarrow> files s2 p = ?m p)"
    using re(3,4) unfolding st by (intro goto_snapshot[OF _ un(2) tr re(2) _ _ nr]) (use un(1) in \<open>auto simp: later_def\<close>)
  then show "later s s2" using later_trans[OF un(1)] by blast
  then show "\<forall>p. tracked s p \<longrightarrow> files s2 p = files s p" using gs by (simp add: later_def)
  show "tables_ok db2" "\<forall>t. revert_frames t db2 = revert_frames t db" using pp by auto
  have "db1 = db\<lparr>db_reverts := db_reverts db1\<rparr>" by (rule push_revert_frames(4)[OF ok un(3)])
  moreover have "db2 = db1\<lparr>db_reverts := db_reverts db2\<rparr>" by (rule pop_revert_frames(4)[OF ok1 re(5)])
  ultimately show "db2 = db\<lparr>db_reverts := db_reverts db2\<rparr>" by (metis session_db.update_convs(4) session_db.surjective)
qed

text \<open>What an undo does to the files when it finds recorded turns.\<close>

lemma undo_restore:
  assumes u: "undo_impl B C uuid now sid mid s db = (Inr res, s', db')"
    and h: "get_history C sid db = Inr h" and k: "position (\<lambda>m. am_id m = mid) h = Some k"
    and ps: "undo_patches C sid (drop (Suc k) h) db = ps" "ps \<noteq> []"
  obtains pre s1 where "sb_track B s = (Inr pre, s1)" "restore_patches B (rev ps) s1 = (ur_reverted_files res, s')"
proof -
  obtain pre s1 h' k' reverted s2 extra where q: "sb_track B s = (Inr pre, s1)" "get_history C sid db = Inr h'"
    "position (\<lambda>m. am_id m = mid) h' = Some k'"
    "restore_patches B (rev (undo_patches C sid (drop (Suc k') h') db)) s1 = (reverted, s2)"
    "(if undo_patches C sid (drop (Suc k') h') db = [] then fallback_restore B (am_parts (h' ! k')) s2 else (Inr [], s2)) = (Inr extra, s')"
    "push_revert_state C now sid \<lparr>rs_public_id = uuid, rs_session_id = sid, rs_message_id = mid,
       rs_snapshot_id = pre, rs_backend_id = ''git'', rs_created_at = now\<rparr> db = (Inr (), db')"
    "res = \<lparr>ur_reverted_files = reverted @ extra, ur_message_id = mid\<rparr>"
    by (rule undo_parts[OF u])
  have e: "h' = h" "k' = k" using q(2,3) h k by auto
  show ?thesis using that[OF q(1)] q(4,5,7) ps unfolding e by simp
qed

text \<open>Only recorded paths are touched.\<close>

lemma restore_patches_frame:
  "good s \<Longrightarrow> \<forall>(t, i, paths)\<in>set ps. \<forall>p\<in>set paths. plain p \<Longrightarrow> restore_patches B ps s = (fs, s') \<Longrightarrow>
     p \<notin> set (concat (map (\<lambda>(t, i, paths). paths) ps)) \<Longrightarrow> files s' p = files s p"
proof (induction ps arbitrary: s fs s')
  case (Cons x ps)
  obtain t i paths where x: "x = (t, i, paths)" by (cases x)
  obtain u s1 where r: "sb_restore_paths B s i paths = (u, s1)" by (cases "sb_restore_paths B s i paths")
  have pl: "\<forall>p\<in>set paths. plain p" using Cons.prems(2) x by simp
  have g1: "good s1" and f1: "files s1 p = files s p" using restore[OF Cons.prems(1) pl r] Cons.prems(4) x by auto
  obtain fs1 s2 where r2: "restore_patches B ps s1 = (fs1, s2)" by (cases "restore_patches B ps s1")
  have "s' = s2" using Cons.prems(3) x r r2 by (auto split: sum.splits)
  moreover have "files s2 p = files s1 p" using Cons.prems(2,4) x by (intro Cons.IH[OF g1 _ r2]) auto
  ultimately show ?case using f1 by simp
qed simp

lemma undo_frame:
  assumes g: "good s" and u: "undo_impl B C uuid now sid mid s db = (Inr res, s', db')"
    and h: "get_history C sid db = Inr h" and k: "position (\<lambda>m. am_id m = mid) h = Some k"
    and ps: "undo_patches C sid (drop (Suc k) h) db = ps" "ps \<noteq> []"
    and pl: "\<forall>(t, i, paths)\<in>set ps. \<forall>p\<in>set paths. plain p"
    and p: "p \<notin> set (concat (map (\<lambda>(t, i, paths). paths) ps))"
  shows "files s' p = files s p"
proof -
  obtain pre s1 reverted where q: "sb_track B s = (Inr pre, s1)" "restore_patches B (rev ps) s1 = (reverted, s')"
    by (rule undo_restore[OF u h k ps])
  have "good s1" "files s1 = files s" using track[OF g q(1)] by auto
  then show ?thesis using restore_patches_frame[OF _ _ q(2)] pl p by simp
qed

text \<open>An undo that restores every recorded path leads back to the start of the first undone turn.\<close>

lemma undo_chain:
  assumes g: "good s" and u: "undo_impl B C uuid now sid mid s db = (Inr res, s', db')"
    and h: "get_history C sid db = Inr h" and k: "position (\<lambda>m. am_id m = mid) h = Some k"
    and ps: "undo_patches C sid (drop (Suc k) h) db = ps" "ps \<noteq> []"
    and ch: "turn_chain (snap s) plain ps (\<lambda>p. if tracked s p then files s p else None) m"
    and tr: "\<forall>i\<in>set ps. \<forall>m. snap s (fst (snd i)) = Some m \<longrightarrow> (\<forall>p. m p \<noteq> None \<longrightarrow> tracked s p)"
    and all: "ur_reverted_files res = concat (map (\<lambda>(t, i, paths). paths) (rev ps))"
  shows "\<forall>p. tracked s p \<longrightarrow> files s' p = m p"
proof -
  obtain pre s1 where p: "sb_track B s = (Inr pre, s1)" "restore_patches B (rev ps) s1 = (ur_reverted_files res, s')"
    by (rule undo_restore[OF u h k ps])
  have t: "good s1" "files s1 = files s" "tracked s1 = tracked s" "\<forall>i m. snap s i = Some m \<longrightarrow> snap s1 i = Some m"
    using track[OF g p(1)] by auto
  have "turn_chain (snap s1) plain ps final m'" if "turn_chain (snap s) plain ps final m'" for final m'
    using that t(4) by (induction ps arbitrary: m') fastforce+
  from this[OF ch] have c1: "turn_chain (snap s1) plain ps (\<lambda>p. if tracked s p then files s p else None) m" .
  have known: "\<exists>m. snap s (fst (snd i)) = Some m" if "turn_chain (snap s) plain ps final m'" "i \<in> set ps" for i final m'
    using that by (induction ps arbitrary: m') auto
  have tr1: "\<forall>i\<in>set ps. \<forall>m. snap s1 (fst (snd i)) = Some m \<longrightarrow> (\<forall>p. m p \<noteq> None \<longrightarrow> tracked s1 p)"
  proof (intro ballI allI impI)
    fix i m' p assume i: "i \<in> set ps" "snap s1 (fst (snd i)) = Some m'" "m' p \<noteq> None"
    obtain m'' where "snap s (fst (snd i)) = Some m''" using known[OF ch i(1)] by blast
    then show "tracked s1 p" using tr t(3,4) i by simp
  qed
  have "restore_patches B (rev ps) s1 = (concat (map (\<lambda>(t, i, paths). paths) (rev ps)), s')"
    using p(2) all by simp
  from restore_chain[OF t(1) c1 _ tr1 this] show ?thesis using t(2,3) by (simp add: later_def)
qed

end

section \<open>Every child session is scanned as a whole\<close>

lemma record_starts_dom:
  "Part_TurnSnapshotStart t i \<in> set (concat (map am_parts msgs)) \<Longrightarrow> record_starts msgs pre t \<noteq> None"
proof -
  have keep: "m t \<noteq> None \<Longrightarrow> fold (\<lambda>p m. case p of Part_TurnSnapshotStart t i \<Rightarrow> m(t \<mapsto> i) | _ \<Rightarrow> m) ps m t \<noteq> None" for ps m
    by (induction ps arbitrary: m) (auto split: message_part.split)
  have "Part_TurnSnapshotStart t i \<in> set ps \<Longrightarrow>
      fold (\<lambda>p m. case p of Part_TurnSnapshotStart t i \<Rightarrow> m(t \<mapsto> i) | _ \<Rightarrow> m) ps m t \<noteq> None" for ps m
  proof (induction ps arbitrary: m)
    case (Cons p ps)
    show ?case using Cons keep[of "m(t \<mapsto> i)" ps] by (cases "p = Part_TurnSnapshotStart t i") auto
  qed simp
  then show "Part_TurnSnapshotStart t i \<in> set (concat (map am_parts msgs)) \<Longrightarrow> record_starts msgs pre t \<noteq> None"
    unfolding record_starts_def by blast
qed

lemma patches_in_mem:
  assumes "Part_TurnSnapshotPatch t post paths \<in> set (concat (map am_parts msgs))" "pre t = Some i"
  shows "(t, i, paths) \<in> set (patches_in pre msgs)"
  using assms unfolding patches_in_def List.map_filter_def by (force simp: image_iff)

lemma scan_sessions_child:
  assumes "s \<in> set ss" "s \<noteq> sid" "get_history C s db = Inr msgs"
    "Part_TurnSnapshotStart t i \<in> set (concat (map am_parts msgs))"
    "Part_TurnSnapshotPatch t post paths \<in> set (concat (map am_parts msgs))"
  shows "\<exists>i. (t, i, paths) \<in> set (scan_sessions C sid after db ss pre)"
  using assms(1)
proof (induction ss arbitrary: pre)
  case (Cons x ss)
  show ?case
  proof (cases "x = s")
    case True
    obtain j where "record_starts msgs pre t = Some j" using record_starts_dom[OF assms(4)] by blast
    from patches_in_mem[OF assms(5), of "record_starts msgs pre" j, OF this] show ?thesis using True assms(2,3) by (auto simp: Let_def)
  next
    case False
    then have "s \<in> set ss" using Cons.prems by simp
    from Cons.IH[OF this] show ?thesis by (auto simp: Let_def split: sum.splits)
  qed
qed simp

lemma fork_is_child:
  assumes "tables_ok db" "fork_session C now uuids sid mid origin db = (Inr new, db')" "get_history C sid db = Inr h"
  shows "\<exists>cs. list_child_sessions sid db' = Inr cs \<and> new \<in> set cs" "new \<noteq> sid"
proof -
  obtain src target d evs n where f: "resolve_session_internal_id sid db = Inr src"
      "resolve_message_internal_id mid db = Inr target" "new = uuids 0" "new \<notin> sw_public_id ` set (db_sessions db)"
    "copy_messages uuids 1 (next_row_id sw_id (db_sessions db)) (messages_to_copy src target db)
       (db\<lparr>db_sessions := db_sessions db @ [fork_session_row C now new (next_row_id sw_id (db_sessions db)) src target origin db]\<rparr>)
       = Inr d"
    "copy_events uuids n new evs d = Inr db'"
    by (rule fork_session_Inr[OF assms(2)])
  define w where "w = fork_session_row C now new (next_row_id sw_id (db_sessions db)) src target origin db"
  have "copy_messages u k j ms e = Inr e' \<Longrightarrow> db_sessions e' = db_sessions e" for u k j ms e e'
    by (induction ms arbitrary: k e) (auto simp: copy_message_def Let_def split: sum.splits if_splits)
  from this[OF f(5)] have sess: "db_sessions db' = db_sessions db @ [w]"
    using copy_events_ok[OF f(6)] by (simp add: w_def)
  show "new \<noteq> sid" using resolve_in[OF f(1)] f(4) by auto
  have "resolve_session_internal_id sid db' = Inr src"
    using f(1) by (auto simp: resolve_session_internal_id_def sess find_append_case split: option.splits)
  moreover have "sw_parent_session_id w = Some src" "sw_public_id w = new"
    by (auto simp: w_def fork_session_row_def Let_def)
  ultimately show "\<exists>cs. list_child_sessions sid db' = Inr cs \<and> new \<in> set cs"
    by (auto simp: list_child_sessions_def sess)
qed

section \<open>The next prompt\<close>

lemma position_nth: "position P xs = Some k \<Longrightarrow> k < length xs \<and> P (xs ! k)"
  by (induction xs arbitrary: k) (auto split: if_splits)

lemma prune_journal_frame:
  "db_sessions (prune_journal C sid mid db) = db_sessions db" "db_messages (prune_journal C sid mid db) = db_messages db"
  "db_parts (prune_journal C sid mid db) = db_parts db" "db_reverts (prune_journal C sid mid db) = db_reverts db"
  by (auto simp: prune_journal_def delete_session_events_from_def Let_def split: sum.splits option.splits)

lemma cleanup_parts:
  assumes "cleanup_revert_on_prompt C now sid db = (Inr (), db')" "peek_revert_state C now sid db = Inr (Some st)"
  obtains n db1 where "delete_messages_after sid (rs_message_id st) db = (Inr n, db1)"
    "clear_revert_states sid (prune_journal C sid (rs_message_id st) db1) = (Inr (), db')"
  using assms unfolding cleanup_revert_on_prompt_def by (auto split: prod.splits sum.splits)

lemma clear_revert_frame:
  assumes "clear_revert_states sid db = (Inr (), db')"
  shows "revert_frames sid db' = []" "db_sessions db' = db_sessions db" "db_messages db' = db_messages db" "db_parts db' = db_parts db"
proof -
  obtain i where "resolve_session_internal_id sid db = Inr i" "db' = db\<lparr>db_reverts := filter (\<lambda>r. rw_session_id r \<noteq> i) (db_reverts db)\<rparr>"
    using assms by (auto simp: clear_revert_states_def split: sum.splits)
  then show "revert_frames sid db' = []" "db_sessions db' = db_sessions db" "db_messages db' = db_messages db" "db_parts db' = db_parts db"
    by (auto simp: revert_frames_def session_revert_rows_def)
qed

section \<open>A session with one turn\<close>

text \<open>The turn changed the file \<^verbatim>\<open>f\<close> from \<^verbatim>\<open>old\<close> to \<^verbatim>\<open>new\<close>; the message \<^verbatim>\<open>m\<close> is its prompt.\<close>

definition turn_codec :: "(unit, unit, unit journal_event) store_codec" where
  "turn_codec = \<lparr>cd_part_to = (\<lambda>p. case p of Part_Text t \<Rightarrow> Inr (CHR ''T'' # t) | Part_TurnSnapshotStart _ i \<Rightarrow> Inr (CHR ''S'' # i)
       | Part_TurnSnapshotPatch _ i _ \<Rightarrow> Inr (CHR ''P'' # i) | _ \<Rightarrow> Inl ''unsupported''),
     cd_part_of = (\<lambda>s. case s of [] \<Rightarrow> Inl ''unsupported'' | c # i \<Rightarrow>
       Inr (if c = CHR ''S'' then Part_TurnSnapshotStart ''t'' i else if c = CHR ''P'' then Part_TurnSnapshotPatch ''t'' i [''f'']
         else Part_Text i)),
     cd_event_to = (\<lambda>_. Inr ''{}''), cd_event_of = (\<lambda>_. Some (OtherEvent ())),
     cd_event_value = (\<lambda>_. None), cd_json_of = (\<lambda>_. None), cd_time_to = (\<lambda>_. ''t''), cd_time_of = (\<lambda>_. Some 0)\<rparr>"

definition sample_message :: "string \<Rightarrow> chat_role \<Rightarrow> (unit, unit) message_part \<Rightarrow> (unit, unit) agent_message" where
  "sample_message i r p = \<lparr>am_id = i, am_session_id = ''s'', am_role = r, am_parts = [p], am_created_at = 7,
     am_parent_message_id = None, am_source_provider = None, am_source_model = None\<rparr>"

definition turn_history :: "(unit, unit) agent_message list" where
  "turn_history = [sample_message ''m'' User (Part_Text ''go''), sample_message ''a'' Assistant (Part_TurnSnapshotStart ''t'' ''00''),
     sample_message ''b'' Assistant (Part_TurnSnapshotPatch ''t'' ''00000'' [''f''])]"

definition turn_row :: "int \<Rightarrow> string \<Rightarrow> string \<Rightarrow> message_row" where
  "turn_row n i r = \<lparr>mr_id = n, mr_public_id = i, mr_session_id = 1, mr_role = r, mr_created_at = 7,
     mr_parent_message_id = None, mr_source_provider = None, mr_source_model = None\<rparr>"

definition turn_db :: session_db where
  "turn_db = one_session_db\<lparr>
     db_messages := [turn_row 1 ''m'' ''User'', turn_row 2 ''a'' ''Assistant'', turn_row 3 ''b'' ''Assistant''],
     db_parts := [\<lparr>pw_message_id = 1, pw_part_type = ''text'', pw_content_json = ''Tgo'', pw_sort_order = 0\<rparr>,
        \<lparr>pw_message_id = 2, pw_part_type = ''turn_snapshot_start'', pw_content_json = ''S00'', pw_sort_order = 0\<rparr>,
        \<lparr>pw_message_id = 3, pw_part_type = ''turn_snapshot_patch'', pw_content_json = ''P00000'', pw_sort_order = 0\<rparr>]\<rparr>"

definition turn_files :: "string \<Rightarrow> fsys" where
  "turn_files c = \<lparr>fs_files = [''f'' \<mapsto> (c, False)], fs_dirs = {}, fs_denied = {}\<rparr>"

definition turn_tree :: "string \<Rightarrow> mem_object" where
  "turn_tree i = Mem_Tree [\<lparr>te_kind = Kind_Blob, te_filename = ''f'', te_oid = i\<rparr>]"

definition turn_repo :: "string \<Rightarrow> mem_store \<Rightarrow> mem_store" where
  "turn_repo c r = Mem_Commit (mem_id (Suc (length r))) # turn_tree (mem_id (length r)) # Mem_Blob c # r"

definition turn_state :: "mem_store git_state" where
  "turn_state = \<lparr>gw_fs = turn_files ''new'', gw_repo = turn_repo ''old'' []\<rparr>"

lemma turn_db_ok: "tables_ok turn_db" "sorted (map mr_created_at (db_messages turn_db))"
  by (simp_all add: turn_db_def turn_row_def tables_ok_def one_session_db_def)

lemma turn_db_history: "get_history turn_codec ''s'' turn_db = Inr turn_history"
  by (simp add: turn_db_def turn_row_def get_history_def resolve_session_internal_id_def session_message_rows_def session_part_rows_def
        one_session_db_def row_to_message_def sample_message_def turn_history_def role_of_str_def turn_codec_def)

lemma turn_position: "position (\<lambda>m. am_id m = ''m'') turn_history = Some 0"
  by (simp add: turn_history_def sample_message_def)

lemma turn_patches: "undo_patches turn_codec ''s'' (drop (Suc 0) turn_history) turn_db = [(''t'', ''00'', [''f''])]"
  by (simp add: undo_patches_def list_child_sessions_def resolve_session_internal_id_def turn_db_def one_session_db_def
      turn_history_def sample_message_def record_starts_def patches_in_def List.map_filter_def)

lemma turn_good: "git_good mem_git plain_walker turn_state"
  using mem_git_ok plain_walker_ok
  by (simp add: git_good_def turn_state_def turn_files_def fs_wf_def path_dirs_def)

lemma not_hidden_f: "\<not> hidden ''f''"
  by (simp add: hidden_def)

lemma turn_open: "open_or_init mem_git plain_walker r = (Inr (), r)"
  by (simp add: open_or_init_def snapshot_dir_def mem_git_def)

lemma turn_track:
  "sb_track (git_backend mem_git plain_walker) \<lparr>gw_fs = turn_files c, gw_repo = r\<rparr>
     = (Inr (mem_id (length r + 2)), \<lparr>gw_fs = turn_files c, gw_repo = turn_repo c r\<rparr>)"
  by (simp add: git_backend_def git_track_def create_snapshot_def turn_open)
    (simp add: mem_git_def plain_walker_def turn_repo_def not_hidden_f
      turn_files_def turn_tree_def fs_read_def fs_executable_def build_tree_from_entries.simps
      split_dir_def blobs_of_def blob_entry_def)

lemma turn_restore_old:
  "sb_restore_paths (git_backend mem_git plain_walker) \<lparr>gw_fs = turn_files c, gw_repo = turn_repo ''new'' (turn_repo ''old'' [])\<rparr> ''00'' [''f'']
     = (Inr (), \<lparr>gw_fs = turn_files ''old'', gw_repo = turn_repo ''new'' (turn_repo ''old'' [])\<rparr>)"
  by (simp add: git_backend_def git_restore_paths_def turn_open)
    (simp add: mem_git_def checkout_paths_def tree_of_commit_def checkout_path_def
      turn_repo_def turn_tree_def mem_id_def split_dir_def find_entry_def create_parent_dirs_def path_dirs_def fs_write_def turn_files_def
      fs_executable_def)

lemma turn_undo:
  "undo_impl (git_backend mem_git plain_walker) turn_codec ''r'' 0 ''s'' ''m'' turn_state turn_db
     = (Inr \<lparr>ur_reverted_files = [''f''], ur_message_id = ''m''\<rparr>,
        \<lparr>gw_fs = turn_files ''old'', gw_repo = turn_repo ''new'' (turn_repo ''old'' [])\<rparr>,
        turn_db\<lparr>db_reverts := [\<lparr>rw_id = 1, rw_public_id = ''r'', rw_session_id = 1, rw_message_id = ''m'',
          rw_snapshot_id = mem_id 5, rw_backend_id = ''git'', rw_created_at = ''t''\<rparr>]\<rparr>)"
  unfolding undo_impl_def turn_state_def turn_track turn_db_history
  by (simp add: turn_position turn_patches[simplified] turn_restore_old)
    (simp add: push_revert_state_def turn_db_def one_session_db_def resolve_session_internal_id_def turn_codec_def next_row_id_def turn_repo_def)

lemma turn_trees:
  fixes r defines "r \<equiv> turn_repo ''old'' (turn_repo ''new'' (turn_repo ''old'' []))"
  shows "mem_blob_at r (mem_id 7) ''f'' = Some (mem_id 6)" "mem_blob_at r (mem_id 4) ''f'' = Some (mem_id 3)"
    "mem_paths r (mem_id 7) = [''f'']" "mem_paths r (mem_id 4) = [''f'']"
    "mem_find r (mem_id 8) = Some (Mem_Commit (mem_id 7))" "mem_find r (mem_id 5) = Some (Mem_Commit (mem_id 4))"
  by (simp_all add: r_def turn_repo_def turn_tree_def mem_blob_at_def split_dir_def find_entry_def)

lemma turn_diff_new:
  "sb_diff (git_backend mem_git plain_walker) \<lparr>gw_fs = turn_files c, gw_repo = turn_repo ''old'' (turn_repo ''new'' (turn_repo ''old'' []))\<rparr>
      (mem_id 8) (mem_id 5)
     = (Inr [''f'', ''f''], \<lparr>gw_fs = turn_files c, gw_repo = turn_repo ''old'' (turn_repo ''new'' (turn_repo ''old'' []))\<rparr>)"
proof -
  let ?r = "turn_repo ''old'' (turn_repo ''new'' (turn_repo ''old'' []))"
  have "mem_diff ?r (mem_id 7) (mem_id 4) = [''f'', ''f'']"
    by (simp add: mem_diff_def mem_renamed_def turn_trees)
  then have "diff_commits mem_git ?r (mem_id 8) (mem_id 5) = Inr [''f'', ''f'']"
    by (simp add: diff_commits_def mem_git_def turn_trees List.map_filter_def)
  then show ?thesis by (simp add: git_backend_def git_diff_def turn_open)
qed

lemma turn_restore_new:
  "sb_restore_paths (git_backend mem_git plain_walker) \<lparr>gw_fs = turn_files c, gw_repo = turn_repo ''old'' (turn_repo ''new'' (turn_repo ''old'' []))\<rparr>
      (mem_id 5) [''f'', ''f'']
     = (Inr (), \<lparr>gw_fs = turn_files ''new'', gw_repo = turn_repo ''old'' (turn_repo ''new'' (turn_repo ''old'' []))\<rparr>)"
  by (simp add: git_backend_def git_restore_paths_def turn_open)
    (simp add: mem_git_def checkout_paths_def tree_of_commit_def checkout_path_def
      turn_repo_def turn_tree_def split_dir_def find_entry_def create_parent_dirs_def path_dirs_def fs_write_def turn_files_def
      fs_executable_def)

lemma turn_redo:
  "\<exists>s db. redo_impl (git_backend mem_git plain_walker) turn_codec 0 ''s''
      \<lparr>gw_fs = turn_files ''old'', gw_repo = turn_repo ''new'' (turn_repo ''old'' [])\<rparr>
      (turn_db\<lparr>db_reverts := [\<lparr>rw_id = 1, rw_public_id = ''r'', rw_session_id = 1, rw_message_id = ''m'',
          rw_snapshot_id = mem_id 5, rw_backend_id = ''git'', rw_created_at = ''t''\<rparr>]\<rparr>)
     = (Inr True, s, db)"
proof -
  let ?db = "turn_db\<lparr>db_reverts := [\<lparr>rw_id = 1, rw_public_id = ''r'', rw_session_id = 1, rw_message_id = ''m'',
          rw_snapshot_id = mem_id 5, rw_backend_id = ''git'', rw_created_at = ''t''\<rparr>]\<rparr>"
  obtain st where st: "peek_revert_state turn_codec 0 ''s'' ?db = Inr (Some st)" "rs_snapshot_id st = mem_id 5"
    by (simp add: peek_revert_state_def turn_db_def one_session_db_def resolve_session_internal_id_def last_revert_row_def
        session_revert_rows_def row_to_revert_state_def)
  obtain f d where d: "pop_revert_state turn_codec 0 ''s'' ?db = (Inr f, d)"
    by (simp add: pop_revert_state_def turn_db_def one_session_db_def resolve_session_internal_id_def last_revert_row_def
        session_revert_rows_def)
  have len: "length (turn_repo a r) = length r + 3" for a r by (simp add: turn_repo_def)
  show ?thesis unfolding redo_impl_def st(1) turn_track len
    by (simp add: st(2) turn_diff_new turn_restore_new d)
qed

lemma turn_tracked: "git_tracked plain_walker s p \<longleftrightarrow> \<not> hidden p"
  by (simp add: git_tracked_def plain_walker_def)

subsection \<open>A turn that renames a file\<close>

text \<open>The working directory held the file \<^verbatim>\<open>e\<close> when the turn started and holds \<^verbatim>\<open>f\<close> with the same content after it.\<close>

definition rename_repo :: mem_store where
  "rename_repo = [Mem_Commit (mem_id (Suc 0)), Mem_Tree [\<lparr>te_kind = Kind_Blob, te_filename = ''e'', te_oid = mem_id 0\<rparr>], Mem_Blob ''x'']"

definition renamed_state :: "mem_store git_state" where
  "renamed_state = \<lparr>gw_fs = turn_files ''x'', gw_repo = rename_repo\<rparr>"

definition rename_db :: session_db where
  "rename_db = one_session_db\<lparr>db_messages := [turn_row 1 ''m'' ''User'', turn_row 2 ''a'' ''Assistant''],
     db_parts := [\<lparr>pw_message_id = 1, pw_part_type = ''text'', pw_content_json = ''Tgo'', pw_sort_order = 0\<rparr>,
        \<lparr>pw_message_id = 2, pw_part_type = ''turn_snapshot_start'', pw_content_json = ''S00'', pw_sort_order = 0\<rparr>]\<rparr>"

lemma rename_trees:
  fixes r defines "r \<equiv> turn_repo ''x'' rename_repo"
  shows "mem_blob_at r (mem_id (Suc 0)) ''e'' = Some (mem_id 0)" "mem_blob_at r (mem_id (Suc 0)) ''f'' = None"
    "mem_blob_at r (mem_id 4) ''f'' = Some (mem_id 3)" "mem_blob_at r (mem_id 4) ''e'' = None"
    "mem_paths r (mem_id (Suc 0)) = [''e'']" "mem_paths r (mem_id 4) = [''f'']"
    "mem_find r (mem_id 0) = Some (Mem_Blob ''x'')" "mem_find r (mem_id 3) = Some (Mem_Blob ''x'')"
    "mem_find r (mem_id 2) = Some (Mem_Commit (mem_id (Suc 0)))" "mem_find r (mem_id 5) = Some (Mem_Commit (mem_id 4))"
  by (simp_all add: r_def rename_repo_def turn_repo_def turn_tree_def mem_blob_at_def split_dir_def find_entry_def)

lemma rename_db_after:
  "snd (store_add_message turn_codec 7 ''s'' (patch_message ''b'' ''s'' 7 (Part_TurnSnapshotPatch ''t'' (mem_id 5) [''f''])) rename_db) = turn_db"
  by (simp add: store_add_message_def rename_db_def turn_db_def one_session_db_def resolve_session_internal_id_def resolve_parent_def
      patch_message_def turn_codec_def Let_def role_str_def next_row_id_def index_as_i32_def turn_row_def mem_id_def numeral_eq_Suc)

lemma rename_post_turn:
  "post_turn_snapshot (git_backend mem_git plain_walker) turn_codec ''b'' 7 ''s'' (Some (''t'', ''00'')) renamed_state rename_db
     = (\<lparr>gw_fs = turn_files ''x'', gw_repo = turn_repo ''x'' rename_repo\<rparr>, turn_db)"
proof -
  have id: "''00'' = mem_id 2" by (simp add: mem_id_def numeral_2_eq_2)
  have len: "length rename_repo + 2 = 5" by (simp add: rename_repo_def)
  have "mem_diff (turn_repo ''x'' rename_repo) (mem_id (Suc 0)) (mem_id 4) = [''f'']"
    by (simp add: mem_diff_def mem_renamed_def rename_trees)
  then have "diff_commits mem_git (turn_repo ''x'' rename_repo) (mem_id 2) (mem_id 5) = Inr [''f'']"
    by (simp add: diff_commits_def mem_git_def rename_trees List.map_filter_def)
  then have "sb_diff (git_backend mem_git plain_walker) \<lparr>gw_fs = turn_files ''x'', gw_repo = turn_repo ''x'' rename_repo\<rparr> (mem_id 2) (mem_id 5)
      = (Inr [''f''], \<lparr>gw_fs = turn_files ''x'', gw_repo = turn_repo ''x'' rename_repo\<rparr>)"
    by (simp add: git_backend_def git_diff_def turn_open)
  then show ?thesis
    unfolding post_turn_snapshot_def renamed_state_def id turn_track len by (simp add: rename_db_after)
qed

lemma rename_undo:
  "\<exists>s2 db2. handle_undo (Some (git_backend mem_git plain_walker)) (Some ''/w'') turn_codec ''r'' 0 ''s'' ''m''
      \<lparr>gw_fs = turn_files ''x'', gw_repo = turn_repo ''x'' rename_repo\<rparr> turn_db
     = (Inr \<lparr>ur_reverted_files = [''f''], ur_message_id = ''m''\<rparr>, s2, db2)
     \<and> fs_contents (gw_fs s2) = Map.empty \<and> gw_repo s2 = turn_repo ''x'' (turn_repo ''x'' rename_repo)"
proof -
  let ?r = "turn_repo ''x'' (turn_repo ''x'' rename_repo)"
  let ?s = "\<lparr>gw_fs = (turn_files ''x'')\<lparr>fs_files := Map.empty\<rparr>, gw_repo = ?r\<rparr>"
  have id: "''00'' = mem_id 2" by (simp add: mem_id_def numeral_2_eq_2)
  have t: "mem_find ?r (mem_id 2) = Some (Mem_Commit (mem_id (Suc 0)))" "mem_lookup ?r (mem_id (Suc 0)) ''f'' = Inr None"
    by (simp_all add: rename_repo_def turn_repo_def turn_tree_def split_dir_def find_entry_def)
  have "checkout_paths mem_git ?r (mem_id 2) [''f''] (turn_files ''x'') = (Inr (), (turn_files ''x'')\<lparr>fs_files := Map.empty\<rparr>)"
    by (simp add: checkout_paths_def tree_of_commit_def checkout_path_def mem_git_def t)
      (simp add: turn_files_def fs_exists_def fs_remove_file_def)
  then have "restore_patches (git_backend mem_git plain_walker) [(''t'', mem_id 2, [''f''])] \<lparr>gw_fs = turn_files ''x'', gw_repo = ?r\<rparr>
      = ([''f''], ?s)"
    by (simp add: git_backend_def git_restore_paths_def turn_open)
  moreover obtain db2 where "push_revert_state turn_codec 0 ''s'' \<lparr>rs_public_id = ''r'', rs_session_id = ''s'', rs_message_id = ''m'',
      rs_snapshot_id = mem_id 8, rs_backend_id = ''git'', rs_created_at = 0\<rparr> turn_db = (Inr (), db2)"
    by (simp add: push_revert_state_def turn_db_def one_session_db_def resolve_session_internal_id_def)
  moreover have "length (turn_repo ''x'' rename_repo) + 2 = 8" by (simp add: turn_repo_def rename_repo_def)
  ultimately have "undo_impl (git_backend mem_git plain_walker) turn_codec ''r'' 0 ''s'' ''m''
      \<lparr>gw_fs = turn_files ''x'', gw_repo = turn_repo ''x'' rename_repo\<rparr> turn_db
     = (Inr \<lparr>ur_reverted_files = [''f''], ur_message_id = ''m''\<rparr>, ?s, db2)"
    unfolding undo_impl_def turn_track turn_db_history by (simp add: turn_position turn_patches[simplified] id)
  then show ?thesis by (simp add: handle_undo_def fs_contents_def[abs_def])
qed

text \<open>The snapshot of the start of the turn, which is still held.\<close>

lemma rename_snap: "repo_snap mem_git (turn_repo ''x'' (turn_repo ''x'' rename_repo)) ''00'' = Some [''e'' \<mapsto> ''x'']"
proof -
  let ?r = "turn_repo ''x'' (turn_repo ''x'' rename_repo)"
  have id: "''00'' = mem_id 2" by (simp add: mem_id_def numeral_2_eq_2)
  have t: "mem_find ?r (mem_id 2) = Some (Mem_Commit (mem_id (Suc 0)))" "mem_find ?r (mem_id 0) = Some (Mem_Blob ''x'')"
    by (simp_all add: rename_repo_def turn_repo_def turn_tree_def)
  have l: "mem_lookup ?r (mem_id (Suc 0)) p = Inr (if p = ''e'' then Some (Kind_Blob, mem_id 0) else None)" for p
    by (auto simp: rename_repo_def turn_repo_def turn_tree_def split_dir_def find_entry_def)
  have tm: "tree_map mem_git ?r (mem_id (Suc 0)) = [''e'' \<mapsto> ''x'']"
    by (auto simp: fun_eq_iff tree_map_def mem_blob_at mem_blob_at_def l) (simp_all add: mem_git_def t)
  have "sound_tree mem_git ?r (mem_id (Suc 0))"
    by (auto simp: sound_tree_def mem_git_def l t hidden_def)
  moreover have "gx_from_hex mem_git (mem_id 2)" "gx_find_commit mem_git ?r (mem_id 2) = Inr ()"
      "gx_commit_tree mem_git ?r (mem_id 2) = Inr (mem_id (Suc 0))"
    by (simp_all add: mem_git_def t)
  ultimately show ?thesis unfolding id repo_snap_def by (simp add: tm)
qed

section \<open>Properties\<close>

text \<open>C11: A redo after an undo brings back the contents of every file that snapshots cover, the stack of revert
  states and all histories, unless the undo both removed and brought back files (git reports a removed and an added
  file as one rename). Required are well-formed tables, a working directory without protected files, and recorded
  paths that are not hidden.\<close>

theorem redo_after_undo:
  assumes "git_good G W s" "tables_ok db" "get_history C sid db = Inr h" "position (\<lambda>m. am_id m = mid) h = Some k"
    "\<forall>(t, i, paths)\<in>set (undo_patches C sid (drop (Suc k) h) db). \<forall>p\<in>set paths. \<not> hidden p"
    "\<forall>t i paths. Part_TurnSnapshotPatch t i paths \<in> set (am_parts (h ! k)) \<longrightarrow> repo_snap G (gw_repo s) i \<noteq> None"
    "handle_undo (Some (git_backend G W)) (Some cwd) C uuid now sid mid s db = (Inr res, s1, db1)"
    "handle_redo (Some (git_backend G W)) (Some cwd) C now' sid s1 db1 = (Inr b, s2, db2)"
    "\<not> may_rename (\<lambda>p. if git_tracked W s1 p then fs_contents (gw_fs s1) p else None)
       (\<lambda>p. if git_tracked W s p then fs_contents (gw_fs s) p else None)"
  shows "(\<forall>p. git_tracked W s p \<longrightarrow> fs_contents (gw_fs s2) p = fs_contents (gw_fs s) p)
    \<and> (\<forall>t. revert_frames t db2 = revert_frames t db) \<and> (\<forall>t. get_history C t db2 = get_history C t db)"
proof -
  have u: "undo_impl (git_backend G W) C uuid now sid mid s db = (Inr res, s1, db1)"
    and r: "redo_impl (git_backend G W) C now' sid s1 db1 = (Inr b, s2, db2)"
    using assms(7,8) by (simp_all add: handle_undo_def handle_redo_def)
  have kn: "gb.known_snapshots G (am_parts (h ! k)) s" using assms(6) unfolding gb.known_snapshots_def .
  note ru = gb.redo_undo[OF assms(1-5) kn u r assms(9)]
  have "get_history C t db2 = get_history C t db" for t
    by (subst ru(5)) (rule get_history_cong, simp_all)
  then show ?thesis using ru(1,4) by blast
qed

theorem redo_after_undo_witness:
  "\<exists>res s1 db1 b s2 db2.
     handle_undo (Some (git_backend mem_git plain_walker)) (Some ''/w'') turn_codec ''r'' 0 ''s'' ''m'' turn_state turn_db = (Inr res, s1, db1) \<and>
     handle_redo (Some (git_backend mem_git plain_walker)) (Some ''/w'') turn_codec 0 ''s'' s1 db1 = (Inr b, s2, db2) \<and>
     fs_contents (gw_fs s1) ''f'' = Some ''old'' \<and> fs_contents (gw_fs s2) ''f'' = Some ''new''"
proof -
  obtain res s1 db1 where u: "handle_undo (Some (git_backend mem_git plain_walker)) (Some ''/w'') turn_codec ''r'' 0 ''s'' ''m'' turn_state turn_db
      = (Inr res, s1, db1)" "s1 = \<lparr>gw_fs = turn_files ''old'', gw_repo = turn_repo ''new'' (turn_repo ''old'' [])\<rparr>"
      "db1 = turn_db\<lparr>db_reverts := [\<lparr>rw_id = 1, rw_public_id = ''r'', rw_session_id = 1, rw_message_id = ''m'',
          rw_snapshot_id = mem_id 5, rw_backend_id = ''git'', rw_created_at = ''t''\<rparr>]\<rparr>"
    by (simp add: handle_undo_def turn_undo)
  obtain s2 db2 where r: "handle_redo (Some (git_backend mem_git plain_walker)) (Some ''/w'') turn_codec 0 ''s'' s1 db1 = (Inr True, s2, db2)"
    using turn_redo unfolding u(2,3) by (auto simp: handle_redo_def)
  have pl: "\<forall>(t, i, paths)\<in>set (undo_patches turn_codec ''s'' (drop (Suc 0) turn_history) turn_db). \<forall>p\<in>set paths. \<not> hidden p"
    unfolding turn_patches by (simp add: not_hidden_f)
  have kn: "\<forall>t i paths. Part_TurnSnapshotPatch t i paths \<in> set (am_parts (turn_history ! 0))
      \<longrightarrow> repo_snap mem_git (gw_repo turn_state) i \<noteq> None"
    by (simp add: turn_history_def sample_message_def)
  have nr: "\<not> may_rename (\<lambda>p. if git_tracked plain_walker s1 p then fs_contents (gw_fs s1) p else None)
      (\<lambda>p. if git_tracked plain_walker turn_state p then fs_contents (gw_fs turn_state) p else None)"
    unfolding may_rename_def u(2) turn_tracked
    by (auto simp: turn_state_def turn_files_def fs_contents_def dom_def split: if_splits)
  have "fs_contents (gw_fs s2) ''f'' = fs_contents (gw_fs turn_state) ''f''"
    using redo_after_undo[OF turn_good turn_db_ok(1) turn_db_history turn_position pl kn u(1) r nr]
    by (simp add: turn_tracked not_hidden_f)
  then have "fs_contents (gw_fs s1) ''f'' = Some ''old''" "fs_contents (gw_fs s2) ''f'' = Some ''new''"
    by (simp_all add: u(2) turn_state_def turn_files_def fs_contents_def)
  then show ?thesis using u(1) r by blast
qed



text \<open>An undo that finds recorded turns changes no file but those the turns recorded; in particular it never brings
  back a file that a turn renamed, of which only the new path is recorded.\<close>

theorem undo_touches_recorded_paths:
  assumes "git_good G W s" "get_history C sid db = Inr h" "position (\<lambda>m. am_id m = mid) h = Some k"
    "undo_patches C sid (drop (Suc k) h) db = ps" "ps \<noteq> []" "\<forall>(t, i, paths)\<in>set ps. \<forall>p\<in>set paths. \<not> hidden p"
    "handle_undo (Some (git_backend G W)) (Some cwd) C uuid now sid mid s db = (Inr res, s', db')"
    "p \<notin> set (concat (map (\<lambda>(t, i, paths). paths) ps))"
  shows "fs_contents (gw_fs s') p = fs_contents (gw_fs s) p"
proof -
  have u: "undo_impl (git_backend G W) C uuid now sid mid s db = (Inr res, s', db')"
    using assms(7) by (simp add: handle_undo_def)
  show ?thesis by (rule gb.undo_frame[OF assms(1) u assms(2-6,8)])
qed

theorem undo_touches_recorded_paths_witness:
  "\<exists>res s1 db1.
     handle_undo (Some (git_backend mem_git plain_walker)) (Some ''/w'') turn_codec ''r'' 0 ''s'' ''m'' turn_state turn_db = (Inr res, s1, db1)
     \<and> fs_contents (gw_fs s1) ''g'' = None"
proof -
  obtain res s1 db1 where u: "handle_undo (Some (git_backend mem_git plain_walker)) (Some ''/w'') turn_codec ''r'' 0 ''s'' ''m'' turn_state turn_db
      = (Inr res, s1, db1)" by (simp add: handle_undo_def turn_undo)
  have "fs_contents (gw_fs s1) ''g'' = fs_contents (gw_fs turn_state) ''g''"
    by (rule undo_touches_recorded_paths[OF turn_good turn_db_history turn_position turn_patches _ _ u]) (simp_all add: not_hidden_f)
  then show ?thesis using u by (auto simp: turn_state_def turn_files_def fs_contents_def)
qed






end
