(* ===== verification/Schedule.thy ===== *)
theory Schedule
  imports Session_Error "HOL-Library.List_Lexorder" "HOL-Library.Char_ord" "HOL-Library.Product_Lexorder"
    "HOL-Library.Multiset"
begin

text \<open>
  Schedules: the domain types of \<^verbatim>\<open>crates/agent/src/session/domain_schedule.rs\<close>, the SQL repository of
  \<^verbatim>\<open>session/repo_schedule.rs\<close>, and the deadline queue, event accumulator and delay computations of
  \<^verbatim>\<open>scheduler/wake.rs\<close>.

  \<^item> An \<^verbatim>\<open>OffsetDateTime\<close> is its number of nanoseconds since the epoch, an \<open>int\<close>; a \<^verbatim>\<open>time::Duration\<close> is a
    number of nanoseconds too.
  \<^item> The text columns of a row are strings; RFC 3339 formatting and the JSON columns are the functions of a
    \<open>schedule_codec\<close>, since the \<^verbatim>\<open>time\<close> and \<^verbatim>\<open>serde_json\<close> crates are not part of the repository.
    SQL compares text columns as byte strings, here lexicographically.
  \<^item> Where a query leaves an order open (equal keys of \<^verbatim>\<open>ORDER BY\<close>), rows keep the order of the table.
\<close>

type_synonym datetime = int

definition seconds_ns :: "int \<Rightarrow> int" where
  "seconds_ns s = s * 1000000000"

section \<open>The domain types\<close>

record event_trigger_filter =
  tf_event_kinds :: "string list"
  tf_threshold :: u32
  tf_session_public_id :: "string option"

datatype schedule_trigger =
    Interval u64
  | EventDriven event_trigger_filter u64
  | OnceAt datetime

datatype schedule_state = Armed | Running | Paused | Exhausted | Failed

fun schedule_state_display :: "schedule_state \<Rightarrow> string" where
  "schedule_state_display Armed = ''armed''"
| "schedule_state_display Running = ''running''"
| "schedule_state_display Paused = ''paused''"
| "schedule_state_display Exhausted = ''exhausted''"
| "schedule_state_display Failed = ''failed''"

definition schedule_state_from_str :: "string \<Rightarrow> string + schedule_state" where
  "schedule_state_from_str s =
    (if s = ''armed'' then Inr Armed
     else if s = ''running'' then Inr Running
     else if s = ''paused'' then Inr Paused
     else if s = ''exhausted'' then Inr Exhausted
     else if s = ''failed'' then Inr Failed
     else Inl (''Unknown schedule state: '' @ s))"

record schedule_execution_limits =
  el_max_steps :: "u32 option"
  el_max_cost_usd :: "real option"

record schedule_config =
  sc_max_runs :: "u32 option"
  sc_max_consecutive_failures :: u32
  sc_max_runtime_seconds :: u64
  sc_jitter_percent :: u8
  sc_backoff_base_seconds :: u64
  sc_execution_limits :: "schedule_execution_limits option"

definition default_schedule_config :: schedule_config where
  "default_schedule_config = \<lparr>sc_max_runs = None, sc_max_consecutive_failures = 3, sc_max_runtime_seconds = 120,
     sc_jitter_percent = 10, sc_backoff_base_seconds = 60, sc_execution_limits = None\<rparr>"

record schedule =
  s_id :: int
  s_public_id :: string
  s_task_public_id :: string
  s_session_public_id :: string
  s_task_id :: int
  s_session_id :: int
  s_trigger :: schedule_trigger
  s_state :: schedule_state
  s_last_run_at :: "datetime option"
  s_next_run_at :: "datetime option"
  s_run_count :: u32
  s_consecutive_failures :: u32
  s_config :: schedule_config
  s_created_at :: datetime
  s_updated_at :: datetime

text \<open>\<^verbatim>\<open>Schedule::new\<close>; the fresh identifier and the clock are arguments. The cast \<^verbatim>\<open>seconds as i64\<close>
  reinterprets the 64 bits as a signed number.\<close>

definition schedule_new :: "string \<Rightarrow> datetime \<Rightarrow> string \<Rightarrow> string \<Rightarrow> schedule_trigger \<Rightarrow> schedule" where
  "schedule_new uuid now task session trigger =
    (let is_once = (case trigger of OnceAt _ \<Rightarrow> True | _ \<Rightarrow> False);
         next_run = (case trigger of
             Interval seconds \<Rightarrow> Some (now + seconds_ns (sint seconds))
           | EventDriven _ _ \<Rightarrow> None
           | OnceAt t \<Rightarrow> Some t);
         config = (if is_once then default_schedule_config\<lparr>sc_max_runs := Some 1\<rparr> else default_schedule_config)
     in \<lparr>s_id = 0, s_public_id = uuid, s_task_public_id = task, s_session_public_id = session,
         s_task_id = 0, s_session_id = 0, s_trigger = trigger, s_state = Armed, s_last_run_at = None,
         s_next_run_at = next_run, s_run_count = 0, s_consecutive_failures = 0, s_config = config,
         s_created_at = now, s_updated_at = now\<rparr>)"

definition is_valid_transition :: "schedule_state \<Rightarrow> schedule_state \<Rightarrow> bool" where
  "is_valid_transition from to = ((from, to) \<in>
     {(Armed, Running), (Running, Armed), (Running, Exhausted), (Running, Failed),
      (Armed, Paused), (Running, Paused), (Paused, Armed)})"

section \<open>The tables\<close>

record schedule_codec =
  dc_format :: "datetime \<Rightarrow> string"                          \<comment> \<open>\<^verbatim>\<open>format(&Rfc3339).unwrap_or_default()\<close>\<close>
  dc_parse :: "string \<Rightarrow> datetime option"
  dc_trigger_to :: "schedule_trigger \<Rightarrow> string + string"     \<comment> \<open>\<^verbatim>\<open>serde_json::to_string\<close>, \<open>Inl\<close> its error text\<close>
  dc_trigger_of :: "string \<Rightarrow> schedule_trigger option"
  dc_config_to :: "schedule_config \<Rightarrow> string + string"
  dc_config_of :: "string \<Rightarrow> schedule_config option"

record schedule_row =
  r_id :: int
  r_public_id :: string
  r_task_id :: int
  r_task_public_id :: string
  r_session_id :: int
  r_session_public_id :: string
  r_trigger_json :: string
  r_state :: string
  r_last_run_at :: "string option"
  r_next_run_at :: "string option"
  r_run_count :: u32
  r_consecutive_failures :: u32
  r_config_json :: string
  r_created_at :: string
  r_updated_at :: string

record lease_row =
  l_owner_id :: string
  l_acquired_at :: string
  l_expires_at :: string

text \<open>The two tables of the repository with the row identifiers their foreign keys may refer to.\<close>

record schedule_db =
  d_schedules :: "schedule_row list"
  d_lease :: "lease_row option"
  d_task_ids :: "int list"
  d_session_ids :: "int list"

datatype sql_error = InvalidQuery | QueryReturnedNoRows | ConstraintViolation

fun sql_error_display :: "sql_error \<Rightarrow> string" where
  "sql_error_display InvalidQuery = ''Query is not read-only''"
| "sql_error_display QueryReturnedNoRows = ''Query returned no rows''"
| "sql_error_display ConstraintViolation = ''constraint failed''"

definition session_error_of_sql :: "sql_error \<Rightarrow> session_error" where
  "session_error_of_sql e = DatabaseError (sql_error_display e)"

definition lift_sql :: "sql_error + 'a \<Rightarrow> session_error + 'a" where
  "lift_sql r = (case r of Inl e \<Rightarrow> Inl (session_error_of_sql e) | Inr x \<Rightarrow> Inr x)"

section \<open>Rows and schedules\<close>

definition parse_dt :: "schedule_codec \<Rightarrow> string \<Rightarrow> sql_error + datetime" where
  "parse_dt C s = (case dc_parse C s of Some t \<Rightarrow> Inr t | None \<Rightarrow> Inl InvalidQuery)"

definition parse_dt_opt :: "schedule_codec \<Rightarrow> string option \<Rightarrow> sql_error + datetime option" where
  "parse_dt_opt C s = (case s of Some v \<Rightarrow> map_sum id Some (parse_dt C v) | None \<Rightarrow> Inr None)"

definition row_to_schedule :: "schedule_codec \<Rightarrow> schedule_row \<Rightarrow> sql_error + schedule" where
  "row_to_schedule C r =
    (case dc_trigger_of C (r_trigger_json r) of None \<Rightarrow> Inl InvalidQuery | Some trigger \<Rightarrow>
     case dc_config_of C (r_config_json r) of None \<Rightarrow> Inl InvalidQuery | Some config \<Rightarrow>
     case schedule_state_from_str (r_state r) of Inl _ \<Rightarrow> Inl InvalidQuery | Inr state \<Rightarrow>
     case parse_dt_opt C (r_last_run_at r) of Inl e \<Rightarrow> Inl e | Inr last_run \<Rightarrow>
     case parse_dt_opt C (r_next_run_at r) of Inl e \<Rightarrow> Inl e | Inr next_run \<Rightarrow>
     case parse_dt C (r_created_at r) of Inl e \<Rightarrow> Inl e | Inr created \<Rightarrow>
     case parse_dt C (r_updated_at r) of Inl e \<Rightarrow> Inl e | Inr updated \<Rightarrow>
     Inr \<lparr>s_id = r_id r, s_public_id = r_public_id r, s_task_public_id = r_task_public_id r,
       s_session_public_id = r_session_public_id r, s_task_id = r_task_id r, s_session_id = r_session_id r,
       s_trigger = trigger, s_state = state, s_last_run_at = last_run, s_next_run_at = next_run,
       s_run_count = r_run_count r, s_consecutive_failures = r_consecutive_failures r, s_config = config,
       s_created_at = created, s_updated_at = updated\<rparr>)"

text \<open>\<^verbatim>\<open>rows.collect::<Result<Vec<_>, _>>()\<close>: the first row that cannot be read fails the query.\<close>

fun collect_rows :: "schedule_codec \<Rightarrow> schedule_row list \<Rightarrow> sql_error + schedule list" where
  "collect_rows C [] = Inr []"
| "collect_rows C (r # rs) =
    (case row_to_schedule C r of Inl e \<Rightarrow> Inl e | Inr s \<Rightarrow> map_sum id (\<lambda>ss. s # ss) (collect_rows C rs))"

text \<open>The columns that \<^verbatim>\<open>create_schedule\<close> writes.\<close>

definition schedule_to_row :: "schedule_codec \<Rightarrow> int \<Rightarrow> string \<Rightarrow> string \<Rightarrow> schedule \<Rightarrow> schedule_row" where
  "schedule_to_row C i trigger_json config_json s =
    \<lparr>r_id = i, r_public_id = s_public_id s, r_task_id = s_task_id s, r_task_public_id = s_task_public_id s,
     r_session_id = s_session_id s, r_session_public_id = s_session_public_id s, r_trigger_json = trigger_json,
     r_state = schedule_state_display (s_state s), r_last_run_at = map_option (dc_format C) (s_last_run_at s),
     r_next_run_at = map_option (dc_format C) (s_next_run_at s), r_run_count = s_run_count s,
     r_consecutive_failures = s_consecutive_failures s, r_config_json = config_json,
     r_created_at = dc_format C (s_created_at s), r_updated_at = dc_format C (s_updated_at s)\<rparr>"

section \<open>The repository\<close>

text \<open>A new row gets the largest row identifier plus one, as SQLite assigns it. The insertion fails when the
  public identifier is taken or a foreign key has no row.\<close>

definition create_schedule ::
    "schedule_codec \<Rightarrow> string \<Rightarrow> schedule \<Rightarrow> schedule_db \<Rightarrow> (session_error + schedule) \<times> schedule_db" where
  "create_schedule C uuid s0 db =
    (let s = (if s_public_id s0 = [] then s0\<lparr>s_public_id := uuid\<rparr> else s0) in
     case dc_trigger_to C (s_trigger s) of Inl e \<Rightarrow> (Inl (SerializationError e), db) | Inr tj \<Rightarrow>
     case dc_config_to C (s_config s) of Inl e \<Rightarrow> (Inl (SerializationError e), db) | Inr cj \<Rightarrow>
     if s_public_id s \<in> set (map r_public_id (d_schedules db)) \<or> s_task_id s \<notin> set (d_task_ids db)
        \<or> s_session_id s \<notin> set (d_session_ids db)
     then (Inl (session_error_of_sql ConstraintViolation), db)
     else
       let i = 1 + fold max (map r_id (d_schedules db)) 0 in
       (Inr (s\<lparr>s_id := i\<rparr>), db\<lparr>d_schedules := d_schedules db @ [schedule_to_row C i tj cj s]\<rparr>))"

definition get_schedule :: "schedule_codec \<Rightarrow> string \<Rightarrow> schedule_db \<Rightarrow> session_error + schedule option" where
  "get_schedule C pid db =
    (case List.find (\<lambda>r. r_public_id r = pid) (d_schedules db) of
       None \<Rightarrow> Inr None
     | Some r \<Rightarrow> map_sum session_error_of_sql Some (row_to_schedule C r))"

definition list_schedules :: "schedule_codec \<Rightarrow> string \<Rightarrow> schedule_db \<Rightarrow> session_error + schedule list" where
  "list_schedules C spid db = lift_sql (collect_rows C
     (sort_key r_created_at (filter (\<lambda>r. r_session_public_id r = spid) (d_schedules db))))"

text \<open>\<^verbatim>\<open>NULL\<close> sorts before every text.\<close>

definition null_first :: "string option \<Rightarrow> bool \<times> string" where
  "null_first v = (case v of None \<Rightarrow> (False, []) | Some s \<Rightarrow> (True, s))"

definition list_all_armed_schedules :: "schedule_codec \<Rightarrow> schedule_db \<Rightarrow> session_error + schedule list" where
  "list_all_armed_schedules C db = lift_sql (collect_rows C
     (sort_key (\<lambda>r. null_first (r_next_run_at r)) (filter (\<lambda>r. r_state r = ''armed'') (d_schedules db))))"

definition update_row :: "schedule_codec \<Rightarrow> string \<Rightarrow> string \<Rightarrow> schedule \<Rightarrow> schedule_row \<Rightarrow> schedule_row" where
  "update_row C trigger_json config_json s r =
    r\<lparr>r_trigger_json := trigger_json, r_state := schedule_state_display (s_state s),
      r_last_run_at := map_option (dc_format C) (s_last_run_at s),
      r_next_run_at := map_option (dc_format C) (s_next_run_at s), r_run_count := s_run_count s,
      r_consecutive_failures := s_consecutive_failures s, r_config_json := config_json,
      r_updated_at := dc_format C (s_updated_at s)\<rparr>"

definition update_schedule ::
    "schedule_codec \<Rightarrow> schedule \<Rightarrow> schedule_db \<Rightarrow> (session_error + unit) \<times> schedule_db" where
  "update_schedule C s db =
    (case dc_trigger_to C (s_trigger s) of Inl e \<Rightarrow> (Inl (SerializationError e), db) | Inr tj \<Rightarrow>
     case dc_config_to C (s_config s) of Inl e \<Rightarrow> (Inl (SerializationError e), db) | Inr cj \<Rightarrow>
     if s_public_id s \<notin> set (map r_public_id (d_schedules db))
     then (Inl (OtherSessionError (''Schedule not found: '' @ s_public_id s)), db)
     else (Inr (), db\<lparr>d_schedules :=
       map (\<lambda>r. if r_public_id r = s_public_id s then update_row C tj cj s r else r) (d_schedules db)\<rparr>))"

text \<open>The compare-and-swap statement; the public identifier is unique, so at most one row is affected.\<close>

definition update_schedule_state ::
    "schedule_codec \<Rightarrow> datetime \<Rightarrow> string \<Rightarrow> schedule_state \<Rightarrow> schedule_state \<Rightarrow> schedule_db \<Rightarrow> bool \<times> schedule_db" where
  "update_schedule_state C now pid from to db =
    (let hit = (\<lambda>r. r_public_id r = pid \<and> r_state r = schedule_state_display from) in
     (length (filter hit (d_schedules db)) = 1,
      db\<lparr>d_schedules := map (\<lambda>r. if hit r then r\<lparr>r_state := schedule_state_display to, r_updated_at := dc_format C now\<rparr>
                                 else r) (d_schedules db)\<rparr>))"

definition delete_schedule :: "string \<Rightarrow> schedule_db \<Rightarrow> (session_error + unit) \<times> schedule_db" where
  "delete_schedule pid db =
    (if filter (\<lambda>r. r_public_id r = pid) (d_schedules db) = []
     then (Inl (OtherSessionError (''Schedule not found: '' @ pid)), db)
     else (Inr (), db\<lparr>d_schedules := filter (\<lambda>r. r_public_id r \<noteq> pid) (d_schedules db)\<rparr>))"

definition get_schedule_for_task :: "schedule_codec \<Rightarrow> string \<Rightarrow> schedule_db \<Rightarrow> session_error + schedule option" where
  "get_schedule_for_task C tpid db =
    (case List.find (\<lambda>r. r_task_public_id r = tpid) (d_schedules db) of
       None \<Rightarrow> Inr None
     | Some r \<Rightarrow> map_sum session_error_of_sql Some (row_to_schedule C r))"

text \<open>A comparison with \<^verbatim>\<open>NULL\<close> is not true, so a row that never ran is not listed.\<close>

definition list_running_schedules_older_than ::
    "schedule_codec \<Rightarrow> datetime \<Rightarrow> schedule_db \<Rightarrow> session_error + schedule list" where
  "list_running_schedules_older_than C cutoff db = lift_sql (collect_rows C
     (sort_key (\<lambda>r. null_first (r_last_run_at r))
       (filter (\<lambda>r. r_state r = ''running'' \<and>
          (case r_last_run_at r of Some t \<Rightarrow> t < dc_format C cutoff | None \<Rightarrow> False)) (d_schedules db))))"

section \<open>The scheduler lease\<close>

definition lease_for :: "schedule_codec \<Rightarrow> string \<Rightarrow> datetime \<Rightarrow> u64 \<Rightarrow> lease_row" where
  "lease_for C owner now ttl = \<lparr>l_owner_id = owner, l_acquired_at = dc_format C now,
     l_expires_at = dc_format C (now + seconds_ns (sint ttl))\<rparr>"

definition try_acquire_scheduler_lease ::
    "schedule_codec \<Rightarrow> datetime \<Rightarrow> string \<Rightarrow> u64 \<Rightarrow> schedule_db \<Rightarrow> bool \<times> schedule_db" where
  "try_acquire_scheduler_lease C now owner ttl db =
    (case d_lease db of
       None \<Rightarrow> (True, db\<lparr>d_lease := Some (lease_for C owner now ttl)\<rparr>)
     | Some l \<Rightarrow>
         (if l_expires_at l < dc_format C now then (True, db\<lparr>d_lease := Some (lease_for C owner now ttl)\<rparr>)
          else (False, db)))"

definition renew_scheduler_lease ::
    "schedule_codec \<Rightarrow> datetime \<Rightarrow> string \<Rightarrow> u64 \<Rightarrow> schedule_db \<Rightarrow> bool \<times> schedule_db" where
  "renew_scheduler_lease C now owner ttl db =
    (case d_lease db of
       None \<Rightarrow> (False, db)
     | Some l \<Rightarrow>
         (if l_owner_id l = owner \<and> dc_format C now \<le> l_expires_at l
          then (True, db\<lparr>d_lease := Some (lease_for C owner now ttl)\<rparr>) else (False, db)))"

definition release_scheduler_lease :: "string \<Rightarrow> schedule_db \<Rightarrow> bool \<times> schedule_db" where
  "release_scheduler_lease owner db =
    (case d_lease db of
       None \<Rightarrow> (False, db)
     | Some l \<Rightarrow> (if l_owner_id l = owner then (True, db\<lparr>d_lease := None\<rparr>) else (False, db)))"

section \<open>The deadline queue\<close>

text \<open>The binary heap of the standard library is observed only through its least entry, its length and a
  filter, so it is the list of its entries in insertion order. Deadlines are cast to \<^verbatim>\<open>i64\<close>.\<close>

type_synonym deadline_queue = "(int \<times> string) list"

definition as_i64 :: "int \<Rightarrow> int" where
  "as_i64 n = (n + 2 ^ 63) mod 2 ^ 64 - 2 ^ 63"

definition dq_insert :: "datetime \<Rightarrow> string \<Rightarrow> deadline_queue \<Rightarrow> deadline_queue" where
  "dq_insert t pid q = q @ [(as_i64 t, pid)]"

definition dq_peek :: "deadline_queue \<Rightarrow> (datetime \<times> string) option" where
  "dq_peek q = (case q of [] \<Rightarrow> None | e # es \<Rightarrow> Some (fold min es e))"

definition dq_remove :: "string \<Rightarrow> deadline_queue \<Rightarrow> deadline_queue" where
  "dq_remove pid q = filter (\<lambda>(_, i). i \<noteq> pid) q"

definition dq_len :: "deadline_queue \<Rightarrow> nat" where
  "dq_len q = length q"

section \<open>The event accumulator\<close>

text \<open>The handle of the debounce timer is the number of a spawned task.\<close>

record event_accumulator =
  ea_count :: u32
  ea_threshold :: u32
  ea_debounce_until :: "datetime option"
  ea_debounce_handle :: "nat option"

definition ea_new :: "u32 \<Rightarrow> event_accumulator" where
  "ea_new threshold = \<lparr>ea_count = 0, ea_threshold = threshold, ea_debounce_until = None, ea_debounce_handle = None\<rparr>"

definition ea_increment :: "event_accumulator \<Rightarrow> bool \<times> event_accumulator" where
  "ea_increment a = (ea_threshold a \<le> ea_count a + 1, a\<lparr>ea_count := ea_count a + 1\<rparr>)"

text \<open>The result names the task to abort, if there is one.\<close>

definition ea_reset :: "event_accumulator \<Rightarrow> nat option \<times> event_accumulator" where
  "ea_reset a = (ea_debounce_handle a, a\<lparr>ea_count := 0, ea_debounce_until := None, ea_debounce_handle := None\<rparr>)"

definition ea_threshold_met :: "event_accumulator \<Rightarrow> bool" where
  "ea_threshold_met a = (ea_threshold a \<le> ea_count a)"

definition ea_is_debouncing :: "datetime \<Rightarrow> event_accumulator \<Rightarrow> bool" where
  "ea_is_debouncing now a = (case ea_debounce_until a of Some until \<Rightarrow> now < until | None \<Rightarrow> False)"

section \<open>Delays\<close>

text \<open>Floating point arithmetic here is exact arithmetic followed by rounding; \<open>rnd\<close> is the rounding
  of IEEE 754. Every intermediate value is finite and in the range of \<^verbatim>\<open>f64\<close>. \<^verbatim>\<open>as i64\<close> truncates towards
  zero and saturates.\<close>

definition f64_as_i64 :: "real \<Rightarrow> int" where
  "f64_as_i64 x = max (- (2 ^ 63)) (min (2 ^ 63 - 1) (if 0 \<le> x then \<lfloor>x\<rfloor> else \<lceil>x\<rceil>))"

definition jittered_interval :: "(real \<Rightarrow> real) \<Rightarrow> u64 \<Rightarrow> u8 \<Rightarrow> datetime \<Rightarrow> int" where
  "jittered_interval rnd interval_seconds jitter_percent from =
    (let interval = rnd (real (unat interval_seconds));
         jitter_fraction = rnd (real (unat jitter_percent) / 100);
         jitter_range = rnd (interval * jitter_fraction);
         pseudo_random = rnd (real_of_int (from mod 2 ^ 64 mod 1000) / 1000);
         jitter_offset = rnd (rnd (rnd (pseudo_random * 2) - 1) * jitter_range)
     in f64_as_i64 (max (rnd (interval + jitter_offset)) 1))"

definition compute_next_run_at :: "(real \<Rightarrow> real) \<Rightarrow> u64 \<Rightarrow> u8 \<Rightarrow> datetime \<Rightarrow> datetime" where
  "compute_next_run_at rnd interval_seconds jitter_percent from =
    from + seconds_ns (jittered_interval rnd interval_seconds jitter_percent from)"

definition saturating_pow :: "'a::len word \<Rightarrow> nat \<Rightarrow> 'a word" where
  "saturating_pow a n = (if unat a ^ n < 2 ^ LENGTH('a) then a ^ n else - 1)"

definition compute_backoff :: "(real \<Rightarrow> real) \<Rightarrow> datetime \<Rightarrow> u64 \<Rightarrow> u32 \<Rightarrow> u8 \<Rightarrow> int" where
  "compute_backoff rnd now backoff_base_seconds consecutive_failures jitter_percent =
    (let expo = saturating_pow (2 :: u64) (unat consecutive_failures);
         raw_delay = min (saturating_mul backoff_base_seconds expo) 3600;
         jittered = compute_next_run_at rnd raw_delay jitter_percent now
     in max (jittered - now) (seconds_ns 1))"

section \<open>Laws of the parameters\<close>

text \<open>The instants with a four-digit year, which RFC 3339 can express.\<close>

definition rfc3339_range :: "datetime \<Rightarrow> bool" where
  "rfc3339_range t = (seconds_ns (- 62167219200) \<le> t \<and> t < seconds_ns 253402300800)"

text \<open>Formatting and parsing are inverse, the fixed-width part of a formatted instant down to the second
  orders the texts, and JSON texts are read back as the value that was written.\<close>

definition codec_ok :: "schedule_codec \<Rightarrow> bool" where
  "codec_ok C =
    ((\<forall>t. rfc3339_range t \<longrightarrow> dc_parse C (dc_format C t) = Some t) \<and>
     (\<forall>a b. rfc3339_range a \<longrightarrow> rfc3339_range b \<longrightarrow> a div 1000000000 < b div 1000000000
        \<longrightarrow> dc_format C a < dc_format C b) \<and>
     (\<forall>x j. dc_trigger_to C x = Inr j \<longrightarrow> dc_trigger_of C j = Some x) \<and>
     (\<forall>x j. dc_config_to C x = Inr j \<longrightarrow> dc_config_of C j = Some x))"

definition times_ok :: "schedule \<Rightarrow> bool" where
  "times_ok s = (rfc3339_range (s_created_at s) \<and> rfc3339_range (s_updated_at s) \<and>
     pred_option rfc3339_range (s_last_run_at s) \<and> pred_option rfc3339_range (s_next_run_at s))"

lemma codec_parse: "codec_ok C \<Longrightarrow> rfc3339_range t \<Longrightarrow> dc_parse C (dc_format C t) = Some t"
  by (simp add: codec_ok_def)

lemma codec_less:
  "codec_ok C \<Longrightarrow> rfc3339_range a \<Longrightarrow> rfc3339_range b \<Longrightarrow> a div 1000000000 < b div 1000000000
    \<Longrightarrow> dc_format C a < dc_format C b"
  by (simp add: codec_ok_def)

lemma codec_trigger: "codec_ok C \<Longrightarrow> dc_trigger_to C x = Inr j \<Longrightarrow> dc_trigger_of C j = Some x"
  by (simp add: codec_ok_def)

lemma codec_config: "codec_ok C \<Longrightarrow> dc_config_to C x = Inr j \<Longrightarrow> dc_config_of C j = Some x"
  by (simp add: codec_ok_def)

lemmas codec_laws = codec_parse codec_trigger codec_config

lemma schedule_state_roundtrip [simp]: "schedule_state_from_str (schedule_state_display s) = Inr s"
  by (cases s) (simp_all add: schedule_state_from_str_def)

lemma schedule_state_display_inj [simp]: "schedule_state_display a = schedule_state_display b \<longleftrightarrow> a = b"
  using schedule_state_roundtrip [of a] schedule_state_roundtrip [of b] by (metis sum.inject(2))

lemma schedule_state_parsed: "schedule_state_from_str s = Inr st \<Longrightarrow> s = schedule_state_display st"
  by (auto simp: schedule_state_from_str_def split: if_splits)

section \<open>The repository as a map\<close>

definition abs_schedules :: "schedule_codec \<Rightarrow> schedule_db \<Rightarrow> string \<Rightarrow> schedule option" where
  "abs_schedules C db pid =
    (case List.find (\<lambda>r. r_public_id r = pid) (d_schedules db) of
       None \<Rightarrow> None
     | Some r \<Rightarrow> (case row_to_schedule C r of Inr s \<Rightarrow> Some s | Inl _ \<Rightarrow> None))"

text \<open>Public identifiers are unique, as the schema says, and every row can be read.\<close>

definition db_ok :: "schedule_codec \<Rightarrow> schedule_db \<Rightarrow> bool" where
  "db_ok C db = (distinct (map r_public_id (d_schedules db)) \<and>
     (\<forall>r \<in> set (d_schedules db). \<exists>s. row_to_schedule C r = Inr s))"

definition stored_update :: "schedule \<Rightarrow> schedule \<Rightarrow> schedule" where
  "stored_update s old = old\<lparr>s_trigger := s_trigger s, s_state := s_state s, s_last_run_at := s_last_run_at s,
     s_next_run_at := s_next_run_at s, s_run_count := s_run_count s,
     s_consecutive_failures := s_consecutive_failures s, s_config := s_config s, s_updated_at := s_updated_at s\<rparr>"

lemma row_of_schedule:
  assumes "codec_ok C" "times_ok s" "dc_trigger_to C (s_trigger s) = Inr tj" "dc_config_to C (s_config s) = Inr cj"
  shows "row_to_schedule C (schedule_to_row C i tj cj s) = Inr (s\<lparr>s_id := i\<rparr>)"
  using assms
  by (cases "s_last_run_at s"; cases "s_next_run_at s")
     (simp_all add: row_to_schedule_def schedule_to_row_def codec_laws times_ok_def parse_dt_opt_def parse_dt_def)

lemma row_of_update:
  assumes "codec_ok C" "times_ok s" "dc_trigger_to C (s_trigger s) = Inr tj" "dc_config_to C (s_config s) = Inr cj"
    and "row_to_schedule C r = Inr old"
  shows "row_to_schedule C (update_row C tj cj s r) = Inr (stored_update s old)"
  using assms
  by (cases "s_last_run_at s"; cases "s_next_run_at s")
     (auto simp: row_to_schedule_def update_row_def codec_laws times_ok_def parse_dt_opt_def parse_dt_def
       stored_update_def split: option.splits sum.splits)

lemma row_of_cas:
  assumes "codec_ok C" "rfc3339_range now" "row_to_schedule C r = Inr old"
  shows "row_to_schedule C (r\<lparr>r_state := schedule_state_display to, r_updated_at := dc_format C now\<rparr>)
    = Inr (old\<lparr>s_state := to, s_updated_at := now\<rparr>)"
  using assms
  by (auto simp: row_to_schedule_def codec_laws parse_dt_def split: option.splits sum.splits)

lemma row_fields:
  assumes "row_to_schedule C r = Inr s"
  shows "s_public_id s = r_public_id r" "r_state r = schedule_state_display (s_state s)"
  using assms by (auto simp: row_to_schedule_def dest: schedule_state_parsed split: option.splits sum.splits)

lemma find_map_keyed:
  assumes "\<And>r. key (g r) = key r"
  shows "List.find (\<lambda>r. key r = k) (map g xs) = map_option g (List.find (\<lambda>r. key r = k) xs)"
  using assms by (induction xs) auto

lemma find_filter_keyed:
  "List.find (\<lambda>r. key r = k) (filter (\<lambda>r. key r \<noteq> d) xs) =
    (if k = d then None else List.find (\<lambda>r. key r = k) xs)"
  by (induction xs) auto

lemma find_append: "List.find P (xs @ ys) = (case List.find P xs of Some x \<Rightarrow> Some x | None \<Rightarrow> List.find P ys)"
  by (induction xs) auto

lemma find_keyed_None: "List.find (\<lambda>r. key r = k) xs = None \<longleftrightarrow> k \<notin> set (map key xs)"
  by (auto simp: find_None_iff)

lemma find_keyed_Some: "List.find (\<lambda>r. key r = k) xs = Some r \<Longrightarrow> r \<in> set xs \<and> key r = k"
  by (auto simp: find_Some_iff)

lemma filter_keyed_once:
  assumes "distinct (map key xs)"
  shows "length (filter (\<lambda>r. key r = k \<and> Q r) xs) =
    (case List.find (\<lambda>r. key r = k) xs of Some r \<Rightarrow> if Q r then 1 else 0 | None \<Rightarrow> 0)"
proof (cases "List.find (\<lambda>r. key r = k) xs")
  case None
  then have "\<And>r. r \<in> set xs \<Longrightarrow> key r \<noteq> k" by (auto simp: find_None_iff)
  then have "filter (\<lambda>r. key r = k \<and> Q r) xs = []" by (simp add: filter_empty_conv)
  with None show ?thesis by simp
next
  case (Some r)
  have r: "r \<in> set xs" "key r = k" using find_keyed_Some [OF Some] by simp_all
  from split_list [OF r(1)] obtain as bs where xs: "xs = as @ r # bs" by blast
  note xs = xs r(2)
  with assms have "k \<notin> set (map key as)" "k \<notin> set (map key bs)" by auto
  then have "filter (\<lambda>r. key r = k \<and> Q r) as = []" "filter (\<lambda>r. key r = k \<and> Q r) bs = []"
    by (auto simp: filter_empty_conv)
  with xs Some show ?thesis by simp
qed

lemma db_ok_find:
  assumes "db_ok C db" "List.find (\<lambda>r. r_public_id r = pid) (d_schedules db) = Some r"
  obtains s where "row_to_schedule C r = Inr s" "abs_schedules C db pid = Some s" "s_public_id s = pid"
    "r_state r = schedule_state_display (s_state s)"
proof -
  from assms have "r \<in> set (d_schedules db)" "r_public_id r = pid" by (auto dest: find_keyed_Some)
  with assms(1) obtain s where s: "row_to_schedule C r = Inr s" by (auto simp: db_ok_def)
  with assms(2) have "abs_schedules C db pid = Some s" by (simp add: abs_schedules_def)
  with s show thesis by (rule that) (use row_fields [OF s] \<open>r_public_id r = pid\<close> in auto)
qed

lemma abs_schedules_None:
  "db_ok C db \<Longrightarrow> abs_schedules C db pid = None \<longleftrightarrow> List.find (\<lambda>r. r_public_id r = pid) (d_schedules db) = None"
  by (metis abs_schedules_def db_ok_find option.case(1) option.distinct(1) option.exhaust)

lemma abs_schedules_Some:
  assumes "db_ok C db" "abs_schedules C db pid = Some s"
  obtains r where "List.find (\<lambda>r. r_public_id r = pid) (d_schedules db) = Some r" "row_to_schedule C r = Inr s"
    "s_public_id s = pid" "r_state r = schedule_state_display (s_state s)"
  using assms
  by (metis abs_schedules_None db_ok_find option.distinct(1) option.exhaust option.inject)

lemma get_schedule_abs: "db_ok C db \<Longrightarrow> get_schedule C pid db = Inr (abs_schedules C db pid)"
  by (cases "List.find (\<lambda>r. r_public_id r = pid) (d_schedules db)")
     (auto simp: get_schedule_def abs_schedules_def elim: db_ok_find)

lemma db_ok_map:
  assumes "db_ok C db" "\<And>r. r_public_id (g r) = r_public_id r"
    and "\<And>r s. row_to_schedule C r = Inr s \<Longrightarrow> \<exists>s'. row_to_schedule C (g r) = Inr s'"
  shows "db_ok C (db\<lparr>d_schedules := map g (d_schedules db)\<rparr>)"
proof -
  have "map r_public_id (map g (d_schedules db)) = map r_public_id (d_schedules db)"
    using assms(2) by simp
  moreover have "\<exists>s. row_to_schedule C r = Inr s" if "r \<in> set (map g (d_schedules db))" for r
    using that assms(1,3) by (fastforce simp: db_ok_def)
  ultimately show ?thesis using assms(1) by (simp add: db_ok_def del: map_map set_map)
qed

lemma abs_find:
  "List.find (\<lambda>r. r_public_id r = pid) (d_schedules db) = None \<Longrightarrow> abs_schedules C db pid = None"
  "List.find (\<lambda>r. r_public_id r = pid) (d_schedules db) = Some r \<Longrightarrow>
     abs_schedules C db pid = (case row_to_schedule C r of Inr s \<Rightarrow> Some s | Inl _ \<Rightarrow> None)"
  by (simp_all add: abs_schedules_def)

lemma abs_map:
  assumes "\<And>r. r_public_id (g r) = r_public_id r"
  shows "abs_schedules C (db\<lparr>d_schedules := map g (d_schedules db)\<rparr>) pid =
    (case List.find (\<lambda>r. r_public_id r = pid) (d_schedules db) of
       None \<Rightarrow> None | Some q \<Rightarrow> (case row_to_schedule C (g q) of Inr s \<Rightarrow> Some s | Inl _ \<Rightarrow> None))"
  by (simp add: abs_schedules_def find_map_keyed [where key = r_public_id, OF assms] split: option.splits)

lemma abs_update:
  assumes C: "codec_ok C" "db_ok C db" "times_ok s"
    and j: "dc_trigger_to C (s_trigger s) = Inr tj" "dc_config_to C (s_config s) = Inr cj"
    and old: "abs_schedules C db (s_public_id s) = Some old"
    and upd: "update_schedule C s db = (res, db')"
  shows "res = Inr ()" and "abs_schedules C db' = (abs_schedules C db)(s_public_id s \<mapsto> stored_update s old)" and "db_ok C db'"
proof -
  define g where "g r = (if r_public_id r = s_public_id s then update_row C tj cj s r else r)" for r
  have key: "r_public_id (g r) = r_public_id r" for r by (simp add: g_def update_row_def)
  obtain r where r: "List.find (\<lambda>r. r_public_id r = s_public_id s) (d_schedules db) = Some r" "row_to_schedule C r = Inr old"
    by (rule abs_schedules_Some [OF C(2) old])
  then have "s_public_id s \<in> set (map r_public_id (d_schedules db))"
    by (metis find_keyed_None option.distinct(1))
  with upd j have u: "res = Inr ()" "db' = db\<lparr>d_schedules := map g (d_schedules db)\<rparr>"
    by (simp_all add: update_schedule_def g_def [abs_def])
  show "res = Inr ()" by (rule u)
  show "db_ok C db'" unfolding u
    by (rule db_ok_map [OF C(2) key]) (auto simp: g_def row_of_update [OF C(1,3) j])
  show "abs_schedules C db' = (abs_schedules C db)(s_public_id s \<mapsto> stored_update s old)"
  proof
    fix pid
    show "abs_schedules C db' pid = ((abs_schedules C db)(s_public_id s \<mapsto> stored_update s old)) pid"
    proof (cases "List.find (\<lambda>r. r_public_id r = pid) (d_schedules db)")
      case None
      with r show ?thesis by (auto simp: u abs_map [OF key] abs_find)
    next
      case (Some q)
      then have q: "r_public_id q = pid" using find_keyed_Some [OF Some] by simp
      with Some r show ?thesis
        by (cases "pid = s_public_id s")
           (simp_all add: u abs_map [OF key] g_def row_of_update [OF C(1,3) j] abs_find)
    qed
  qed
qed

lemma update_schedule_missing:
  assumes "db_ok C db" "abs_schedules C db (s_public_id s) = None"
  shows "snd (update_schedule C s db) = db"
  using assms by (simp add: update_schedule_def abs_schedules_None find_keyed_None split: sum.splits)

definition spec_cas ::
    "datetime \<Rightarrow> string \<Rightarrow> schedule_state \<Rightarrow> schedule_state \<Rightarrow> (string \<rightharpoonup> schedule) \<Rightarrow> bool \<times> (string \<rightharpoonup> schedule)" where
  "spec_cas now pid from to m =
    (case m pid of
       None \<Rightarrow> (False, m)
     | Some s \<Rightarrow> (if s_state s = from then (True, m(pid \<mapsto> s\<lparr>s_state := to, s_updated_at := now\<rparr>)) else (False, m)))"

lemma abs_cas:
  assumes C: "codec_ok C" "db_ok C db" "rfc3339_range now"
    and cas: "update_schedule_state C now pid from to db = (ok, db')"
  shows "(ok, abs_schedules C db') = spec_cas now pid from to (abs_schedules C db)" and "db_ok C db'"
proof -
  define hit where "hit r = (r_public_id r = pid \<and> r_state r = schedule_state_display from)" for r :: schedule_row
  define g where "g r = (if hit r then r\<lparr>r_state := schedule_state_display to, r_updated_at := dc_format C now\<rparr> else r)" for r :: schedule_row
  have key: "r_public_id (g r) = r_public_id r" for r by (simp add: g_def)
  have db': "db' = db\<lparr>d_schedules := map g (d_schedules db)\<rparr>" "ok = (length (filter hit (d_schedules db)) = 1)"
    using cas by (auto simp: update_schedule_state_def g_def [abs_def] hit_def [abs_def])
  show "db_ok C db'" unfolding db'
    by (rule db_ok_map [OF C(2) key]) (auto simp: g_def row_of_cas [OF C(1,3)])
  have dist: "distinct (map r_public_id (d_schedules db))" using C(2) by (simp add: db_ok_def)
  have ok: "ok = (case List.find (\<lambda>r. r_public_id r = pid) (d_schedules db) of
      Some r \<Rightarrow> r_state r = schedule_state_display from | None \<Rightarrow> False)"
    unfolding db'(2) hit_def [abs_def] filter_keyed_once [OF dist] by (simp split: option.splits)
  have other: "abs_schedules C db' k = abs_schedules C db k" if "k \<noteq> pid" for k
    using that find_keyed_Some [of r_public_id k "d_schedules db"]
    by (auto simp: db'(1) abs_map [OF key] g_def hit_def abs_find split: option.splits)
  have same: "abs_schedules C db' pid = snd (spec_cas now pid from to (abs_schedules C db)) pid"
    and fst_eq: "ok = fst (spec_cas now pid from to (abs_schedules C db))"
  proof -
    show "abs_schedules C db' pid = snd (spec_cas now pid from to (abs_schedules C db)) pid"
    proof (cases "List.find (\<lambda>r. r_public_id r = pid) (d_schedules db)")
      case None
      then show ?thesis by (simp add: db'(1) abs_map [OF key] spec_cas_def abs_find)
    next
      case (Some r)
      then have "r_public_id r = pid" using find_keyed_Some [OF Some] by simp
      moreover obtain s where "row_to_schedule C r = Inr s" "abs_schedules C db pid = Some s"
          "r_state r = schedule_state_display (s_state s)" by (rule db_ok_find [OF C(2) Some])
      ultimately show ?thesis using Some
        by (simp add: db'(1) abs_map [OF key] spec_cas_def g_def hit_def row_of_cas [OF C(1,3)])
    qed
    show "ok = fst (spec_cas now pid from to (abs_schedules C db))"
      by (cases "List.find (\<lambda>r. r_public_id r = pid) (d_schedules db)")
         (auto simp: ok spec_cas_def abs_find(1) elim!: db_ok_find [OF C(2)] split: option.splits)
  qed
  have "abs_schedules C db' = snd (spec_cas now pid from to (abs_schedules C db))"
  proof
    fix k
    show "abs_schedules C db' k = snd (spec_cas now pid from to (abs_schedules C db)) k"
      by (cases "k = pid") (simp add: same, simp add: other spec_cas_def split: option.splits)
  qed
  with fst_eq show "(ok, abs_schedules C db') = spec_cas now pid from to (abs_schedules C db)" by simp
qed

lemma abs_delete:
  assumes "db_ok C db" "delete_schedule pid db = (res, db')"
  shows "abs_schedules C db' = (abs_schedules C db)(pid := None)" and "db_ok C db'"
    and "res = (if abs_schedules C db pid = None then Inl (OtherSessionError (''Schedule not found: '' @ pid)) else Inr ())"
proof -
  let ?db = "db\<lparr>d_schedules := filter (\<lambda>r. r_public_id r \<noteq> pid) (d_schedules db)\<rparr>"
  have empty: "filter (\<lambda>r. r_public_id r = pid) (d_schedules db) = [] \<longleftrightarrow> abs_schedules C db pid = None"
    by (auto simp: abs_schedules_None [OF assms(1)] find_keyed_None filter_empty_conv)
  have ok: "db_ok C ?db" using assms(1) by (auto simp: db_ok_def distinct_map inj_on_def)
  have abs: "abs_schedules C ?db = (abs_schedules C db)(pid := None)"
    by (rule ext) (simp add: abs_schedules_def find_filter_keyed)
  show "abs_schedules C db' = (abs_schedules C db)(pid := None)" "db_ok C db'"
    using assms abs ok by (auto simp: delete_schedule_def empty split: if_splits)
  show "res = (if abs_schedules C db pid = None then Inl (OtherSessionError (''Schedule not found: '' @ pid)) else Inr ())"
    using assms(2) by (auto simp: delete_schedule_def empty split: if_splits)
qed

lemma abs_create:
  assumes C: "codec_ok C" "db_ok C db" "times_ok s"
    and cr: "create_schedule C uuid s db = (Inr s', db')"
  shows "abs_schedules C db' = (abs_schedules C db)(s_public_id s' \<mapsto> s')" and "db_ok C db'"
    and "abs_schedules C db (s_public_id s') = None"
proof -
  define t where "t = (if s_public_id s = [] then s\<lparr>s_public_id := uuid\<rparr> else s)"
  have times: "times_ok t" using C(3) by (simp add: t_def times_ok_def)
  obtain i tj cj where j: "dc_trigger_to C (s_trigger t) = Inr tj" "dc_config_to C (s_config t) = Inr cj"
    and new: "s_public_id t \<notin> set (map r_public_id (d_schedules db))" "s' = t\<lparr>s_id := i\<rparr>"
      "db' = db\<lparr>d_schedules := d_schedules db @ [schedule_to_row C i tj cj t]\<rparr>"
    using cr by (auto simp: create_schedule_def t_def [symmetric] Let_def split: sum.splits if_splits)
  have row: "row_to_schedule C (schedule_to_row C i tj cj t) = Inr s'"
    by (simp add: new row_of_schedule [OF C(1) times j])
  have pid: "r_public_id (schedule_to_row C i tj cj t) = s_public_id t" by (simp add: schedule_to_row_def)
  show "db_ok C db'" using C(2) new row pid by (auto simp: db_ok_def)
  show none: "abs_schedules C db (s_public_id s') = None"
    using new by (simp add: abs_schedules_None [OF C(2)] find_keyed_None)
  show "abs_schedules C db' = (abs_schedules C db)(s_public_id s' \<mapsto> s')"
  proof
    fix k
    show "abs_schedules C db' k = ((abs_schedules C db)(s_public_id s' \<mapsto> s')) k"
      using new row pid
      by (cases "k = s_public_id t"; cases "List.find (\<lambda>r. r_public_id r = k) (d_schedules db)")
         (simp_all add: abs_schedules_def find_append find_keyed_None [THEN iffD2] find_keyed_None del: set_map)
  qed
qed

lemma update_schedule_spec:
  assumes "codec_ok C" "db_ok C db" "times_ok s"
  shows "case update_schedule C s db of (res, db') \<Rightarrow> db_ok C db' \<and> abs_schedules C db' =
    (case (res, abs_schedules C db (s_public_id s)) of
       (Inr _, Some old) \<Rightarrow> (abs_schedules C db)(s_public_id s \<mapsto> stored_update s old)
     | _ \<Rightarrow> abs_schedules C db)"
proof (cases "dc_trigger_to C (s_trigger s)"; cases "dc_config_to C (s_config s)")
  fix tj cj
  assume j: "dc_trigger_to C (s_trigger s) = Inr tj" "dc_config_to C (s_config s) = Inr cj"
  show ?thesis
  proof (cases "abs_schedules C db (s_public_id s)")
    case None
    then have "snd (update_schedule C s db) = db" by (rule update_schedule_missing [OF assms(2)])
    with None assms(2) show ?thesis by (cases "update_schedule C s db") (auto split: sum.splits)
  next
    case (Some old)
    then show ?thesis
      using abs_update [OF assms j Some] by (cases "update_schedule C s db") auto
  qed
qed (use assms(2) in \<open>simp_all add: update_schedule_def\<close>)

lemma create_schedule_spec:
  assumes "codec_ok C" "db_ok C db" "times_ok s"
  shows "case create_schedule C uuid s db of (res, db') \<Rightarrow> db_ok C db' \<and>
    (case res of
       Inr s' \<Rightarrow> abs_schedules C db (s_public_id s') = None \<and> abs_schedules C db' = (abs_schedules C db)(s_public_id s' \<mapsto> s')
     | Inl _ \<Rightarrow> db' = db)"
proof (cases "create_schedule C uuid s db")
  case (Pair res db')
  show ?thesis
  proof (cases res)
    case (Inr s')
    with Pair show ?thesis using abs_create [OF assms, of uuid s' db'] by simp
  next
    case (Inl e)
    with Pair have "db' = db"
      by (auto simp: create_schedule_def Let_def split: sum.splits if_splits)
    with Pair Inl assms(2) show ?thesis by simp
  qed
qed

text \<open>C10: The SQL repository implements a map from public identifiers to schedules. On a well-formed database and
  with the documented behaviour of the RFC 3339 and JSON codecs, \<^verbatim>\<open>get_schedule\<close> is lookup;
  \<^verbatim>\<open>update_schedule_state\<close> is a compare-and-swap of the state that reports whether it took place;
  \<^verbatim>\<open>update_schedule\<close> replaces the mutable fields of an existing schedule and leaves the table alone when there is
  none; \<^verbatim>\<open>create_schedule\<close> adds a schedule under a fresh identifier and \<^verbatim>\<open>delete_schedule\<close> removes one. Each
  keeps the database well-formed.\<close>

theorem store_refines_map:
  assumes "codec_ok C" "db_ok C db" "rfc3339_range now" "times_ok s"
  shows "get_schedule C pid db = Inr (abs_schedules C db pid) \<and>
    (case update_schedule_state C now pid from to db of (ok, db') \<Rightarrow>
       (ok, abs_schedules C db') = spec_cas now pid from to (abs_schedules C db) \<and> db_ok C db') \<and>
    (case update_schedule C s db of (res, db') \<Rightarrow> db_ok C db' \<and> abs_schedules C db' =
       (case (res, abs_schedules C db (s_public_id s)) of
          (Inr _, Some old) \<Rightarrow> (abs_schedules C db)(s_public_id s \<mapsto> stored_update s old)
        | _ \<Rightarrow> abs_schedules C db)) \<and>
    (case create_schedule C uuid s db of (res, db') \<Rightarrow> db_ok C db' \<and>
       (case res of
          Inr s' \<Rightarrow> abs_schedules C db (s_public_id s') = None \<and> abs_schedules C db' = (abs_schedules C db)(s_public_id s' \<mapsto> s')
        | Inl _ \<Rightarrow> db' = db)) \<and>
    (case delete_schedule pid db of (res, db') \<Rightarrow> db_ok C db' \<and> abs_schedules C db' = (abs_schedules C db)(pid := None) \<and>
       isl res = (abs_schedules C db pid = None))"
proof (intro conjI)
  show "get_schedule C pid db = Inr (abs_schedules C db pid)" by (rule get_schedule_abs [OF assms(2)])
  show "case update_schedule_state C now pid from to db of (ok, db') \<Rightarrow>
      (ok, abs_schedules C db') = spec_cas now pid from to (abs_schedules C db) \<and> db_ok C db'"
    using abs_cas [OF assms(1,2,3)] by (cases "update_schedule_state C now pid from to db") simp
  show "case update_schedule C s db of (res, db') \<Rightarrow> db_ok C db' \<and> abs_schedules C db' =
       (case (res, abs_schedules C db (s_public_id s)) of
          (Inr _, Some old) \<Rightarrow> (abs_schedules C db)(s_public_id s \<mapsto> stored_update s old)
        | _ \<Rightarrow> abs_schedules C db)"
    by (rule update_schedule_spec [OF assms(1,2,4)])
  show "case create_schedule C uuid s db of (res, db') \<Rightarrow> db_ok C db' \<and>
       (case res of
          Inr s' \<Rightarrow> abs_schedules C db (s_public_id s') = None \<and> abs_schedules C db' = (abs_schedules C db)(s_public_id s' \<mapsto> s')
        | Inl _ \<Rightarrow> db' = db)"
    by (rule create_schedule_spec [OF assms(1,2,4)])
  show "case delete_schedule pid db of (res, db') \<Rightarrow> db_ok C db' \<and> abs_schedules C db' = (abs_schedules C db)(pid := None) \<and>
       isl res = (abs_schedules C db pid = None)"
  proof (cases "delete_schedule pid db")
    case (Pair res db')
    show ?thesis using abs_delete [OF assms(2) Pair] Pair by simp
  qed
qed

section \<open>A codec for concrete runs\<close>

text \<open>An instant is written as a run of letters, one per nanosecond since the first instant RFC 3339 can
  express; of the JSON values one trigger and one configuration are supported.\<close>

definition demo_codec :: schedule_codec where
  "demo_codec = \<lparr>dc_format = (\<lambda>t. replicate (nat (t + seconds_ns 62167219200)) (CHR ''x'')),
     dc_parse = (\<lambda>s. Some (int (length s) - seconds_ns 62167219200)),
     dc_trigger_to = (\<lambda>x. if x = Interval 60 then Inr ''interval 60'' else Inl ''unsupported''),
     dc_trigger_of = (\<lambda>_. Some (Interval 60)),
     dc_config_to = (\<lambda>x. if x = default_schedule_config then Inr ''default'' else Inl ''unsupported''),
     dc_config_of = (\<lambda>_. Some default_schedule_config)\<rparr>"

lemma replicate_less: "n < m \<Longrightarrow> replicate n c < replicate m (c :: char)"
proof (induction n arbitrary: m)
  case 0
  then show ?case by (cases m) auto
next
  case (Suc n)
  then show ?case by (cases m) auto
qed

lemma demo_codec_ok: "codec_ok demo_codec"
proof -
  have lt: "a < b" if "a div 1000000000 < b div (1000000000 :: int)" for a b
  proof (rule ccontr)
    assume "\<not> a < b"
    then have "b div 1000000000 \<le> a div 1000000000" by (intro zdiv_mono1) auto
    with that show False by simp
  qed
  have "replicate (nat (a + d)) (CHR ''x'') < replicate (nat (b + d)) (CHR ''x'')"
    if "rfc3339_range a" "rfc3339_range b" "a div 1000000000 < b div 1000000000" "d = seconds_ns 62167219200" for a b d
    using that lt [OF that(3)] by (intro replicate_less) (simp add: rfc3339_range_def seconds_ns_def)
  then show ?thesis
    by (simp add: codec_ok_def demo_codec_def rfc3339_range_def seconds_ns_def split: if_splits)
qed

definition demo_schedule :: schedule where
  "demo_schedule = schedule_new ''s1'' 0 ''t1'' ''session'' (Interval 60)"

definition demo_schedule_db :: schedule_db where
  "demo_schedule_db = \<lparr>d_schedules = [schedule_to_row demo_codec 1 ''interval 60'' ''default'' demo_schedule],
     d_lease = None, d_task_ids = [0], d_session_ids = [0]\<rparr>"

lemma demo_times_ok: "times_ok demo_schedule"
  by (simp add: times_ok_def demo_schedule_def schedule_new_def rfc3339_range_def seconds_ns_def)

lemma demo_row: "row_to_schedule demo_codec (schedule_to_row demo_codec 1 ''interval 60'' ''default'' demo_schedule)
    = Inr (demo_schedule\<lparr>s_id := 1\<rparr>)"
  by (rule row_of_schedule [OF demo_codec_ok demo_times_ok])
     (simp_all add: demo_codec_def demo_schedule_def schedule_new_def)

lemma demo_db_ok: "db_ok demo_codec demo_schedule_db"
  by (simp add: db_ok_def demo_schedule_db_def demo_row)

lemma demo_epoch: "rfc3339_range 0"
  by (simp add: rfc3339_range_def seconds_ns_def)

lemma demo_abs: "abs_schedules demo_codec demo_schedule_db ''s1'' = Some (demo_schedule\<lparr>s_id := 1\<rparr>)"
  by (simp add: abs_schedules_def demo_schedule_db_def demo_row)
     (simp add: schedule_to_row_def demo_schedule_def schedule_new_def)

theorem store_refines_map_witness:
  "get_schedule demo_codec ''s1'' demo_schedule_db = Inr (Some (demo_schedule\<lparr>s_id := 1\<rparr>)) \<and>
    fst (update_schedule_state demo_codec 0 ''s1'' Armed Running demo_schedule_db)"
proof -
  note r = store_refines_map [OF demo_codec_ok demo_db_ok demo_epoch demo_times_ok, of "''s1''" Armed Running]
  from r have "get_schedule demo_codec ''s1'' demo_schedule_db = Inr (Some (demo_schedule\<lparr>s_id := 1\<rparr>))"
    by (simp only: demo_abs)
  moreover from r have "fst (update_schedule_state demo_codec 0 ''s1'' Armed Running demo_schedule_db)
      = fst (spec_cas 0 ''s1'' Armed Running (abs_schedules demo_codec demo_schedule_db))"
    by (cases "update_schedule_state demo_codec 0 ''s1'' Armed Running demo_schedule_db")
       (simp add: prod_eq_iff)
  moreover have "s_state demo_schedule = Armed" by (simp add: demo_schedule_def schedule_new_def)
  ultimately show ?thesis by (simp add: spec_cas_def demo_abs)
qed

section \<open>The queue as a priority queue\<close>

text \<open>What the scheduler relies on: the entries as a multiset, and that the head is the least of them.\<close>

locale deadline_heap =
  fixes entries :: "'q \<Rightarrow> (int \<times> string) multiset"
    and ins :: "datetime \<Rightarrow> string \<Rightarrow> 'q \<Rightarrow> 'q"
    and peek :: "'q \<Rightarrow> (datetime \<times> string) option"
    and rem :: "string \<Rightarrow> 'q \<Rightarrow> 'q"
  assumes entries_ins: "entries (ins t pid q) = add_mset (as_i64 t, pid) (entries q)"
    and entries_rem: "entries (rem pid q) = filter_mset (\<lambda>(_, i). i \<noteq> pid) (entries q)"
    and peek_empty: "peek q = None \<longleftrightarrow> entries q = {#}"
    and peek_in: "peek q = Some e \<Longrightarrow> e \<in># entries q"
    and peek_least: "peek q = Some e \<Longrightarrow> x \<in># entries q \<Longrightarrow> e \<le> x"
begin

lemma peek_rem: "peek (rem pid q) = Some (t, i) \<Longrightarrow> i \<noteq> pid"
  using peek_in [of "rem pid q"] by (auto simp: entries_rem)

lemma peek_earliest:
  assumes "peek q = Some (t, i)" "(t', i') \<in># entries q"
  shows "t \<le> t'"
  using peek_least [OF assms] by (auto simp: less_eq_prod_def)

lemma peek_ins:
  assumes "peek q = Some (t', i')"
  shows "peek (ins t i q) = Some (min (as_i64 t, i) (t', i'))"
proof (cases "peek (ins t i q)")
  case None
  then show ?thesis by (simp add: peek_empty entries_ins)
next
  case (Some e)
  note in_q = peek_in [OF assms] and least_q = peek_least [OF assms]
  from peek_in [OF Some] have "e = (as_i64 t, i) \<or> e \<in># entries q" by (simp add: entries_ins)
  moreover have "e \<le> (as_i64 t, i)" "e \<le> (t', i')"
    using peek_least [OF Some] in_q by (auto simp: entries_ins)
  ultimately have "e = min (as_i64 t, i) (t', i')" using least_q by (metis antisym min.bounded_iff min_def)
  with Some show ?thesis by simp
qed

lemma peek_ins_empty: "peek q = None \<Longrightarrow> peek (ins t i q) = Some (as_i64 t, i)"
  using peek_in [of "ins t i q"] peek_empty [of "ins t i q"]
  by (cases "peek (ins t i q)") (auto simp: peek_empty entries_ins)

end

lemma fold_min_in: "fold min es e = e \<or> fold min es (e :: 'a::linorder) \<in> set es"
proof (induction es arbitrary: e)
  case Nil
  then show ?case by simp
next
  case (Cons a es)
  have "min a e = a \<or> min a e = e" by (simp add: min_def)
  with Cons [of "min a e"] show ?case by auto
qed

lemma fold_min_le: "fold min es (e :: 'a::linorder) \<le> e \<and> (\<forall>x \<in> set es. fold min es e \<le> x)"
proof (induction es arbitrary: e)
  case Nil
  then show ?case by simp
next
  case (Cons a es)
  from Cons [of "min a e"] show ?case by auto
qed

interpretation dq: deadline_heap mset dq_insert dq_peek dq_remove
proof
  show "mset (dq_insert t pid q) = add_mset (as_i64 t, pid) (mset q)" for t pid q
    by (simp add: dq_insert_def)
  show "mset (dq_remove pid q) = filter_mset (\<lambda>(_, i). i \<noteq> pid) (mset q)" for pid q
    by (simp add: dq_remove_def)
  show "dq_peek q = None \<longleftrightarrow> mset q = {#}" for q
    by (simp add: dq_peek_def split: list.splits)
  show "dq_peek q = Some e \<Longrightarrow> e \<in># mset q" for q e
    using fold_min_in by (fastforce simp: dq_peek_def split: list.splits)
  show "dq_peek q = Some e \<Longrightarrow> x \<in># mset q \<Longrightarrow> e \<le> x" for q e x
    using fold_min_le by (fastforce simp: dq_peek_def split: list.splits)
qed

lemma as_i64_id: "- (2 ^ 63) \<le> n \<Longrightarrow> n < 2 ^ 63 \<Longrightarrow> as_i64 n = n"
  by (simp add: as_i64_def)

lemma as_i64_wraps:
  assumes "2 ^ 63 \<le> n" "n < 2 ^ 64"
  shows "as_i64 n = n - 2 ^ 64"
proof -
  have "(n + 2 ^ 63) mod 2 ^ 64 = (n + 2 ^ 63 - 2 ^ 64) mod 2 ^ 64"
    by (metis minus_mod_self2)
  also have "\<dots> = n + 2 ^ 63 - 2 ^ 64" using assms by (intro mod_pos_pos_trivial) auto
  finally show ?thesis by (simp add: as_i64_def)
qed

section \<open>Delays stay in bounds\<close>

definition f64_rounding :: "(real \<Rightarrow> real) \<Rightarrow> bool" where
  "f64_rounding rnd = (mono rnd \<and> (\<forall>k. \<bar>k\<bar> \<le> 2 ^ 53 \<longrightarrow> rnd (real_of_int k) = real_of_int k))"

lemma rounding_int: "f64_rounding rnd \<Longrightarrow> \<bar>k\<bar> \<le> 2 ^ 53 \<Longrightarrow> rnd (real_of_int k) = real_of_int k"
  by (simp add: f64_rounding_def)

lemma rounding_between:
  assumes "f64_rounding rnd" "\<bar>a\<bar> \<le> 2 ^ 53" "\<bar>b\<bar> \<le> 2 ^ 53" "real_of_int a \<le> x" "x \<le> real_of_int b"
  shows "real_of_int a \<le> rnd x" "rnd x \<le> real_of_int b"
proof -
  have "mono rnd" using assms(1) by (simp add: f64_rounding_def)
  from monoD [OF this assms(4)] monoD [OF this assms(5)]
  show "real_of_int a \<le> rnd x" "rnd x \<le> real_of_int b"
    using rounding_int [OF assms(1,2)] rounding_int [OF assms(1,3)] by simp_all
qed

lemma jittered_interval_bounds:
  assumes r: "f64_rounding rnd" and i: "unat interval \<le> 2 ^ 52" and j: "unat jitter \<le> 100"
  shows "1 \<le> jittered_interval rnd interval jitter from \<and>
    jittered_interval rnd interval jitter from \<le> max 1 (2 * int (unat interval))"
proof -
  define n where "n = int (unat interval)"
  have i': "n \<le> 2 ^ 52" unfolding n_def using i by (metis of_nat_le_iff of_nat_numeral of_nat_power)
  have n0: "0 \<le> n" by (simp add: n_def)
  note between = rounding_between [OF r]
  define p where "p = rnd (real_of_int (from mod 2 ^ 64 mod 1000) / 1000)"
  define f where "f = rnd (real (unat jitter) / 100)"
  define g where "g = rnd (real_of_int n * f)"
  define d where "d = rnd (rnd (p * 2) - 1)"
  define q where "q = rnd (d * g)"
  have n: "rnd (real (unat interval)) = real_of_int n" using rounding_int [OF r, of n] i' n0 by (simp add: n_def)
  have p: "0 \<le> p" "p \<le> 1"
    using between [of 0 1 "real_of_int (from mod 2 ^ 64 mod 1000) / 1000"] by (simp_all add: p_def)
  have f: "0 \<le> f" "f \<le> 1" using between [of 0 1 "real (unat jitter) / 100"] j by (simp_all add: f_def del: of_nat_unat)
  have g: "0 \<le> g" "g \<le> real_of_int n"
    using between [of 0 n "real_of_int n * f"] f i' n0 by (simp_all add: g_def mult_left_le)
  have "0 \<le> rnd (p * 2)" "rnd (p * 2) \<le> 2" using between [of 0 2 "p * 2"] p by simp_all
  then have d: "- 1 \<le> d" "d \<le> 1" using between [of "- 1" 1 "rnd (p * 2) - 1"] by (simp_all add: d_def)
  have "\<bar>d * g\<bar> \<le> 1 * real_of_int n" unfolding abs_mult using d g by (intro mult_mono) auto
  then have q: "- real_of_int n \<le> q" "q \<le> real_of_int n"
    using between [of "- n" n "d * g"] i' n0 by (simp_all add: q_def abs_le_iff)
  have "0 \<le> rnd (real_of_int n + q)" "rnd (real_of_int n + q) \<le> 2 * real_of_int n"
    using between [of 0 "2 * n" "real_of_int n + q"] i' q n0 by simp_all
  moreover have "jittered_interval rnd interval jitter from = f64_as_i64 (max (rnd (real_of_int n + q)) 1)"
    unfolding jittered_interval_def Let_def n p_def f_def g_def d_def q_def ..
  moreover have "1 \<le> f64_as_i64 (max x 1)" "f64_as_i64 (max x 1) \<le> max 1 (2 * n)"
    if "x \<le> 2 * real_of_int n" for x
    using that i' n0 by (auto simp: f64_as_i64_def max_def le_floor_iff floor_le_iff min_le_iff_disj)
  ultimately show ?thesis unfolding n_def [symmetric] by simp
qed

lemma min_word_bound: "unat (min (a :: u64) 3600) \<le> 3600"
  by (simp add: min_def word_le_nat_alt)

text \<open>C29: The delay after a failure is at least one second and, for a jitter of at most one hundred percent, at
  most two hours, whatever the base, the number of failures and the instant; no multiplication or power
  overflows. The delay of an interval schedule lies between one second and twice its interval.\<close>

theorem delays_bounded:
  assumes "f64_rounding rnd" "unat jitter \<le> 100" "unat interval \<le> 2 ^ 52"
  shows "seconds_ns 1 \<le> compute_backoff rnd now base failures jitter \<and>
    compute_backoff rnd now base failures jitter \<le> seconds_ns 7200 \<and>
    now + seconds_ns 1 \<le> compute_next_run_at rnd interval jitter now \<and>
    compute_next_run_at rnd interval jitter now \<le> now + seconds_ns (max 1 (2 * int (unat interval)))"
proof -
  let ?raw = "min (saturating_mul base (saturating_pow (2 :: u64) (unat failures))) 3600"
  have raw: "unat ?raw \<le> 3600" by (rule min_word_bound)
  then have "unat ?raw \<le> 2 ^ 52" by simp
  note b = jittered_interval_bounds [OF assms(1) this assms(2), of now]
  moreover have "max 1 (2 * int (unat ?raw)) \<le> 7200" using raw by linarith
  ultimately have "1 \<le> jittered_interval rnd ?raw jitter now" "jittered_interval rnd ?raw jitter now \<le> 7200"
    by (blast, meson order_trans)
  moreover note jittered_interval_bounds [OF assms(1,3,2), of now]
  ultimately show ?thesis
    by (simp add: compute_backoff_def compute_next_run_at_def seconds_ns_def Let_def)
qed

theorem delays_bounded_witness:
  "compute_backoff (\<lambda>x. x) 0 60 3 10 \<le> seconds_ns 7200"
  using delays_bounded [of "\<lambda>x. x" 10 60 0 60 3] by (simp add: f64_rounding_def mono_def)

section \<open>Leadership\<close>

datatype lease_op = Acquire | Renew | Release

fun lease_op_step :: "schedule_codec \<Rightarrow> datetime \<Rightarrow> string \<Rightarrow> u64 \<Rightarrow> lease_op \<Rightarrow> schedule_db \<Rightarrow> bool \<times> schedule_db" where
  "lease_op_step C now owner ttl Acquire db = try_acquire_scheduler_lease C now owner ttl db"
| "lease_op_step C now owner ttl Renew db = renew_scheduler_lease C now owner ttl db"
| "lease_op_step C now owner ttl Release db = release_scheduler_lease owner db"

fun lease_run ::
    "schedule_codec \<Rightarrow> (datetime \<times> string \<times> u64 \<times> lease_op) list \<Rightarrow> schedule_db \<Rightarrow> bool list \<times> schedule_db" where
  "lease_run C [] db = ([], db)"
| "lease_run C ((now, owner, ttl, a) # ops) db =
    (let (ok, db1) = lease_op_step C now owner ttl a db; (oks, db2) = lease_run C ops db1 in (ok # oks, db2))"

definition lease_until :: "schedule_codec \<Rightarrow> string \<Rightarrow> datetime \<Rightarrow> schedule_db \<Rightarrow> bool" where
  "lease_until C owner e db = (\<exists>l. d_lease db = Some l \<and> l_owner_id l = owner \<and> l_expires_at l = dc_format C e)"

lemma lease_granted:
  "lease_op_step C now owner ttl a db = (True, db') \<Longrightarrow> a \<noteq> Release \<Longrightarrow> lease_until C owner (now + seconds_ns (sint ttl)) db'"
  by (cases a)
     (auto simp: try_acquire_scheduler_lease_def renew_scheduler_lease_def lease_until_def lease_for_def
       split: option.splits if_splits)

lemma lease_refused:
  assumes C: "codec_ok C" "rfc3339_range now" "rfc3339_range e"
    and "now div 1000000000 < e div 1000000000" "lease_until C owner e db" "other \<noteq> owner"
  shows "lease_op_step C now other ttl a db = (False, db)"
proof -
  from codec_less [OF C assms(4)] have "\<not> dc_format C e < dc_format C now" by simp
  with assms(5,6) show ?thesis
    by (cases a)
       (auto simp: lease_until_def try_acquire_scheduler_lease_def renew_scheduler_lease_def release_scheduler_lease_def)
qed

lemma lease_run_refused:
  assumes "codec_ok C" "rfc3339_range e" "lease_until C owner e db"
    and "\<forall>(now, other, ttl, a) \<in> set ops. rfc3339_range now \<and> now div 1000000000 < e div 1000000000 \<and> other \<noteq> owner"
  shows "lease_run C ops db = (replicate (length ops) False, db)"
  using assms(4) by (induction ops) (auto simp: lease_refused [OF assms(1) _ assms(2) _ assms(3)])

text \<open>C9: Leadership is exclusive. Once a node has acquired or renewed the scheduler lease, then until the second in
  which it expires every attempt of other nodes to acquire, renew or release it, in any number and order, is
  refused and leaves the lease row as it is. A node whose lease is older by at least a second loses it to the
  next one that asks.\<close>

theorem lease_exclusive:
  assumes "codec_ok C" "lease_op_step C t owner ttl a db = (True, db1)" "a \<noteq> Release"
    and "e = t + seconds_ns (sint ttl)" "rfc3339_range e"
    and "\<forall>(now, other, ttl, a) \<in> set ops. rfc3339_range now \<and> now div 1000000000 < e div 1000000000 \<and> other \<noteq> owner"
    and "rfc3339_range late" "e div 1000000000 < late div 1000000000"
  shows "lease_run C ops db1 = (replicate (length ops) False, db1) \<and>
    lease_op_step C late other ttl' Acquire db1 = (True, db1\<lparr>d_lease := Some (lease_for C other late ttl')\<rparr>)"
proof
  have held: "lease_until C owner e db1" using lease_granted [OF assms(2,3)] by (simp add: assms(4))
  show "lease_run C ops db1 = (replicate (length ops) False, db1)"
    by (rule lease_run_refused [OF assms(1,5) held assms(6)])
  from codec_less [OF assms(1,5,7,8)] held
  show "lease_op_step C late other ttl' Acquire db1 = (True, db1\<lparr>d_lease := Some (lease_for C other late ttl')\<rparr>)"
    by (auto simp: lease_until_def try_acquire_scheduler_lease_def)
qed

theorem lease_exclusive_witness:
  "\<exists>db1. lease_op_step demo_codec 0 ''a'' 120 Acquire demo_schedule_db = (True, db1) \<and>
    lease_run demo_codec [(seconds_ns 60, ''b'', 120, Acquire), (seconds_ns 90, ''b'', 120, Release)] db1 = ([False, False], db1)"
proof -
  obtain db1 where a: "lease_op_step demo_codec 0 ''a'' 120 Acquire demo_schedule_db = (True, db1)"
    by (simp add: try_acquire_scheduler_lease_def demo_schedule_db_def)
  let ?ops = "[(seconds_ns 60, ''b'', 120 :: u64, Acquire), (seconds_ns 90, ''b'', 120, Release)]"
  have e: "seconds_ns 120 = 0 + seconds_ns (sint (120 :: u64))" by simp
  have ranges: "rfc3339_range (seconds_ns 120)" "rfc3339_range (seconds_ns 200)"
    by (simp_all add: rfc3339_range_def seconds_ns_def)
  have ops: "\<forall>(now, other, ttl, a) \<in> set ?ops. rfc3339_range now \<and>
      now div 1000000000 < seconds_ns 120 div 1000000000 \<and> other \<noteq> ''a''"
    by (simp add: rfc3339_range_def seconds_ns_def)
  have "lease_run demo_codec ?ops db1 = (replicate (length ?ops) False, db1)"
    using lease_exclusive [OF demo_codec_ok a _ e ranges(1) ops ranges(2)] by (simp add: seconds_ns_def)
  with a show ?thesis by (simp add: numeral_2_eq_2)
qed

text \<open>Within the second of its expiry the texts may be ordered differently from the instants: a fraction that is a
  prefix of another is followed by the letter \<^verbatim>\<open>Z\<close>, which sorts after every digit.\<close>

lemma lease_lost_within_second:
  assumes "dc_format C e = p @ ''123Z''" "dc_format C now = p @ ''12Z''" "lease_until C owner e db"
  shows "lease_op_step C now other ttl Acquire db = (True, db\<lparr>d_lease := Some (lease_for C other now ttl)\<rparr>)"
proof -
  have "p @ ''123Z'' < p @ ''12Z''" by (induction p) (auto simp: less_char_def)
  with assms show ?thesis by (auto simp: lease_until_def try_acquire_scheduler_lease_def)
qed

end
