(* ===== verification/Scheduler.thy ===== *)
theory Scheduler
  imports Schedule
begin

text \<open>
  The scheduler actor of \<^verbatim>\<open>crates/agent/src/scheduler/mod.rs\<close> and its messages (\<^verbatim>\<open>scheduler/messages.rs\<close>).

  The state of the actor is the record \<open>scheduler\<close>, together with what its handlers act on: the database, the
  spawned timer tasks, the mailbox, the prompts sent to sessions and the published events. A timer task is a
  delay in seconds and the message it will send; firing moves the message into the mailbox, aborting the
  task removes it. The clock, failures of the database, the session registry, the task store and the delivery
  of a prompt are functions of an environment; the clock and the database are numbered by the reads and calls
  made so far, so that two reads within one handler may differ.
\<close>

section \<open>Hash maps as association lists\<close>

definition al_insert :: "'k \<Rightarrow> 'v \<Rightarrow> ('k \<times> 'v) list \<Rightarrow> ('k \<times> 'v) list" where
  "al_insert k v xs = filter (\<lambda>(k', _). k' \<noteq> k) xs @ [(k, v)]"

definition al_remove :: "'k \<Rightarrow> ('k \<times> 'v) list \<Rightarrow> ('k \<times> 'v) list" where
  "al_remove k xs = filter (\<lambda>(k', _). k' \<noteq> k) xs"

section \<open>Messages and events\<close>

text \<open>Of an event the scheduler looks at the two terminal events of a scheduled turn, at the debounce event, and
  otherwise at its serialized name.\<close>

datatype observed_event =
    ScheduledExecutionCompleted string string
  | ScheduledExecutionFailed string "string option" string
  | ScheduleDebounceCompleted string
  | OtherEvent string

datatype scheduler_msg =
    DeadlineReached string
  | ProcessEvent string observed_event        \<comment> \<open>session and kind of the envelope\<close>
  | Reconcile
  | CycleCompleted string string
  | CycleFailed string "string option" string
  | DebounceCompleted string
  | TriggerNow string
  | AddSchedule schedule
  | RemoveSchedule string
  | PauseSchedule string
  | ResumeSchedule string
  | ListSchedules "string option"
  | GetSchedule string
  | GetMetrics
  | Shutdown
  | SetSelfRef

datatype schedule_event =
    ScheduleFired string string
  | ScheduleCreated string string string
  | ScheduleExhausted string
  | ScheduleFailed string u32
  | ScheduleCycleCompleted string string u32
  | ScheduleCycleFailed string "string option" string
  | SchedulePaused string
  | ScheduleResumed string

record scheduled_prompt =
  sp_schedule_public_id :: string
  sp_prompt_text :: string
  sp_execution_limits :: "schedule_execution_limits option"

section \<open>State\<close>

text \<open>\<^verbatim>\<open>transition_denials_total\<close>, the lease counters and the lag are never written; the runtime of the
  last cycle is kept in nanoseconds.\<close>

record scheduler_metrics =
  mt_fires_total :: u64
  mt_completions_total :: u64
  mt_failures_total :: u64
  mt_cas_conflicts_total :: u64
  mt_idempotent_drops_total :: u64
  mt_reconciliation_sweeps_total :: u64
  mt_reconciliation_recoveries_total :: u64
  mt_reconciliation_overdue_fires_total :: u64
  mt_active_cycles :: u64
  mt_armed_interval_schedules :: u64
  mt_armed_event_schedules :: u64
  mt_pending_deletes :: u64
  mt_last_cycle_runtime :: int

record active_cycle =
  ac_started_at :: datetime
  ac_timeout_handle :: nat

record scheduler =
  sd_owner_id :: string
  sd_lease_ttl_secs :: u64
  sd_queue :: deadline_queue
  sd_counters :: "(string \<times> event_accumulator) list"
  sd_active :: "(string \<times> active_cycle) list"
  sd_pending_deletes :: "string list"
  sd_processed :: "(string \<times> string option) set"
  sd_self_ref :: bool
  sd_wake :: "nat option"
  sd_stopped :: bool
  sd_metrics :: scheduler_metrics
  sd_db :: schedule_db
  sd_timers :: "(nat \<times> u64 \<times> scheduler_msg) list"
  sd_next_timer :: nat
  sd_mailbox :: "scheduler_msg list"
  sd_prompts :: "(string \<times> scheduled_prompt) list"
  sd_events :: "(string \<times> schedule_event) list"
  sd_clock :: nat
  sd_calls :: nat

record scheduler_env =
  sv_codec :: schedule_codec
  sv_rnd :: "real \<Rightarrow> real"
  sv_now :: "nat \<Rightarrow> datetime"
  sv_fault :: "nat \<Rightarrow> session_error option"
  sv_registered :: "nat \<Rightarrow> string \<Rightarrow> bool"
  sv_get_task :: "nat \<Rightarrow> string \<Rightarrow> session_error + string option option"  \<comment> \<open>the expected deliverable of the task\<close>
  sv_tell :: "nat \<Rightarrow> string \<Rightarrow> string option"                            \<comment> \<open>the error of a failed delivery\<close>
  sv_uuid :: "nat \<Rightarrow> string"
  sv_hash_order :: "string list \<Rightarrow> string list"                       \<comment> \<open>the order in which a hash map yields its keys\<close>

section \<open>Clock, database, timers, events\<close>

definition now_utc :: "scheduler_env \<Rightarrow> scheduler \<Rightarrow> datetime \<times> scheduler" where
  "now_utc E s = (sv_now E (sd_clock s), s\<lparr>sd_clock := Suc (sd_clock s)\<rparr>)"

definition db_call ::
    "scheduler_env \<Rightarrow> (schedule_db \<Rightarrow> (session_error + 'a) \<times> schedule_db) \<Rightarrow> scheduler \<Rightarrow> (session_error + 'a) \<times> scheduler" where
  "db_call E f s =
    (let s1 = s\<lparr>sd_calls := Suc (sd_calls s)\<rparr> in
     case sv_fault E (sd_calls s) of
       Some e \<Rightarrow> (Inl e, s1)
     | None \<Rightarrow> (let (r, db) = f (sd_db s) in (r, s1\<lparr>sd_db := db\<rparr>)))"

definition db_get :: "scheduler_env \<Rightarrow> string \<Rightarrow> scheduler \<Rightarrow> (session_error + schedule option) \<times> scheduler" where
  "db_get E pid = db_call E (\<lambda>db. (get_schedule (sv_codec E) pid db, db))"

definition db_update :: "scheduler_env \<Rightarrow> schedule \<Rightarrow> scheduler \<Rightarrow> scheduler" where
  "db_update E sch s = snd (db_call E (update_schedule (sv_codec E) sch) s)"

definition db_cas ::
    "scheduler_env \<Rightarrow> string \<Rightarrow> schedule_state \<Rightarrow> schedule_state \<Rightarrow> scheduler \<Rightarrow> (session_error + bool) \<times> scheduler" where
  "db_cas E pid from to s =
    (let (now, s1) = now_utc E s
     in db_call E (\<lambda>db. map_prod Inr id (update_schedule_state (sv_codec E) now pid from to db)) s1)"

definition spawn_timer :: "u64 \<Rightarrow> scheduler_msg \<Rightarrow> scheduler \<Rightarrow> nat \<times> scheduler" where
  "spawn_timer delay msg s =
    (sd_next_timer s, s\<lparr>sd_timers := sd_timers s @ [(sd_next_timer s, delay, msg)], sd_next_timer := Suc (sd_next_timer s)\<rparr>)"

definition abort_timer :: "nat \<Rightarrow> scheduler \<Rightarrow> scheduler" where
  "abort_timer i s = s\<lparr>sd_timers := filter (\<lambda>(j, _). j \<noteq> i) (sd_timers s)\<rparr>"

definition abort_opt :: "nat option \<Rightarrow> scheduler \<Rightarrow> scheduler" where
  "abort_opt h s = (case h of Some i \<Rightarrow> abort_timer i s | None \<Rightarrow> s)"

definition publish :: "string \<Rightarrow> schedule_event \<Rightarrow> scheduler \<Rightarrow> scheduler" where
  "publish session ev s = s\<lparr>sd_events := sd_events s @ [(session, ev)]\<rparr>"

section \<open>Queues\<close>

definition reschedule_wake :: "scheduler_env \<Rightarrow> scheduler \<Rightarrow> scheduler" where
  "reschedule_wake E s =
    (let s1 = (abort_opt (sd_wake s) s)\<lparr>sd_wake := None\<rparr> in
     if \<not> sd_self_ref s1 then s1
     else (case dq_peek (sd_queue s1) of
         None \<Rightarrow> s1
       | Some (next_time, pid) \<Rightarrow>
           (let (now, s2) = now_utc E s1;
                delay = max (next_time - now) 0;
                (i, s3) = spawn_timer (word_of_int (delay div 1000000000)) (DeadlineReached pid) s2
            in s3\<lparr>sd_wake := Some i\<rparr>)))"

definition set_gauges :: "scheduler \<Rightarrow> scheduler" where
  "set_gauges s = s\<lparr>sd_metrics := (sd_metrics s)\<lparr>mt_armed_interval_schedules := of_nat (dq_len (sd_queue s)),
     mt_armed_event_schedules := of_nat (length (sd_counters s))\<rparr>\<rparr>"

definition enqueue_schedule :: "scheduler_env \<Rightarrow> schedule \<Rightarrow> scheduler \<Rightarrow> scheduler" where
  "enqueue_schedule E sch s = set_gauges
    (case s_trigger sch of
       EventDriven f _ \<Rightarrow> s\<lparr>sd_counters := al_insert (s_public_id sch) (ea_new (tf_threshold f)) (sd_counters s)\<rparr>
     | _ \<Rightarrow>
         (case s_next_run_at sch of
            Some t \<Rightarrow> reschedule_wake E (s\<lparr>sd_queue := dq_insert t (s_public_id sch) (sd_queue s)\<rparr>)
          | None \<Rightarrow> s))"

section \<open>The end of a cycle\<close>

text \<open>The part both terminal handlers share: the active cycle is removed, its timeout aborted and its runtime
  recorded.\<close>

definition end_cycle :: "scheduler_env \<Rightarrow> string \<Rightarrow> scheduler \<Rightarrow> scheduler" where
  "end_cycle E pid s =
    (let s1 = (case map_of (sd_active s) pid of
           None \<Rightarrow> s
         | Some c \<Rightarrow>
             (let s0 = abort_timer (ac_timeout_handle c) (s\<lparr>sd_active := al_remove pid (sd_active s)\<rparr>);
                  (now, s0') = now_utc E s0
              in s0'\<lparr>sd_metrics := (sd_metrics s0')\<lparr>mt_last_cycle_runtime := now - ac_started_at c\<rparr>\<rparr>))
     in s1\<lparr>sd_metrics := (sd_metrics s1)\<lparr>mt_active_cycles := of_nat (length (sd_active s1))\<rparr>\<rparr>)"

definition run_pending_delete :: "scheduler_env \<Rightarrow> string \<Rightarrow> scheduler \<Rightarrow> scheduler" where
  "run_pending_delete E pid s =
    (if pid \<in> set (sd_pending_deletes s)
     then snd (db_call E (delete_schedule pid) (s\<lparr>sd_pending_deletes := removeAll pid (sd_pending_deletes s)\<rparr>))
     else s)"

definition drop_duplicate :: "scheduler \<Rightarrow> scheduler" where
  "drop_duplicate s = s\<lparr>sd_metrics := (sd_metrics s)\<lparr>mt_idempotent_drops_total := mt_idempotent_drops_total (sd_metrics s) + 1\<rparr>\<rparr>"

definition is_exhausted :: "schedule \<Rightarrow> bool" where
  "is_exhausted sch = (case sc_max_runs (s_config sch) of Some m \<Rightarrow> m \<le> s_run_count sch | None \<Rightarrow> False)"

definition settle_completed :: "scheduler_env \<Rightarrow> schedule \<Rightarrow> scheduler \<Rightarrow> scheduler" where
  "settle_completed E sch s =
    (let (t1, s1) = now_utc E s; (t2, s2) = now_utc E s1;
         updated = sch\<lparr>s_run_count := s_run_count sch + 1, s_consecutive_failures := 0,
                       s_last_run_at := Some t1, s_updated_at := t2\<rparr>
     in if is_exhausted updated
        then publish (s_session_public_id sch) (ScheduleExhausted (s_public_id sch))
               (db_update E (updated\<lparr>s_state := Exhausted, s_next_run_at := None\<rparr>) s2)
        else
          (let (armed, s3) =
             (case s_trigger sch of
                Interval seconds \<Rightarrow>
                  (let (t3, s3) = now_utc E s2
                   in (updated\<lparr>s_state := Armed,
                         s_next_run_at := Some (compute_next_run_at (sv_rnd E) seconds (sc_jitter_percent (s_config sch)) t3)\<rparr>, s3))
              | _ \<Rightarrow> (updated\<lparr>s_state := Armed\<rparr>, s2))
           in enqueue_schedule E armed (db_update E armed s3)))"

definition handle_cycle_completed :: "scheduler_env \<Rightarrow> string \<Rightarrow> string \<Rightarrow> scheduler \<Rightarrow> scheduler" where
  "handle_cycle_completed E pid turn s =
    (if (pid, Some turn) \<in> sd_processed s then drop_duplicate s
     else
       let s1 = end_cycle E pid (s\<lparr>sd_processed := insert (pid, Some turn) (sd_processed s)\<rparr>);
           s2 = s1\<lparr>sd_metrics := (sd_metrics s1)\<lparr>mt_completions_total := mt_completions_total (sd_metrics s1) + 1\<rparr>\<rparr>
       in case db_get E pid s2 of
            (Inr (Some sch), s3) \<Rightarrow>
              publish (s_session_public_id sch) (ScheduleCycleCompleted pid turn (s_run_count sch + 1))
                (run_pending_delete E pid (settle_completed E sch s3))
          | (_, s3) \<Rightarrow> s3)"

definition settle_failed :: "scheduler_env \<Rightarrow> schedule \<Rightarrow> scheduler \<Rightarrow> scheduler" where
  "settle_failed E sch s =
    (let (t1, s1) = now_utc E s; (t2, s2) = now_utc E s1;
         updated = sch\<lparr>s_consecutive_failures := s_consecutive_failures sch + 1,
                       s_last_run_at := Some t1, s_updated_at := t2\<rparr>
     in if sc_max_consecutive_failures (s_config updated) \<le> s_consecutive_failures updated
        then publish (s_session_public_id sch) (ScheduleFailed (s_public_id sch) (s_consecutive_failures sch + 1))
               (db_update E (updated\<lparr>s_state := Failed, s_next_run_at := None\<rparr>) s2)
        else
          (let (t3, s3) = now_utc E s2;
               backoff = compute_backoff (sv_rnd E) t3 (sc_backoff_base_seconds (s_config sch))
                           (s_consecutive_failures updated) (sc_jitter_percent (s_config sch));
               (t4, s4) = now_utc E s3;
               armed = updated\<lparr>s_state := Armed, s_next_run_at := Some (t4 + backoff)\<rparr>
           in enqueue_schedule E armed (db_update E armed s4)))"

definition handle_cycle_failed_inner :: "scheduler_env \<Rightarrow> string \<Rightarrow> string option \<Rightarrow> string \<Rightarrow> scheduler \<Rightarrow> scheduler" where
  "handle_cycle_failed_inner E pid turn err s =
    (if (pid, turn) \<in> sd_processed s then drop_duplicate s
     else
       let s1 = end_cycle E pid (s\<lparr>sd_processed := insert (pid, turn) (sd_processed s)\<rparr>);
           s2 = s1\<lparr>sd_metrics := (sd_metrics s1)\<lparr>mt_failures_total := mt_failures_total (sd_metrics s1) + 1\<rparr>\<rparr>
       in case db_get E pid s2 of
            (Inr (Some sch), s3) \<Rightarrow>
              publish (s_session_public_id sch) (ScheduleCycleFailed pid turn err)
                (run_pending_delete E pid (settle_failed E sch s3))
          | (_, s3) \<Rightarrow> s3)"

section \<open>Firing\<close>

definition default_prompt :: "string \<Rightarrow> string" where
  "default_prompt pid = ''Execute the recurring task for schedule '' @ pid @ ''.''"

definition prompt_text :: "scheduler_env \<Rightarrow> nat \<Rightarrow> string \<Rightarrow> schedule \<Rightarrow> string" where
  "prompt_text E n pid sch =
    (case sv_get_task E n (s_task_public_id sch) of
       Inr (Some (Some d)) \<Rightarrow> (if d = [] then default_prompt pid else d)
     | _ \<Rightarrow> default_prompt pid)"

text \<open>The fallback timer without a self reference only logs; it is a timer that sends nothing, so none is
  recorded, and its handle is an unused number.\<close>

definition start_cycle :: "scheduler_env \<Rightarrow> string \<Rightarrow> schedule \<Rightarrow> scheduler \<Rightarrow> scheduler" where
  "start_cycle E pid sch s =
    (let max_runtime = sc_max_runtime_seconds (s_config sch);
         (h, s1) = (if sd_self_ref s
             then spawn_timer max_runtime
                    (CycleFailed pid None (''cycle exceeded max_runtime_seconds ('' @ show_nat (unat max_runtime) @ '')'')) s
             else (sd_next_timer s, s\<lparr>sd_next_timer := Suc (sd_next_timer s)\<rparr>));
         (now, s2) = now_utc E s1;
         s3 = s2\<lparr>sd_active := al_insert pid \<lparr>ac_started_at = now, ac_timeout_handle = h\<rparr> (sd_active s2)\<rparr>;
         s4 = s3\<lparr>sd_metrics := (sd_metrics s3)\<lparr>mt_active_cycles := of_nat (length (sd_active s3))\<rparr>\<rparr>
     in publish (s_session_public_id sch) (ScheduleFired pid (s_session_public_id sch)) s4)"

definition fire_schedule :: "scheduler_env \<Rightarrow> string \<Rightarrow> scheduler \<Rightarrow> scheduler" where
  "fire_schedule E pid s =
    (case db_cas E pid Armed Running s of
       (Inl _, s1) \<Rightarrow> s1
     | (Inr False, s1) \<Rightarrow>
         s1\<lparr>sd_metrics := (sd_metrics s1)\<lparr>mt_cas_conflicts_total := mt_cas_conflicts_total (sd_metrics s1) + 1\<rparr>\<rparr>
     | (Inr True, s1) \<Rightarrow>
         (case db_get E pid s1 of
            (Inr (Some sch), s2) \<Rightarrow>
              (if \<not> sv_registered E (sd_calls s2) (s_session_public_id sch)
               then handle_cycle_failed_inner E pid None ''session not found in registry'' s2
               else
                 let prompt = \<lparr>sp_schedule_public_id = pid, sp_prompt_text = prompt_text E (sd_calls s2) pid sch,
                               sp_execution_limits = sc_execution_limits (s_config sch)\<rparr>
                 in case sv_tell E (sd_calls s2) (s_session_public_id sch) of
                      Some e \<Rightarrow> handle_cycle_failed_inner E pid None (''failed to send ScheduledPrompt: '' @ e) s2
                    | None \<Rightarrow>
                        start_cycle E pid sch
                          (s2\<lparr>sd_prompts := sd_prompts s2 @ [(s_session_public_id sch, prompt)],
                             sd_metrics := (sd_metrics s2)\<lparr>mt_fires_total := mt_fires_total (sd_metrics s2) + 1\<rparr>\<rparr>))
          | (_, s2) \<Rightarrow> s2))"

section \<open>Managing schedules\<close>

definition handle_add_schedule :: "scheduler_env \<Rightarrow> schedule \<Rightarrow> scheduler \<Rightarrow> (session_error + unit) \<times> scheduler" where
  "handle_add_schedule E sch s =
    (case db_call E (create_schedule (sv_codec E) (sv_uuid E (sd_calls s)) sch) s of
       (Inl e, s1) \<Rightarrow> (Inl e, s1)
     | (Inr created, s1) \<Rightarrow>
         (Inr (), publish (s_session_public_id sch)
            (ScheduleCreated (s_public_id created) (s_session_public_id sch) (s_task_public_id sch))
            (enqueue_schedule E created s1)))"

definition handle_remove_schedule :: "scheduler_env \<Rightarrow> string \<Rightarrow> scheduler \<Rightarrow> (session_error + unit) \<times> scheduler" where
  "handle_remove_schedule E pid s =
    (if map_of (sd_active s) pid \<noteq> None then
       (let s1 = s\<lparr>sd_pending_deletes := List.insert pid (sd_pending_deletes s)\<rparr>
        in (Inr (), s1\<lparr>sd_metrics := (sd_metrics s1)\<lparr>mt_pending_deletes := of_nat (length (sd_pending_deletes s1))\<rparr>\<rparr>))
     else
       db_call E (delete_schedule pid)
         (reschedule_wake E (set_gauges
           (s\<lparr>sd_queue := dq_remove pid (sd_queue s), sd_counters := al_remove pid (sd_counters s)\<rparr>))))"

text \<open>Resetting an accumulator in the map aborts its debounce timer.\<close>

definition reset_counter :: "string \<Rightarrow> scheduler \<Rightarrow> scheduler" where
  "reset_counter pid s =
    (case map_of (sd_counters s) pid of
       None \<Rightarrow> s
     | Some acc \<Rightarrow>
         (let (h, acc') = ea_reset acc
          in abort_opt h (s\<lparr>sd_counters := al_insert pid acc' (sd_counters s)\<rparr>)))"

definition ok_or_false :: "session_error + bool \<Rightarrow> bool" where
  "ok_or_false r = (case r of Inr b \<Rightarrow> b | Inl _ \<Rightarrow> False)"

definition handle_pause_schedule :: "scheduler_env \<Rightarrow> string \<Rightarrow> scheduler \<Rightarrow> scheduler" where
  "handle_pause_schedule E pid s =
    (let (r1, s1) = db_cas E pid Armed Paused s;
         from_armed = ok_or_false r1;
         (r2, s2) = (if from_armed then (Inr True, s1) else db_cas E pid Running Paused s1)
     in if \<not> ok_or_false r2 then s2
        else publish [] (SchedulePaused pid)
               (reschedule_wake E (reset_counter pid (s2\<lparr>sd_queue := dq_remove pid (sd_queue s2)\<rparr>))))"

definition handle_resume_schedule :: "scheduler_env \<Rightarrow> string \<Rightarrow> scheduler \<Rightarrow> scheduler" where
  "handle_resume_schedule E pid s =
    (let (r, s1) = db_cas E pid Paused Armed s in
     if \<not> ok_or_false r then s1
     else publish [] (ScheduleResumed pid)
       (case db_get E pid s1 of
          (Inr (Some sch), s2) \<Rightarrow>
            (case s_trigger sch of
               Interval seconds \<Rightarrow>
                 (let (t1, s3) = now_utc E s2; (t2, s4) = now_utc E s3;
                      updated = sch\<lparr>s_next_run_at := Some (compute_next_run_at (sv_rnd E) seconds (sc_jitter_percent (s_config sch)) t1),
                                    s_updated_at := t2\<rparr>
                  in enqueue_schedule E updated (db_update E updated s4))
             | _ \<Rightarrow> enqueue_schedule E sch s2)
        | (_, s2) \<Rightarrow> s2))"

section \<open>Events and deadlines\<close>

definition start_debounce :: "scheduler_env \<Rightarrow> string \<Rightarrow> u64 \<Rightarrow> event_accumulator \<Rightarrow> scheduler \<Rightarrow> scheduler" where
  "start_debounce E pid secs acc s =
    (let (now, s1) = now_utc E s;
         acc1 = acc\<lparr>ea_debounce_until := Some (now + seconds_ns (sint secs))\<rparr>;
         (acc2, s2) = (if sd_self_ref s1
             then (let (h, s') = spawn_timer secs (DebounceCompleted pid) s1 in (acc1\<lparr>ea_debounce_handle := Some h\<rparr>, s'))
             else (acc1, s1))
     in s2\<lparr>sd_counters := al_insert pid acc2 (sd_counters s2)\<rparr>)"

definition handle_event_received :: "scheduler_env \<Rightarrow> string \<Rightarrow> scheduler \<Rightarrow> scheduler" where
  "handle_event_received E pid s =
    (case map_of (sd_counters s) pid of
       None \<Rightarrow> s
     | Some acc0 \<Rightarrow>
         (let (threshold_met, acc) = ea_increment acc0;
              s1 = s\<lparr>sd_counters := al_insert pid acc (sd_counters s)\<rparr>
          in if \<not> threshold_met then s1
             else
               let (debouncing, s2) = (case ea_debounce_until acc of
                       None \<Rightarrow> (False, s1)
                     | Some _ \<Rightarrow> (let (now, s') = now_utc E s1 in (ea_is_debouncing now acc, s')))
               in if debouncing then s2
                  else (case db_get E pid s2 of
                      (Inr (Some sch), s3) \<Rightarrow>
                        (case s_trigger sch of
                           EventDriven _ secs \<Rightarrow>
                             (if 0 < secs then start_debounce E pid secs acc s3
                              else fire_schedule E pid (reset_counter pid s3))
                         | _ \<Rightarrow> s3)
                    | (_, s3) \<Rightarrow> s3)))"

definition handle_debounce_completed :: "scheduler_env \<Rightarrow> string \<Rightarrow> scheduler \<Rightarrow> scheduler" where
  "handle_debounce_completed E pid s =
    (case map_of (sd_counters s) pid of
       None \<Rightarrow> s
     | Some acc \<Rightarrow>
         (if ea_threshold_met acc then fire_schedule E pid (reset_counter pid s)
          else s\<lparr>sd_counters := al_insert pid (acc\<lparr>ea_debounce_until := None\<rparr>) (sd_counters s)\<rparr>))"

definition handle_deadline_reached :: "scheduler_env \<Rightarrow> string \<Rightarrow> scheduler \<Rightarrow> scheduler" where
  "handle_deadline_reached E pid s =
    fire_schedule E pid (reschedule_wake E (s\<lparr>sd_queue := dq_remove pid (sd_queue s)\<rparr>))"

definition handle_trigger_now :: "scheduler_env \<Rightarrow> string \<Rightarrow> scheduler \<Rightarrow> scheduler" where
  "handle_trigger_now E pid s =
    fire_schedule E pid (reschedule_wake E (s\<lparr>sd_queue := dq_remove pid (sd_queue s)\<rparr>))"

definition handle_list_schedules :: "scheduler_env \<Rightarrow> string option \<Rightarrow> scheduler \<Rightarrow> schedule list \<times> scheduler" where
  "handle_list_schedules E session s =
    (let (r, s1) = db_call E (\<lambda>db. (case session of
           Some spid \<Rightarrow> list_schedules (sv_codec E) spid db
         | None \<Rightarrow> list_all_armed_schedules (sv_codec E) db, db)) s
     in (case r of Inr xs \<Rightarrow> xs | Inl _ \<Rightarrow> [], s1))"

definition event_matches :: "string \<Rightarrow> string \<Rightarrow> event_trigger_filter \<Rightarrow> bool" where
  "event_matches session name f =
    (name \<in> set (tf_event_kinds f) \<and> (case tf_session_public_id f of Some x \<Rightarrow> x = session | None \<Rightarrow> True))"

definition offer_event :: "scheduler_env \<Rightarrow> string \<Rightarrow> string \<Rightarrow> string \<Rightarrow> scheduler \<Rightarrow> scheduler" where
  "offer_event E session name pid s =
    (case db_get E pid s of
       (Inr (Some sch), s1) \<Rightarrow>
         (case s_trigger sch of
            EventDriven f _ \<Rightarrow> (if event_matches session name f then handle_event_received E pid s1 else s1)
          | _ \<Rightarrow> s1)
     | (_, s1) \<Rightarrow> s1)"

definition process_event :: "scheduler_env \<Rightarrow> string \<Rightarrow> observed_event \<Rightarrow> scheduler \<Rightarrow> scheduler" where
  "process_event E session ev s =
    (case ev of
       ScheduledExecutionCompleted pid turn \<Rightarrow> handle_cycle_completed E pid turn s
     | ScheduledExecutionFailed pid turn err \<Rightarrow> handle_cycle_failed_inner E pid turn err s
     | ScheduleDebounceCompleted _ \<Rightarrow> s
     | OtherEvent name \<Rightarrow> fold (offer_event E session name) (sv_hash_order E (map fst (sd_counters s))) s)"

section \<open>Recovery and reconciliation\<close>

definition recover_stale_running :: "scheduler_env \<Rightarrow> scheduler \<Rightarrow> scheduler" where
  "recover_stale_running E s =
    (let (now, s1) = now_utc E s in
     case db_call E (\<lambda>db. (list_running_schedules_older_than (sv_codec E) (now - seconds_ns 300) db, db)) s1 of
       (Inr stale, s2) \<Rightarrow>
         fold (\<lambda>sch. handle_cycle_failed_inner E (s_public_id sch) None ''recovered from stale running state on startup'') stale s2
     | (Inl _, s2) \<Rightarrow> s2)"

definition rebuild_queues :: "scheduler_env \<Rightarrow> scheduler \<Rightarrow> scheduler" where
  "rebuild_queues E s =
    (case db_call E (\<lambda>db. (list_all_armed_schedules (sv_codec E) db, db)) s of
       (Inr schedules, s1) \<Rightarrow> fold (enqueue_schedule E) schedules s1
     | (Inl _, s1) \<Rightarrow> s1)"

definition initialize :: "scheduler_env \<Rightarrow> scheduler \<Rightarrow> bool \<times> scheduler" where
  "initialize E s =
    (let (now, s1) = now_utc E s in
     case db_call E (\<lambda>db. map_prod Inr id (try_acquire_scheduler_lease (sv_codec E) now (sd_owner_id s) (sd_lease_ttl_secs s) db)) s1 of
       (Inr True, s2) \<Rightarrow> (True, rebuild_queues E (recover_stale_running E s2))
     | (_, s2) \<Rightarrow> (False, s2))"

definition recover_stale :: "scheduler_env \<Rightarrow> schedule \<Rightarrow> scheduler \<Rightarrow> scheduler" where
  "recover_stale E sch s =
    (if map_of (sd_active s) (s_public_id sch) = None
     then handle_cycle_failed_inner E (s_public_id sch) None ''recovered by reconciliation sweep''
            (s\<lparr>sd_metrics := (sd_metrics s)\<lparr>mt_reconciliation_recoveries_total := mt_reconciliation_recoveries_total (sd_metrics s) + 1\<rparr>\<rparr>)
     else s)"

definition fire_overdue :: "scheduler_env \<Rightarrow> datetime \<Rightarrow> schedule \<Rightarrow> scheduler \<Rightarrow> scheduler" where
  "fire_overdue E now sch s =
    (case s_next_run_at sch of
       Some t \<Rightarrow>
         (if t \<le> now
          then fire_schedule E (s_public_id sch)
                 (s\<lparr>sd_metrics := (sd_metrics s)\<lparr>mt_reconciliation_overdue_fires_total := mt_reconciliation_overdue_fires_total (sd_metrics s) + 1\<rparr>\<rparr>)
          else s)
     | None \<Rightarrow> s)"

definition reconcile :: "scheduler_env \<Rightarrow> scheduler \<Rightarrow> scheduler" where
  "reconcile E s0 =
    (let s = s0\<lparr>sd_metrics := (sd_metrics s0)\<lparr>mt_reconciliation_sweeps_total := mt_reconciliation_sweeps_total (sd_metrics s0) + 1\<rparr>\<rparr>;
         (now, s1) = now_utc E s;
         s2 = (case db_call E (\<lambda>db. (list_running_schedules_older_than (sv_codec E) (now - seconds_ns 300) db, db)) s1 of
             (Inr stale, s') \<Rightarrow> fold (recover_stale E) stale s'
           | (Inl _, s') \<Rightarrow> s');
         s3 = (case db_call E (\<lambda>db. (list_all_armed_schedules (sv_codec E) db, db)) s2 of
             (Inr armed, s') \<Rightarrow> (let (now', s'') = now_utc E s' in fold (fire_overdue E now') armed s'')
           | (Inl _, s') \<Rightarrow> s');
         (now'', s4) = now_utc E s3
     in snd (db_call E (\<lambda>db. map_prod Inr id (renew_scheduler_lease (sv_codec E) now'' (sd_owner_id s4) (sd_lease_ttl_secs s4) db)) s4))"

section \<open>The actor\<close>

definition handle_shutdown :: "scheduler_env \<Rightarrow> scheduler \<Rightarrow> scheduler" where
  "handle_shutdown E s =
    (let s1 = (abort_opt (sd_wake s) s)\<lparr>sd_wake := None\<rparr>;
         (_, s2) = db_call E (\<lambda>db. map_prod Inr id (release_scheduler_lease (sd_owner_id s1) db)) s1
     in s2\<lparr>sd_stopped := True\<rparr>)"

definition handle_message :: "scheduler_env \<Rightarrow> scheduler_msg \<Rightarrow> scheduler \<Rightarrow> scheduler" where
  "handle_message E m s =
    (case m of
       DeadlineReached pid \<Rightarrow> handle_deadline_reached E pid s
     | ProcessEvent session ev \<Rightarrow> process_event E session ev s
     | Reconcile \<Rightarrow> reconcile E s
     | CycleCompleted pid turn \<Rightarrow> handle_cycle_completed E pid turn s
     | CycleFailed pid turn err \<Rightarrow> handle_cycle_failed_inner E pid turn err s
     | DebounceCompleted pid \<Rightarrow> handle_debounce_completed E pid s
     | TriggerNow pid \<Rightarrow> handle_trigger_now E pid s
     | AddSchedule sch \<Rightarrow> snd (handle_add_schedule E sch s)
     | RemoveSchedule pid \<Rightarrow> snd (handle_remove_schedule E pid s)
     | PauseSchedule pid \<Rightarrow> handle_pause_schedule E pid s
     | ResumeSchedule pid \<Rightarrow> handle_resume_schedule E pid s
     | ListSchedules session \<Rightarrow> snd (handle_list_schedules E session s)
     | GetSchedule pid \<Rightarrow> snd (db_get E pid s)
     | GetMetrics \<Rightarrow> s
     | Shutdown \<Rightarrow> handle_shutdown E s
     | SetSelfRef \<Rightarrow> reschedule_wake E (s\<lparr>sd_self_ref := True\<rparr>))"

text \<open>One tick of the lease renewal loop: a lost lease shuts the actor down.\<close>

definition lease_renewal_tick :: "scheduler_env \<Rightarrow> scheduler \<Rightarrow> scheduler" where
  "lease_renewal_tick E s =
    (let (now, s1) = now_utc E s in
     case db_call E (\<lambda>db. map_prod Inr id (renew_scheduler_lease (sv_codec E) now (sd_owner_id s) (sd_lease_ttl_secs s) db)) s1 of
       (Inr False, s2) \<Rightarrow> s2\<lparr>sd_mailbox := sd_mailbox s2 @ [Shutdown]\<rparr>
     | (_, s2) \<Rightarrow> s2)"

section \<open>Runs of the actor\<close>

definition empty_metrics :: scheduler_metrics where
  "empty_metrics = \<lparr>mt_fires_total = 0, mt_completions_total = 0, mt_failures_total = 0, mt_cas_conflicts_total = 0,
     mt_idempotent_drops_total = 0, mt_reconciliation_sweeps_total = 0, mt_reconciliation_recoveries_total = 0,
     mt_reconciliation_overdue_fires_total = 0, mt_active_cycles = 0, mt_armed_interval_schedules = 0,
     mt_armed_event_schedules = 0, mt_pending_deletes = 0, mt_last_cycle_runtime = 0\<rparr>"

definition scheduler_new :: "string \<Rightarrow> u64 \<Rightarrow> schedule_db \<Rightarrow> scheduler" where
  "scheduler_new owner ttl db = \<lparr>sd_owner_id = owner, sd_lease_ttl_secs = ttl, sd_queue = [], sd_counters = [],
     sd_active = [], sd_pending_deletes = [], sd_processed = {}, sd_self_ref = False, sd_wake = None,
     sd_stopped = False, sd_metrics = empty_metrics, sd_db = db, sd_timers = [], sd_next_timer = 0,
     sd_mailbox = [], sd_prompts = [], sd_events = [], sd_clock = 0, sd_calls = 0\<rparr>"

text \<open>The actor handles the first message of its mailbox, a timer fires, somebody sends a message, the renewal loop
  ticks, or another node works on the lease row.\<close>

inductive sched_step :: "scheduler_env \<Rightarrow> scheduler \<Rightarrow> scheduler \<Rightarrow> bool" for E where
  handle: "\<not> sd_stopped s \<Longrightarrow> sd_mailbox s = m # ms \<Longrightarrow> sched_step E s (handle_message E m (s\<lparr>sd_mailbox := ms\<rparr>))"
| timer: "(i, d, m) \<in> set (sd_timers s) \<Longrightarrow> sched_step E s ((abort_timer i s)\<lparr>sd_mailbox := sd_mailbox s @ [m]\<rparr>)"
| send: "sched_step E s (s\<lparr>sd_mailbox := sd_mailbox s @ [m]\<rparr>)"
| renew: "sched_step E s (lease_renewal_tick E s)"
| other_node: "sched_step E s (s\<lparr>sd_db := (sd_db s)\<lparr>d_lease := l\<rparr>\<rparr>)"

inductive sched_reach :: "scheduler_env \<Rightarrow> scheduler \<Rightarrow> bool" for E where
  start: "initialize E (scheduler_new owner ttl db) = (True, s) \<Longrightarrow> sched_reach E s"
| step: "sched_reach E s \<Longrightarrow> sched_step E s s' \<Longrightarrow> sched_reach E s'"

section \<open>The wake timer\<close>

text \<open>Handles held for timeouts and debounce windows.\<close>

definition owned :: "scheduler \<Rightarrow> nat set" where
  "owned s = (ac_timeout_handle \<circ> snd) ` set (sd_active s) \<union> {h. Some h \<in> (ea_debounce_handle \<circ> snd) ` set (sd_counters s)}"

definition handles_ok :: "scheduler \<Rightarrow> bool" where
  "handles_ok s = ((\<forall>h \<in> owned s. h < sd_next_timer s) \<and> (\<forall>j \<in> fst ` set (sd_timers s). j < sd_next_timer s) \<and>
     distinct (map fst (sd_timers s)) \<and> (\<forall>w. sd_wake s = Some w \<longrightarrow> w < sd_next_timer s \<and> w \<notin> owned s))"

text \<open>The head of the queue has a wake timer, or its deadline message is in the mailbox.\<close>

definition head_ok :: "scheduler \<Rightarrow> bool" where
  "head_ok s = (\<forall>t pid. sd_self_ref s \<longrightarrow> \<not> sd_stopped s \<longrightarrow> dq_peek (sd_queue s) = Some (t, pid) \<longrightarrow>
     (\<exists>w d. sd_wake s = Some w \<and> (w, d, DeadlineReached pid) \<in> set (sd_timers s)) \<or>
     DeadlineReached pid \<in> set (sd_mailbox s))"

definition wake_inv :: "scheduler \<Rightarrow> bool" where
  "wake_inv s = (handles_ok s \<and> head_ok s)"

lemma handles_ok_frame [simp]:
  "handles_ok (s\<lparr>sd_queue := q\<rparr>) = handles_ok s"
  "handles_ok (s\<lparr>sd_pending_deletes := x1\<rparr>) = handles_ok s"
  "handles_ok (s\<lparr>sd_processed := x2\<rparr>) = handles_ok s"
  "handles_ok (s\<lparr>sd_self_ref := x3\<rparr>) = handles_ok s"
  "handles_ok (s\<lparr>sd_stopped := x4\<rparr>) = handles_ok s"
  "handles_ok (s\<lparr>sd_metrics := x5\<rparr>) = handles_ok s"
  "handles_ok (s\<lparr>sd_db := x6\<rparr>) = handles_ok s"
  "handles_ok (s\<lparr>sd_mailbox := x7\<rparr>) = handles_ok s"
  "handles_ok (s\<lparr>sd_prompts := x8\<rparr>) = handles_ok s"
  "handles_ok (s\<lparr>sd_events := x9\<rparr>) = handles_ok s"
  "handles_ok (s\<lparr>sd_clock := x10\<rparr>) = handles_ok s"
  "handles_ok (s\<lparr>sd_calls := x11\<rparr>) = handles_ok s"
  by (simp_all add: handles_ok_def owned_def)

lemma head_ok_frame [simp]:
  "head_ok (s\<lparr>sd_pending_deletes := x1\<rparr>) = head_ok s"
  "head_ok (s\<lparr>sd_processed := x2\<rparr>) = head_ok s"
  "head_ok (s\<lparr>sd_metrics := x5\<rparr>) = head_ok s"
  "head_ok (s\<lparr>sd_db := x6\<rparr>) = head_ok s"
  "head_ok (s\<lparr>sd_prompts := x8\<rparr>) = head_ok s"
  "head_ok (s\<lparr>sd_events := x9\<rparr>) = head_ok s"
  "head_ok (s\<lparr>sd_clock := x10\<rparr>) = head_ok s"
  "head_ok (s\<lparr>sd_calls := x11\<rparr>) = head_ok s"
  "head_ok (s\<lparr>sd_counters := x12\<rparr>) = head_ok s"
  "head_ok (s\<lparr>sd_active := x13\<rparr>) = head_ok s"
  "head_ok (s\<lparr>sd_next_timer := x14\<rparr>) = head_ok s"
  by (simp_all add: head_ok_def)

lemma wake_inv_frame [simp]:
  "wake_inv (s\<lparr>sd_pending_deletes := x1\<rparr>) = wake_inv s"
  "wake_inv (s\<lparr>sd_processed := x2\<rparr>) = wake_inv s"
  "wake_inv (s\<lparr>sd_metrics := x5\<rparr>) = wake_inv s"
  "wake_inv (s\<lparr>sd_db := x6\<rparr>) = wake_inv s"
  "wake_inv (s\<lparr>sd_prompts := x8\<rparr>) = wake_inv s"
  "wake_inv (s\<lparr>sd_events := x9\<rparr>) = wake_inv s"
  "wake_inv (s\<lparr>sd_clock := x10\<rparr>) = wake_inv s"
  "wake_inv (s\<lparr>sd_calls := x11\<rparr>) = wake_inv s"
  by (simp_all add: wake_inv_def)

lemma wake_inv_handles: "wake_inv s \<Longrightarrow> handles_ok s"
  by (simp add: wake_inv_def)

lemma wake_inv_stopped: "handles_ok s \<Longrightarrow> wake_inv (s\<lparr>sd_stopped := True\<rparr>)"
  by (simp add: wake_inv_def head_ok_def)

lemma now_utc_inv [simp]: "wake_inv (snd (now_utc E s)) = wake_inv s"
  by (simp add: now_utc_def)

lemma db_call_inv [simp]: "wake_inv (snd (db_call E f s)) = wake_inv s" "handles_ok (snd (db_call E f s)) = handles_ok s"
  by (simp_all add: db_call_def Let_def split: option.splits prod.splits)

lemma publish_inv [simp]: "wake_inv (publish x e s) = wake_inv s"
  by (simp add: publish_def)

lemma db_inv [simp]:
  "wake_inv (snd (db_get E pid s)) = wake_inv s" "wake_inv (db_update E sch s) = wake_inv s"
  "wake_inv (snd (db_cas E pid from to s)) = wake_inv s"
  by (simp_all add: db_get_def db_update_def db_cas_def now_utc_def)

lemma set_gauges_inv [simp]: "wake_inv (set_gauges s) = wake_inv s" "handles_ok (set_gauges s) = handles_ok s"
  by (simp_all add: set_gauges_def)

lemma abort_handles: "handles_ok s \<Longrightarrow> handles_ok (abort_timer i s)"
  by (auto simp: handles_ok_def abort_timer_def owned_def distinct_map inj_on_def)

lemma abort_owned:
  assumes "wake_inv s" "i \<in> owned s"
  shows "wake_inv (abort_timer i s)"
proof -
  have "head_ok (abort_timer i s)"
    using assms by (fastforce simp: wake_inv_def head_ok_def abort_timer_def handles_ok_def)
  with assms show ?thesis by (simp add: wake_inv_def abort_handles)
qed

lemma reschedule_wake_inv:
  assumes "handles_ok s"
  shows "wake_inv (reschedule_wake E s)"
proof -
  define s1 where "s1 = (abort_opt (sd_wake s) s)\<lparr>sd_wake := None\<rparr>"
  have h: "handles_ok s1"
    using assms abort_handles [OF assms]
    by (cases "sd_wake s") (auto simp: s1_def abort_opt_def handles_ok_def owned_def abort_timer_def)
  have w: "sd_wake s1 = None" by (simp add: s1_def)
  show ?thesis
  proof (cases "sd_self_ref s1")
    case False
    then show ?thesis using h by (simp add: reschedule_wake_def s1_def [symmetric] wake_inv_def head_ok_def)
  next
    case True
    show ?thesis
    proof (cases "dq_peek (sd_queue s1)")
      case None
      with True h show ?thesis
        by (simp add: reschedule_wake_def s1_def [symmetric] wake_inv_def head_ok_def)
    next
      case (Some e)
      with True h w show ?thesis
        by (cases e)
           (auto simp: reschedule_wake_def s1_def [symmetric] wake_inv_def head_ok_def now_utc_def spawn_timer_def
             handles_ok_def owned_def Let_def less_Suc_eq)
    qed
  qed
qed

text \<open>Every handler keeps the invariant.\<close>

lemma handles_subset:
  assumes "handles_ok s" "owned s' \<subseteq> owned s" "sd_timers s' = sd_timers s" "sd_next_timer s' = sd_next_timer s"
    "sd_wake s' = sd_wake s"
  shows "handles_ok s'"
  using assms by (auto simp: handles_ok_def)

lemma wake_inv_counters:
  assumes "wake_inv s" "owned (s\<lparr>sd_counters := cs\<rparr>) \<subseteq> owned s"
  shows "wake_inv (s\<lparr>sd_counters := cs\<rparr>)"
  using assms by (auto simp: wake_inv_def intro: handles_subset)

lemma owned_insert_none:
  "ea_debounce_handle acc = None \<Longrightarrow> owned (s\<lparr>sd_counters := al_insert pid acc (sd_counters s)\<rparr>) \<subseteq> owned s"
  by (auto simp: owned_def al_insert_def)

lemma owned_insert_same:
  assumes "map_of (sd_counters s) pid = Some acc0" "ea_debounce_handle acc = ea_debounce_handle acc0"
  shows "owned (s\<lparr>sd_counters := al_insert pid acc (sd_counters s)\<rparr>) \<subseteq> owned s"
  using assms map_of_SomeD [OF assms(1)] by (fastforce simp: owned_def al_insert_def image_iff)

lemma map_of_owned:
  "map_of (sd_active s) pid = Some c \<Longrightarrow> ac_timeout_handle c \<in> owned s"
  "map_of (sd_counters s) pid = Some acc \<Longrightarrow> ea_debounce_handle acc = Some h \<Longrightarrow> h \<in> owned s"
  by (force simp: owned_def image_iff dest: map_of_SomeD)+

lemma end_cycle_inv: "wake_inv s \<Longrightarrow> wake_inv (end_cycle E pid s)"
proof (cases "map_of (sd_active s) pid")
  case None
  then show "wake_inv s \<Longrightarrow> ?thesis" by (simp add: end_cycle_def)
next
  case (Some c)
  assume inv: "wake_inv s"
  let ?s = "(abort_timer (ac_timeout_handle c) s)\<lparr>sd_active := al_remove pid (sd_active s)\<rparr>"
  have "wake_inv (abort_timer (ac_timeout_handle c) s)" by (rule abort_owned [OF inv map_of_owned(1) [OF Some]])
  moreover have "owned ?s \<subseteq> owned (abort_timer (ac_timeout_handle c) s)"
    by (auto simp: owned_def al_remove_def abort_timer_def)
  ultimately have "wake_inv ?s" by (auto simp: wake_inv_def intro: handles_subset)
  moreover have "abort_timer (ac_timeout_handle c) (s\<lparr>sd_active := al_remove pid (sd_active s)\<rparr>) = ?s"
    by (simp add: abort_timer_def)
  ultimately show ?thesis using Some by (simp add: end_cycle_def now_utc_def Let_def)
qed

lemma run_pending_delete_inv [simp]: "wake_inv (run_pending_delete E pid s) = wake_inv s"
  by (simp add: run_pending_delete_def)

lemma enqueue_inv: "wake_inv s \<Longrightarrow> wake_inv (enqueue_schedule E sch s)"
  by (auto simp: enqueue_schedule_def ea_new_def wake_inv_handles
      intro!: reschedule_wake_inv wake_inv_counters owned_insert_none split: schedule_trigger.splits option.splits)

lemma settle_inv:
  "wake_inv s \<Longrightarrow> wake_inv (settle_completed E sch s)"
  "wake_inv s \<Longrightarrow> wake_inv (settle_failed E sch s)"
  by (auto simp: settle_completed_def settle_failed_def now_utc_def Let_def intro!: enqueue_inv
      split: schedule_trigger.splits)

lemma db_get_pair: "db_get E pid s = (r, s') \<Longrightarrow> wake_inv s' = wake_inv s"
  using db_inv(1) [of E pid s] by simp

lemma db_cas_pair: "db_cas E pid st st' s = (r, s') \<Longrightarrow> wake_inv s' = wake_inv s"
  using db_inv(3) [of E pid st st' s] by simp

lemma db_call_pair: "db_call E f s = (r, s') \<Longrightarrow> wake_inv s' = wake_inv s"
  using db_call_inv(1) [of E f s] by simp

lemma completed_inv: "wake_inv s \<Longrightarrow> wake_inv (handle_cycle_completed E pid turn s)"
  by (auto simp: handle_cycle_completed_def drop_duplicate_def Let_def end_cycle_inv
      dest!: db_get_pair intro!: settle_inv split: prod.splits sum.splits option.splits)

lemma failed_inv: "wake_inv s \<Longrightarrow> wake_inv (handle_cycle_failed_inner E pid turn err s)"
  by (auto simp: handle_cycle_failed_inner_def drop_duplicate_def Let_def end_cycle_inv
      dest!: db_get_pair intro!: settle_inv split: prod.splits sum.splits option.splits)

lemma spawn_inv: "wake_inv s \<Longrightarrow> wake_inv (snd (spawn_timer d m s))"
  by (fastforce simp: spawn_timer_def wake_inv_def head_ok_def handles_ok_def owned_def less_Suc_eq)

lemma handles_insert:
  assumes "handles_ok s" "owned s' \<subseteq> insert h (owned s)" "h < sd_next_timer s" "sd_wake s \<noteq> Some h"
    "sd_timers s' = sd_timers s" "sd_next_timer s' = sd_next_timer s" "sd_wake s' = sd_wake s"
  shows "handles_ok s'"
  using assms by (auto simp: handles_ok_def)

lemma wake_inv_active:
  assumes "wake_inv s" "h < sd_next_timer s" "sd_wake s \<noteq> Some h"
  shows "wake_inv (s\<lparr>sd_active := al_insert pid \<lparr>ac_started_at = t, ac_timeout_handle = h\<rparr> (sd_active s)\<rparr>)"
proof -
  have "owned (s\<lparr>sd_active := al_insert pid \<lparr>ac_started_at = t, ac_timeout_handle = h\<rparr> (sd_active s)\<rparr>) \<subseteq> insert h (owned s)"
    by (auto simp: owned_def al_insert_def)
  with assms show ?thesis by (simp add: wake_inv_def) (rule handles_insert [where s = s and h = h], simp_all)
qed

lemma wake_inv_debounce:
  assumes "wake_inv s" "h < sd_next_timer s" "sd_wake s \<noteq> Some h"
  shows "wake_inv (s\<lparr>sd_counters := al_insert pid (acc\<lparr>ea_debounce_handle := Some h\<rparr>) (sd_counters s)\<rparr>)"
proof -
  have "owned (s\<lparr>sd_counters := al_insert pid (acc\<lparr>ea_debounce_handle := Some h\<rparr>) (sd_counters s)\<rparr>) \<subseteq> insert h (owned s)"
    by (auto simp: owned_def al_insert_def)
  with assms show ?thesis by (simp add: wake_inv_def) (rule handles_insert [where s = s and h = h], simp_all)
qed

lemma wake_fresh: "wake_inv s \<Longrightarrow> sd_wake s \<noteq> Some (sd_next_timer s)"
  by (auto simp: wake_inv_def handles_ok_def)

lemma start_cycle_inv:
  assumes inv: "wake_inv s"
  shows "wake_inv (start_cycle E pid sch s)"
proof -
  define msg where "msg = CycleFailed pid None
    (''cycle exceeded max_runtime_seconds ('' @ show_nat (unat (sc_max_runtime_seconds (s_config sch))) @ '')'')"
  define p where "p = (if sd_self_ref s then spawn_timer (sc_max_runtime_seconds (s_config sch)) msg s
    else (sd_next_timer s, s\<lparr>sd_next_timer := Suc (sd_next_timer s)\<rparr>))"
  have "wake_inv (s\<lparr>sd_next_timer := Suc (sd_next_timer s)\<rparr>)"
    using inv by (fastforce simp: wake_inv_def handles_ok_def owned_def less_Suc_eq)
  then have "wake_inv (snd p)" using spawn_inv [OF inv] by (simp add: p_def)
  then have "wake_inv (snd (now_utc E (snd p)))" by simp
  moreover have "fst p < sd_next_timer (snd p)" "sd_wake (snd p) \<noteq> Some (fst p)"
    using wake_fresh [OF inv] by (auto simp: p_def spawn_timer_def)
  ultimately have "wake_inv ((snd (now_utc E (snd p)))\<lparr>sd_active := al_insert pid
      \<lparr>ac_started_at = fst (now_utc E (snd p)), ac_timeout_handle = fst p\<rparr> (sd_active (snd (now_utc E (snd p))))\<rparr>)"
    by (intro wake_inv_active) (simp_all add: now_utc_def)
  then show ?thesis
    unfolding start_cycle_def msg_def [symmetric] p_def [symmetric] Let_def
    by (simp add: case_prod_beta)
qed

lemma fire_inv: "wake_inv s \<Longrightarrow> wake_inv (fire_schedule E pid s)"
  by (auto simp: fire_schedule_def Let_def
      dest!: db_get_pair db_cas_pair intro!: failed_inv start_cycle_inv split: prod.splits sum.splits option.splits bool.splits)

lemma reset_counter_inv:
  assumes "wake_inv s"
  shows "wake_inv (reset_counter pid s)"
proof (cases "map_of (sd_counters s) pid")
  case None
  with assms show ?thesis by (simp add: reset_counter_def)
next
  case (Some acc)
  let ?cs = "al_insert pid (snd (ea_reset acc)) (sd_counters s)"
  have none: "ea_debounce_handle (snd (ea_reset acc)) = None" by (simp add: ea_reset_def)
  have "wake_inv (abort_opt (ea_debounce_handle acc) s)"
    using assms map_of_owned(2) [OF Some] by (auto simp: abort_opt_def intro: abort_owned split: option.splits)
  moreover have "owned ((abort_opt (ea_debounce_handle acc) s)\<lparr>sd_counters := ?cs\<rparr>) \<subseteq> owned (abort_opt (ea_debounce_handle acc) s)"
    using owned_insert_none [OF none, of pid s]
    by (simp add: abort_opt_def abort_timer_def owned_def split: option.splits)
  ultimately have "wake_inv ((abort_opt (ea_debounce_handle acc) s)\<lparr>sd_counters := ?cs\<rparr>)" by (rule wake_inv_counters)
  moreover have "reset_counter pid s = (abort_opt (ea_debounce_handle acc) s)\<lparr>sd_counters := ?cs\<rparr>"
    using Some by (simp add: reset_counter_def ea_reset_def abort_opt_def abort_timer_def split: option.splits)
  ultimately show ?thesis by simp
qed

lemma start_debounce_inv:
  assumes inv: "wake_inv s" and acc: "map_of (sd_counters s) pid = Some acc"
  shows "wake_inv (start_debounce E pid secs acc s)"
proof -
  let ?s1 = "snd (now_utc E s)"
  let ?until = "Some (fst (now_utc E s) + seconds_ns (sint secs))"
  have inv1: "wake_inv ?s1" and acc1: "map_of (sd_counters ?s1) pid = Some acc" using inv acc by (simp_all add: now_utc_def)
  show ?thesis
  proof (cases "sd_self_ref ?s1")
    case False
    have "wake_inv (?s1\<lparr>sd_counters := al_insert pid (acc\<lparr>ea_debounce_until := ?until\<rparr>) (sd_counters ?s1)\<rparr>)"
      by (rule wake_inv_counters [OF inv1 owned_insert_same [OF acc1]]) simp
    with False show ?thesis by (simp add: start_debounce_def Let_def case_prod_beta)
  next
    case True
    let ?p = "spawn_timer secs (DebounceCompleted pid) ?s1"
    have "wake_inv (snd ?p)" by (rule spawn_inv [OF inv1])
    moreover have "fst ?p < sd_next_timer (snd ?p)" "sd_wake (snd ?p) \<noteq> Some (fst ?p)"
      using wake_fresh [OF inv1] by (simp_all add: spawn_timer_def)
    ultimately have "wake_inv ((snd ?p)\<lparr>sd_counters := al_insert pid
        ((acc\<lparr>ea_debounce_until := ?until\<rparr>)\<lparr>ea_debounce_handle := Some (fst ?p)\<rparr>) (sd_counters (snd ?p))\<rparr>)"
      by (rule wake_inv_debounce)
    with True show ?thesis by (simp add: start_debounce_def Let_def case_prod_beta)
  qed
qed

lemma db_get_counters: "db_get E pid s = (r, s') \<Longrightarrow> sd_counters s' = sd_counters s"
  by (auto simp: db_get_def db_call_def Let_def split: option.splits)

lemma map_of_al_insert [simp]: "map_of (al_insert k v xs) j = (if j = k then Some v else map_of xs j)"
proof -
  have "map_of (filter (\<lambda>(k', _). k' \<noteq> k) xs) k = None" by (induction xs) auto
  moreover have "j \<noteq> k \<Longrightarrow> map_of (filter (\<lambda>(k', _). k' \<noteq> k) xs) j = map_of xs j" by (induction xs) auto
  ultimately show ?thesis by (auto simp: al_insert_def map_add_def split: option.splits)
qed

lemma event_received_inv:
  assumes "wake_inv s"
  shows "wake_inv (handle_event_received E pid s)"
proof (cases "map_of (sd_counters s) pid")
  case None
  with assms show ?thesis by (simp add: handle_event_received_def)
next
  case (Some acc0)
  define acc where "acc = acc0\<lparr>ea_count := ea_count acc0 + 1\<rparr>"
  define s1 where "s1 = s\<lparr>sd_counters := al_insert pid acc (sd_counters s)\<rparr>"
  have inv1: "wake_inv s1" unfolding s1_def
    by (rule wake_inv_counters [OF assms owned_insert_same [OF Some]]) (simp add: acc_def)
  define p where "p = (case ea_debounce_until acc of None \<Rightarrow> (False, s1)
    | Some _ \<Rightarrow> (let (now, s') = now_utc E s1 in (ea_is_debouncing now acc, s')))"
  have inv2: "wake_inv (snd p)" and acc2: "map_of (sd_counters (snd p)) pid = Some acc"
    using inv1 by (auto simp: p_def now_utc_def s1_def split: option.splits)
  obtain r s3 where g: "db_get E pid (snd p) = (r, s3)" by (cases "db_get E pid (snd p)")
  have inv3: "wake_inv s3" using db_get_pair [OF g] inv2 by simp
  have acc3: "map_of (sd_counters s3) pid = Some acc" using db_get_counters [OF g] acc2 by simp
  have "wake_inv (start_debounce E pid secs acc s3)" "wake_inv (fire_schedule E pid (reset_counter pid s3))" for secs
    by (rule start_debounce_inv [OF inv3 acc3], rule fire_inv [OF reset_counter_inv [OF inv3]])
  with inv1 inv2 inv3 show ?thesis
    unfolding handle_event_received_def Some option.case ea_increment_def acc_def [symmetric] Let_def case_prod_conv
      s1_def [symmetric] p_def [unfolded Let_def, symmetric]
    by (auto simp: case_prod_beta g split: sum.splits option.splits schedule_trigger.splits)
qed

lemma debounce_completed_inv:
  assumes "wake_inv s"
  shows "wake_inv (handle_debounce_completed E pid s)"
proof (cases "map_of (sd_counters s) pid")
  case None
  with assms show ?thesis by (simp add: handle_debounce_completed_def)
next
  case (Some acc)
  have "wake_inv (s\<lparr>sd_counters := al_insert pid (acc\<lparr>ea_debounce_until := None\<rparr>) (sd_counters s)\<rparr>)"
    by (rule wake_inv_counters [OF assms owned_insert_same [OF Some]]) simp
  with Some fire_inv [OF reset_counter_inv [OF assms]] show ?thesis by (simp add: handle_debounce_completed_def)
qed

lemma deadline_inv: "handles_ok s \<Longrightarrow> wake_inv (handle_deadline_reached E pid s)"
  by (simp add: handle_deadline_reached_def fire_inv reschedule_wake_inv)

lemma trigger_inv: "handles_ok s \<Longrightarrow> wake_inv (handle_trigger_now E pid s)"
  by (simp add: handle_trigger_now_def fire_inv reschedule_wake_inv)

lemma add_inv: "wake_inv s \<Longrightarrow> wake_inv (snd (handle_add_schedule E sch s))"
  by (auto simp: handle_add_schedule_def dest!: db_call_pair intro!: enqueue_inv split: prod.splits sum.splits)

lemma remove_inv:
  assumes "wake_inv s"
  shows "wake_inv (snd (handle_remove_schedule E pid s))"
proof -
  let ?s = "s\<lparr>sd_queue := dq_remove pid (sd_queue s), sd_counters := al_remove pid (sd_counters s)\<rparr>"
  have "owned ?s \<subseteq> owned s" by (auto simp: owned_def al_remove_def)
  then have "handles_ok ?s" by (rule handles_subset [OF wake_inv_handles [OF assms]]) simp_all
  then show ?thesis using assms by (simp add: handle_remove_schedule_def reschedule_wake_inv)
qed

lemma pause_inv: "wake_inv s \<Longrightarrow> wake_inv (handle_pause_schedule E pid s)"
proof -
  assume inv: "wake_inv s"
  have "handles_ok (reset_counter pid (t\<lparr>sd_queue := q\<rparr>))" if "wake_inv t" for t q
  proof -
    have "handles_ok (reset_counter pid (t\<lparr>sd_queue := q, sd_stopped := True\<rparr>))"
      by (rule wake_inv_handles [OF reset_counter_inv [OF wake_inv_stopped]]) (simp add: wake_inv_handles [OF that])
    moreover have "reset_counter pid (t\<lparr>sd_queue := q, sd_stopped := True\<rparr>) = (reset_counter pid (t\<lparr>sd_queue := q\<rparr>))\<lparr>sd_stopped := True\<rparr>"
      by (simp add: reset_counter_def ea_reset_def abort_opt_def abort_timer_def split: option.splits)
    ultimately show ?thesis by simp
  qed
  with inv show ?thesis
    by (auto simp: handle_pause_schedule_def Let_def dest!: db_cas_pair intro!: reschedule_wake_inv split: prod.splits if_splits)
qed

lemma resume_inv: "wake_inv s \<Longrightarrow> wake_inv (handle_resume_schedule E pid s)"
  by (auto simp: handle_resume_schedule_def now_utc_def Let_def dest!: db_cas_pair db_get_pair intro!: enqueue_inv
      split: prod.splits sum.splits option.splits schedule_trigger.splits)

lemma fold_inv: "(\<And>x s. wake_inv s \<Longrightarrow> wake_inv (f x s)) \<Longrightarrow> wake_inv s \<Longrightarrow> wake_inv (fold f xs s)"
  by (induction xs arbitrary: s) auto

lemma offer_inv: "wake_inv s \<Longrightarrow> wake_inv (offer_event E session name pid s)"
  by (auto simp: offer_event_def dest!: db_get_pair intro!: event_received_inv
      split: prod.splits sum.splits option.splits schedule_trigger.splits)

lemma process_event_inv: "wake_inv s \<Longrightarrow> wake_inv (process_event E session ev s)"
  by (cases ev) (auto simp: process_event_def completed_inv failed_inv intro!: fold_inv offer_inv)

lemma reconcile_inv: "wake_inv s \<Longrightarrow> wake_inv (reconcile E s)"
proof -
  assume inv: "wake_inv s"
  have "wake_inv (recover_stale E sch t)" "wake_inv (fire_overdue E now sch t)" if "wake_inv t" for t sch now
    using that by (auto simp: recover_stale_def fire_overdue_def intro!: failed_inv fire_inv split: option.splits)
  note folds = fold_inv [of "recover_stale E", OF this(1)] fold_inv [of "fire_overdue E now" for now, OF this(2)]
  show ?thesis using inv
    by (auto simp: reconcile_def now_utc_def Let_def folds dest!: db_call_pair split: prod.splits sum.splits)
qed

lemma initialize_inv:
  assumes "wake_inv s"
  shows "wake_inv (snd (initialize E s))"
proof -
  have "wake_inv (rebuild_queues E t)" "wake_inv (recover_stale_running E t)" if "wake_inv t" for t
    using that by (auto simp: rebuild_queues_def recover_stale_running_def now_utc_def Let_def
        dest!: db_call_pair intro!: fold_inv enqueue_inv failed_inv split: prod.splits sum.splits)
  with assms show ?thesis
    by (auto simp: initialize_def now_utc_def Let_def dest!: db_call_pair split: prod.splits sum.splits bool.splits)
qed

lemma wake_inv_mailbox: "wake_inv s \<Longrightarrow> wake_inv (s\<lparr>sd_mailbox := sd_mailbox s @ ms\<rparr>)"
  by (auto simp: wake_inv_def head_ok_def)

lemma wake_inv_pop:
  assumes "wake_inv s" "sd_mailbox s = m # ms" "\<nexists>pid. m = DeadlineReached pid"
  shows "wake_inv (s\<lparr>sd_mailbox := ms\<rparr>)"
  using assms by (auto simp: wake_inv_def head_ok_def)

lemma shutdown_inv: "wake_inv s \<Longrightarrow> wake_inv (handle_shutdown E s)"
proof -
  assume inv: "wake_inv s"
  then have "handles_ok (abort_opt (sd_wake s) s)"
    by (auto simp: abort_opt_def wake_inv_def intro: abort_handles split: option.splits)
  then have "handles_ok ((abort_opt (sd_wake s) s)\<lparr>sd_wake := None\<rparr>)"
    by (auto simp: handles_ok_def owned_def)
  then show ?thesis
    by (simp add: handle_shutdown_def Let_def case_prod_beta wake_inv_stopped)
qed

lemma handle_message_inv:
  assumes "wake_inv s" "sd_mailbox s = m # ms"
  shows "wake_inv (handle_message E m (s\<lparr>sd_mailbox := ms\<rparr>))"
proof (cases "\<exists>pid. m = DeadlineReached pid")
  case True
  with wake_inv_handles [OF assms(1)] show ?thesis by (auto simp: handle_message_def deadline_inv)
next
  case False
  have inv: "wake_inv (s\<lparr>sd_mailbox := ms\<rparr>)" by (rule wake_inv_pop [OF assms False])
  then show ?thesis using False wake_inv_handles [OF inv]
    by (cases m) (simp_all add: handle_message_def process_event_inv reconcile_inv completed_inv failed_inv
      debounce_completed_inv trigger_inv add_inv remove_inv pause_inv resume_inv shutdown_inv reschedule_wake_inv
      handle_list_schedules_def Let_def case_prod_beta)
qed

lemma timer_inv:
  assumes "wake_inv s" "(i, d, m) \<in> set (sd_timers s)"
  shows "wake_inv ((abort_timer i s)\<lparr>sd_mailbox := sd_mailbox s @ [m]\<rparr>)"
proof -
  have dist: "distinct (map fst (sd_timers s))" using assms(1) by (simp add: wake_inv_def handles_ok_def)
  have m: "m' = m" if "(i, d', m') \<in> set (sd_timers s)" for d' m'
    using eq_key_imp_eq_value [OF dist that assms(2)] by simp
  show ?thesis using assms
    by (auto simp: wake_inv_def abort_handles head_ok_def) (auto simp: abort_timer_def dest: m)
qed

lemma sched_step_inv: "sched_step E s s' \<Longrightarrow> wake_inv s \<Longrightarrow> wake_inv s'"
proof (induction rule: sched_step.induct)
  case (handle s m ms)
  then show ?case by (simp add: handle_message_inv)
next
  case (timer i d m s)
  then show ?case by (simp add: timer_inv)
next
  case (send s m)
  then show ?case by (rule wake_inv_mailbox)
next
  case (renew s)
  then show ?case
    by (auto simp: lease_renewal_tick_def now_utc_def Let_def dest!: db_call_pair intro!: wake_inv_mailbox
        split: prod.splits sum.splits bool.splits)
next
  case (other_node s l)
  then show ?case by simp
qed

lemma sched_reach_inv: "sched_reach E s \<Longrightarrow> wake_inv s"
proof (induction rule: sched_reach.induct)
  case (start owner ttl db s)
  have "wake_inv (scheduler_new owner ttl db)"
    by (simp add: wake_inv_def head_ok_def handles_ok_def scheduler_new_def owned_def)
  from initialize_inv [OF this, of E] start show ?case by simp
next
  case (step s s')
  then show ?case by (blast intro: sched_step_inv)
qed

text \<open>C5: The scheduler never loses its earliest deadline. In every state reachable from a successful
  initialization, whatever messages, timers, database failures and other nodes did before, a running scheduler that has
  its self reference and a non-empty deadline queue either has a pending wake timer for the schedule at the head of the
  queue, where the head is an entry with the least deadline, or that schedule's deadline message is already in
  its mailbox.\<close>

theorem wake_targets_earliest:
  assumes "sched_reach E s" "sd_self_ref s" "\<not> sd_stopped s" "e \<in> set (sd_queue s)"
  shows "\<exists>t pid. dq_peek (sd_queue s) = Some (t, pid) \<and> (t, pid) \<in> set (sd_queue s) \<and> t \<le> fst e \<and>
    ((\<exists>w d. sd_wake s = Some w \<and> (w, d, DeadlineReached pid) \<in> set (sd_timers s)) \<or>
     DeadlineReached pid \<in> set (sd_mailbox s))"
proof -
  obtain t pid where p: "dq_peek (sd_queue s) = Some (t, pid)"
    using dq.peek_empty [of "sd_queue s"] assms(4) by (cases "dq_peek (sd_queue s)") auto
  have "(t, pid) \<in> set (sd_queue s)" using dq.peek_in [OF p] by simp
  moreover have "t \<le> fst e" using dq.peek_earliest [OF p, of "fst e" "snd e"] assms(4) by simp
  moreover have "head_ok s" using sched_reach_inv [OF assms(1)] by (simp add: wake_inv_def)
  ultimately show ?thesis using p assms(2,3) by (auto simp: head_ok_def)
qed

section \<open>A small run\<close>

definition demo_scheduler_env :: scheduler_env where
  "demo_scheduler_env = \<lparr>sv_codec = demo_codec, sv_rnd = (\<lambda>x. x), sv_now = (\<lambda>n. 0), sv_fault = (\<lambda>_. None),
     sv_registered = (\<lambda>_ _. True), sv_get_task = (\<lambda>_ _. Inr None), sv_tell = (\<lambda>_ _. None), sv_uuid = (\<lambda>_. ''u''),
     sv_hash_order = (\<lambda>xs. xs)\<rparr>"

definition demo_started :: scheduler where
  "demo_started = snd (initialize demo_scheduler_env (scheduler_new ''a'' 120 demo_schedule_db))"

lemma demo_schedule_simps [simp]:
  "s_public_id demo_schedule = ''s1''" "s_trigger demo_schedule = Interval 60" "s_state demo_schedule = Armed"
  "s_next_run_at demo_schedule = Some (seconds_ns 60)" "s_config demo_schedule = default_schedule_config"
  "s_session_public_id demo_schedule = ''session''"
  by (simp_all add: demo_schedule_def schedule_new_def)

lemma demo_row_simps [simp]:
  "r_public_id (schedule_to_row demo_codec 1 ''interval 60'' ''default'' demo_schedule) = ''s1''"
  "r_state (schedule_to_row demo_codec 1 ''interval 60'' ''default'' demo_schedule) = ''armed''"
  by (simp_all add: schedule_to_row_def)

lemma demo_initialize:
  "initialize demo_scheduler_env (scheduler_new ''a'' 120 demo_schedule_db) = (True, demo_started)"
  "sd_queue demo_started = [(as_i64 (seconds_ns 60), ''s1'')]" "sd_mailbox demo_started = []"
  "sd_self_ref demo_started = False" "sd_stopped demo_started = False" "sd_wake demo_started = None"
  by (simp_all add: demo_started_def initialize_def scheduler_new_def now_utc_def db_call_def demo_scheduler_env_def
      try_acquire_scheduler_lease_def demo_schedule_db_def recover_stale_running_def rebuild_queues_def
      list_running_schedules_older_than_def list_all_armed_schedules_def lift_sql_def demo_row enqueue_schedule_def
      set_gauges_def reschedule_wake_def dq_insert_def abort_opt_def)

lemma demo_awake:
  "sched_reach demo_scheduler_env (reschedule_wake demo_scheduler_env (demo_started\<lparr>sd_self_ref := True\<rparr>))"
proof -
  let ?E = demo_scheduler_env
  have "sched_reach ?E demo_started" by (rule sched_reach.start [OF demo_initialize(1)])
  then have r: "sched_reach ?E (demo_started\<lparr>sd_mailbox := [SetSelfRef]\<rparr>)"
    using sched_step.send [of ?E demo_started SetSelfRef] by (auto simp: demo_initialize intro: sched_reach.step)
  have "sched_step ?E (demo_started\<lparr>sd_mailbox := [SetSelfRef]\<rparr>)
      (handle_message ?E SetSelfRef (demo_started\<lparr>sd_mailbox := []\<rparr>))"
    using sched_step.handle [of "demo_started\<lparr>sd_mailbox := [SetSelfRef]\<rparr>" SetSelfRef "[]" ?E] by (simp add: demo_initialize)
  moreover have "demo_started\<lparr>sd_mailbox := []\<rparr> = demo_started"
    using demo_initialize(3) by (cases demo_started) simp
  ultimately show ?thesis using sched_reach.step [OF r] by (simp add: handle_message_def)
qed

theorem wake_targets_earliest_witness:
  "\<exists>s t pid. sched_reach demo_scheduler_env s \<and> sd_self_ref s \<and> dq_peek (sd_queue s) = Some (t, pid) \<and>
    ((\<exists>w d. sd_wake s = Some w \<and> (w, d, DeadlineReached pid) \<in> set (sd_timers s)) \<or>
     DeadlineReached pid \<in> set (sd_mailbox s))"
proof -
  let ?s = "reschedule_wake demo_scheduler_env (demo_started\<lparr>sd_self_ref := True\<rparr>)"
  have "sd_self_ref ?s" "\<not> sd_stopped ?s" "(as_i64 (seconds_ns 60), ''s1'') \<in> set (sd_queue ?s)"
    by (simp_all add: reschedule_wake_def demo_initialize abort_opt_def dq_peek_def now_utc_def spawn_timer_def)
  from wake_targets_earliest [OF demo_awake this] demo_awake this(1) show ?thesis by blast
qed

section \<open>Terminal events are applied once\<close>

text \<open>Which operations leave the set of processed terminal events alone.\<close>

lemma processed_prim [simp]:
  "sd_processed (snd (now_utc E s)) = sd_processed s"
  "sd_processed (snd (db_call E f s)) = sd_processed s"
  "sd_processed (publish x e s) = sd_processed s"
  "sd_processed (abort_opt h s) = sd_processed s"
  "sd_processed (abort_timer i s) = sd_processed s"
  "sd_processed (snd (spawn_timer d m s)) = sd_processed s"
  "sd_processed (set_gauges s) = sd_processed s"
  by (simp_all add: now_utc_def db_call_def publish_def abort_opt_def abort_timer_def spawn_timer_def set_gauges_def
      Let_def split: option.splits prod.splits)

lemma processed_db [simp]:
  "sd_processed (snd (db_get E pid s)) = sd_processed s" "sd_processed (db_update E sch s) = sd_processed s"
  "sd_processed (snd (db_cas E pid st st' s)) = sd_processed s"
  by (simp_all add: db_get_def db_update_def db_cas_def case_prod_beta)

lemma processed_ops [simp]:
  "sd_processed (reschedule_wake E s) = sd_processed s"
  "sd_processed (end_cycle E pid s) = sd_processed s"
  "sd_processed (run_pending_delete E pid s) = sd_processed s"
  "sd_processed (reset_counter pid s) = sd_processed s"
  "sd_processed (start_debounce E pid secs acc s) = sd_processed s"
  "sd_processed (start_cycle E pid sch s) = sd_processed s"
  by (simp_all add: reschedule_wake_def end_cycle_def run_pending_delete_def reset_counter_def start_debounce_def
      start_cycle_def Let_def case_prod_beta ea_reset_def split: option.splits)

lemma processed_enqueue [simp]: "sd_processed (enqueue_schedule E sch s) = sd_processed s"
  by (simp add: enqueue_schedule_def split: schedule_trigger.splits option.splits)

lemma processed_settle [simp]:
  "sd_processed (settle_completed E sch s) = sd_processed s" "sd_processed (settle_failed E sch s) = sd_processed s"
  by (simp_all add: settle_completed_def settle_failed_def Let_def case_prod_beta split: schedule_trigger.splits)

lemma processed_pair:
  "db_get E pid s = (r, s') \<Longrightarrow> sd_processed s' = sd_processed s"
  "db_cas E pid st st' s = (b, s') \<Longrightarrow> sd_processed s' = sd_processed s"
  "db_call E f s = (q, s') \<Longrightarrow> sd_processed s' = sd_processed s"
  "now_utc E s = (n, s') \<Longrightarrow> sd_processed s' = sd_processed s"
  using processed_db(1) [of E pid s] processed_db(3) [of E pid st st' s] processed_prim(1) [of E s]
    processed_prim(2) [of E f s]
  by simp_all

lemma db_get_cases:
  assumes "P (snd (db_get E pid s))" "\<And>sch s3. P s3 \<Longrightarrow> s3 = snd (db_get E pid s) \<Longrightarrow> P (F sch s3)"
  shows "P (case db_get E pid s of (Inr (Some sch), s3) \<Rightarrow> F sch s3 | (Inr None, s3) \<Rightarrow> s3 | (Inl _, s3) \<Rightarrow> s3)"
proof -
  obtain r s3 where g: "db_get E pid s = (r, s3)" by (cases "db_get E pid s")
  with assms(1) have "P s3" by simp
  moreover from g have "P (F sch s3)" for sch using assms by simp
  ultimately show ?thesis unfolding g by (cases r) (simp_all split: option.splits)
qed

lemma processed_terminal:
  "sd_processed (handle_cycle_completed E pid turn s) = insert (pid, Some turn) (sd_processed s)"
  "sd_processed (handle_cycle_failed_inner E pid tn err s) = insert (pid, tn) (sd_processed s)"
proof -
  show "sd_processed (handle_cycle_completed E pid turn s) = insert (pid, Some turn) (sd_processed s)"
    unfolding handle_cycle_completed_def Let_def
    by (cases "(pid, Some turn) \<in> sd_processed s")
       (simp add: drop_duplicate_def insert_absorb,
        simp, rule db_get_cases [where P = "\<lambda>x. sd_processed x = insert (pid, Some turn) (sd_processed s)"], simp_all)
  show "sd_processed (handle_cycle_failed_inner E pid tn err s) = insert (pid, tn) (sd_processed s)"
    unfolding handle_cycle_failed_inner_def Let_def
    by (cases "(pid, tn) \<in> sd_processed s")
       (simp add: drop_duplicate_def insert_absorb,
        simp, rule db_get_cases [where P = "\<lambda>x. sd_processed x = insert (pid, tn) (sd_processed s)"], simp_all)
qed

lemma processed_fire:
  assumes "k \<in> sd_processed s"
  shows "k \<in> sd_processed (fire_schedule E pid s)"
proof -
  obtain r s1 where cas: "db_cas E pid Armed Running s = (r, s1)" by (cases "db_cas E pid Armed Running s")
  then have "k \<in> sd_processed s1" using assms processed_pair(2) [OF cas] by simp
  then show ?thesis
    unfolding fire_schedule_def cas
    by (cases r) (auto simp: processed_terminal Let_def
      intro!: db_get_cases [where P = "\<lambda>x. k \<in> sd_processed x"] split: bool.splits option.splits)
qed

lemma processed_event:
  assumes "k \<in> sd_processed s"
  shows "k \<in> sd_processed (handle_event_received E pid s)"
proof (cases "map_of (sd_counters s) pid")
  case None
  with assms show ?thesis by (simp add: handle_event_received_def)
next
  case (Some acc0)
  define p where "p acc s1 = (case ea_debounce_until acc of None \<Rightarrow> (False, s1)
    | Some _ \<Rightarrow> (let (now, s') = now_utc E s1 in (ea_is_debouncing now acc, s')))" for acc s1
  have p: "sd_processed (snd (p acc s1)) = sd_processed s1" for acc s1
    by (simp add: p_def now_utc_def split: option.splits)
  have "k \<in> sd_processed (case db_get E pid t of
      (Inr (Some sch), s3) \<Rightarrow>
        (case s_trigger sch of
           EventDriven _ secs \<Rightarrow> (if 0 < secs then start_debounce E pid secs acc s3 else fire_schedule E pid (reset_counter pid s3))
         | Interval _ \<Rightarrow> s3 | OnceAt _ \<Rightarrow> s3)
    | (Inr None, s3) \<Rightarrow> s3 | (Inl _, s3) \<Rightarrow> s3)" if "k \<in> sd_processed t" for t acc
    using that by (intro db_get_cases [where P = "\<lambda>x. k \<in> sd_processed x"])
      (auto intro!: processed_fire split: schedule_trigger.splits)
  with assms Some show ?thesis
    unfolding handle_event_received_def p_def [symmetric]
    by (simp add: Let_def case_prod_beta p)
qed

lemma fold_processed:
  "(\<And>x s. k \<in> sd_processed s \<Longrightarrow> k \<in> sd_processed (f x s)) \<Longrightarrow> k \<in> sd_processed s \<Longrightarrow> k \<in> sd_processed (fold f xs s)"
  by (induction xs arbitrary: s) auto

lemma processed_offer: "k \<in> sd_processed s \<Longrightarrow> k \<in> sd_processed (offer_event E session name pid s)"
  by (auto simp: offer_event_def intro!: processed_event dest!: processed_pair
      split: prod.splits sum.splits option.splits schedule_trigger.splits)

lemma processed_recover: "k \<in> sd_processed s \<Longrightarrow> k \<in> sd_processed (recover_stale E sch s)"
  by (simp add: recover_stale_def processed_terminal)

lemma processed_overdue: "k \<in> sd_processed s \<Longrightarrow> k \<in> sd_processed (fire_overdue E now sch s)"
  by (auto simp: fire_overdue_def intro!: processed_fire split: option.splits)

lemma processed_reconcile: "k \<in> sd_processed s \<Longrightarrow> k \<in> sd_processed (reconcile E s)"
  by (auto simp: reconcile_def Let_def intro!: fold_processed [of k "recover_stale E"] fold_processed [of k "fire_overdue E now" for now]
      processed_recover processed_overdue dest!: processed_pair split: prod.splits sum.splits)

lemma processed_admin:
  assumes "k \<in> sd_processed s"
  shows "k \<in> sd_processed (snd (handle_add_schedule E sch s))"
    "k \<in> sd_processed (snd (handle_remove_schedule E pid s))"
    "k \<in> sd_processed (handle_pause_schedule E pid s)"
    "k \<in> sd_processed (handle_resume_schedule E pid s)"
    "k \<in> sd_processed (snd (handle_list_schedules E session s))"
    "k \<in> sd_processed (handle_shutdown E s)"
    "k \<in> sd_processed (handle_debounce_completed E pid s)"
proof -
  show "k \<in> sd_processed (snd (handle_add_schedule E sch s))"
    using assms by (auto simp: handle_add_schedule_def dest!: processed_pair split: prod.splits sum.splits)
  show "k \<in> sd_processed (snd (handle_remove_schedule E pid s))"
    using assms by (simp add: handle_remove_schedule_def Let_def)
  show "k \<in> sd_processed (handle_pause_schedule E pid s)"
    using assms by (simp add: handle_pause_schedule_def Let_def case_prod_beta)
  have "k \<in> sd_processed (snd (db_cas E pid Paused Armed s))" using assms by simp
  then show "k \<in> sd_processed (handle_resume_schedule E pid s)"
    unfolding handle_resume_schedule_def Let_def case_prod_beta [of _ "db_cas E pid Paused Armed s"]
    by (auto simp: case_prod_beta [of _ "now_utc _ _"] intro!: db_get_cases [where P = "\<lambda>x. k \<in> sd_processed x"] split: schedule_trigger.splits)
  show "k \<in> sd_processed (snd (handle_list_schedules E session s))"
    using assms by (simp add: handle_list_schedules_def Let_def case_prod_beta)
  show "k \<in> sd_processed (handle_shutdown E s)"
    using assms by (simp add: handle_shutdown_def Let_def case_prod_beta)
  show "k \<in> sd_processed (handle_debounce_completed E pid s)"
    using assms by (auto simp: handle_debounce_completed_def intro!: processed_fire split: option.splits)
qed

lemma processed_message: "k \<in> sd_processed s \<Longrightarrow> k \<in> sd_processed (handle_message E m s)"
proof (cases m)
  case (ProcessEvent session ev)
  then show "k \<in> sd_processed s \<Longrightarrow> ?thesis"
    by (cases ev) (auto simp: handle_message_def process_event_def processed_terminal intro!: fold_processed processed_offer)
qed (simp_all add: handle_message_def handle_deadline_reached_def handle_trigger_now_def processed_admin
    processed_terminal processed_reconcile processed_fire)

lemma processed_renewal: "sd_processed (lease_renewal_tick E s) = sd_processed s"
proof -
  obtain now s1 where n: "now_utc E s = (now, s1)" by (cases "now_utc E s")
  define f :: "schedule_db \<Rightarrow> (session_error + bool) \<times> schedule_db" where
    "f db = map_prod Inr id (renew_scheduler_lease (sv_codec E) now (sd_owner_id s) (sd_lease_ttl_secs s) db)"
    for db :: schedule_db
  obtain r s2 where c: "db_call E f s1 = (r, s2)" by (cases "db_call E f s1")
  have "sd_processed s2 = sd_processed s" using processed_pair(4) [OF n] processed_pair(3) [OF c] by simp
  moreover have "lease_renewal_tick E s = (case r of Inr False \<Rightarrow> s2\<lparr>sd_mailbox := sd_mailbox s2 @ [Shutdown]\<rparr> | _ \<Rightarrow> s2)"
    unfolding lease_renewal_tick_def n Let_def case_prod_conv f_def [abs_def, symmetric] c
    by (simp split: sum.splits bool.splits)
  ultimately show ?thesis by (simp split: sum.splits bool.splits)
qed

lemma processed_step: "sched_step E s s' \<Longrightarrow> k \<in> sd_processed s \<Longrightarrow> k \<in> sd_processed s'"
  by (induction rule: sched_step.induct) (simp_all add: processed_message processed_renewal)

lemma processed_steps: "(sched_step E)\<^sup>*\<^sup>* s s' \<Longrightarrow> k \<in> sd_processed s \<Longrightarrow> k \<in> sd_processed s'"
  by (induction rule: rtranclp_induct) (auto intro: processed_step)

text \<open>C7: A terminal event is applied at most once. After the actor has handled the completion or the failure of a
  turn, in every later state a redelivery of an event with the same schedule and turn changes nothing but the
  counter of dropped duplicates: not the database, the queues, the active cycles, the timers or the published
  events.\<close>

theorem terminal_applied_once:
  assumes "m = CycleCompleted pid turn \<and> tn = Some turn \<or> m = CycleFailed pid tn err"
    and "(sched_step E)\<^sup>*\<^sup>* (handle_message E m s) s'"
  shows "handle_message E (CycleFailed pid tn err') s' = drop_duplicate s' \<and>
    (case tn of Some t \<Rightarrow> handle_message E (CycleCompleted pid t) s' = drop_duplicate s' | None \<Rightarrow> True)"
proof -
  have "(pid, tn) \<in> sd_processed (handle_message E m s)"
    using assms(1) by (auto simp: handle_message_def processed_terminal)
  from processed_steps [OF assms(2) this] show ?thesis
    by (cases tn) (simp_all add: handle_message_def handle_cycle_completed_def handle_cycle_failed_inner_def)
qed

theorem terminal_applied_once_witness:
  "handle_message demo_scheduler_env (CycleCompleted ''s1'' ''turn'')
      (handle_message demo_scheduler_env (CycleCompleted ''s1'' ''turn'') demo_started) =
    drop_duplicate (handle_message demo_scheduler_env (CycleCompleted ''s1'' ''turn'') demo_started)"
  using terminal_applied_once [of "CycleCompleted ''s1'' ''turn''" "''s1''" "''turn''" "Some ''turn''" "[]"
      demo_scheduler_env demo_started]
  by simp

section \<open>Failures without a turn\<close>

text \<open>C40: A timeout, a missing session and a stale cycle are reported as failures without a turn, and all of them
  share one key. After the first such failure of a schedule, a cycle of that schedule that later times out is never
  ended: in every later state in which the schedule is running, the timeout message leaves the database, the
  active cycles and the published events as they are, and the recovery of stale cycles does too.\<close>

theorem second_timeout_ignored:
  assumes "(sched_step E)\<^sup>*\<^sup>* (handle_message E (CycleFailed pid None err) s) s'"
    and "s_public_id sch = pid"
  shows "let s1 = handle_message E (CycleFailed pid None err') s'; s2 = recover_stale E sch s' in
    sd_db s1 = sd_db s' \<and> sd_active s1 = sd_active s' \<and> sd_events s1 = sd_events s' \<and>
    sd_db s2 = sd_db s' \<and> sd_active s2 = sd_active s' \<and> sd_events s2 = sd_events s'"
proof -
  have "(pid, None) \<in> sd_processed (handle_message E (CycleFailed pid None err) s)"
    by (simp add: handle_message_def processed_terminal)
  from processed_steps [OF assms(1) this] assms(2) show ?thesis
    by (simp add: handle_message_def handle_cycle_failed_inner_def drop_duplicate_def recover_stale_def Let_def)
qed

theorem second_timeout_ignored_witness:
  "\<exists>s1. s1 = handle_message demo_scheduler_env (CycleFailed ''s1'' None ''timeout'') demo_started \<and>
    sd_db (handle_message demo_scheduler_env (CycleFailed ''s1'' None ''timeout'') s1) = sd_db s1"
  using second_timeout_ignored [of demo_scheduler_env "''s1''" "''timeout''" demo_started _ demo_schedule "''timeout''"]
  by (simp add: Let_def)

section \<open>Firing\<close>

definition rows_in_state :: "string \<Rightarrow> schedule_state \<Rightarrow> schedule_db \<Rightarrow> bool" where
  "rows_in_state pid st db = ((\<exists>r \<in> set (d_schedules db). r_public_id r = pid \<and> r_state r = schedule_state_display st) \<and>
     (\<forall>r \<in> set (d_schedules db). r_public_id r = pid \<longrightarrow> r_state r = schedule_state_display st))"

lemma cas_rows:
  assumes "distinct (map r_public_id (d_schedules db))" "update_schedule_state C now pid st st' db = (True, db')"
  shows "rows_in_state pid st db" "rows_in_state pid st' db'"
proof -
  let ?hit = "\<lambda>r. r_public_id r = pid \<and> r_state r = schedule_state_display st"
  have "filter ?hit (d_schedules db) \<noteq> []" using assms(2) by (auto simp: update_schedule_state_def)
  then obtain r where r: "r \<in> set (d_schedules db)" "?hit r" by (auto simp: filter_empty_conv)
  moreover have uniq: "q = r" if "q \<in> set (d_schedules db)" "r_public_id q = pid" for q
    using that r assms(1) by (auto simp: distinct_map inj_on_def)
  ultimately show "rows_in_state pid st db" by (auto simp: rows_in_state_def dest: uniq)
  define g where "g q = (if ?hit q then q\<lparr>r_state := schedule_state_display st', r_updated_at := dc_format C now\<rparr> else q)"
    for q :: schedule_row
  have db': "d_schedules db' = map g (d_schedules db)"
    using assms(2) by (auto simp: update_schedule_state_def g_def [abs_def])
  have "g r \<in> set (d_schedules db')" "r_public_id (g r) = pid" "r_state (g r) = schedule_state_display st'"
    using r by (simp_all add: db' g_def)
  moreover have "r_state q = schedule_state_display st'" if "q \<in> set (d_schedules db')" "r_public_id q = pid" for q
  proof -
    from that(1) obtain q0 where q0: "q0 \<in> set (d_schedules db)" "q = g q0" by (auto simp: db')
    with that(2) have "r_public_id q0 = pid" by (simp add: g_def split: if_splits)
    with uniq q0 r show ?thesis by (simp add: g_def)
  qed
  ultimately show "rows_in_state pid st' db'" by (auto simp: rows_in_state_def)
qed

text \<open>The parts that firing reads and writes last.\<close>

lemma prompts_prim [simp]:
  "sd_prompts (snd (now_utc E s)) = sd_prompts s"
  "sd_prompts (snd (db_call E f s)) = sd_prompts s"
  "sd_prompts (publish x e s) = sd_prompts s"
  "sd_prompts (abort_opt h s) = sd_prompts s"
  "sd_prompts (abort_timer i s) = sd_prompts s"
  "sd_prompts (snd (spawn_timer d m s)) = sd_prompts s"
  "sd_prompts (set_gauges s) = sd_prompts s"
  by (simp_all add: now_utc_def db_call_def publish_def abort_opt_def abort_timer_def spawn_timer_def set_gauges_def
      Let_def split: option.splits prod.splits)

lemma prompts_db [simp]:
  "sd_prompts (snd (db_get E pid s)) = sd_prompts s" "sd_prompts (db_update E sch s) = sd_prompts s"
  "sd_prompts (snd (db_cas E pid st st' s)) = sd_prompts s"
  by (simp_all add: db_get_def db_update_def db_cas_def case_prod_beta)

lemma prompts_ops [simp]:
  "sd_prompts (reschedule_wake E s) = sd_prompts s"
  "sd_prompts (end_cycle E pid s) = sd_prompts s"
  "sd_prompts (run_pending_delete E pid s) = sd_prompts s"
  by (simp_all add: reschedule_wake_def end_cycle_def run_pending_delete_def Let_def case_prod_beta split: option.splits)

lemma prompts_settle [simp]: "sd_prompts (settle_failed E sch s) = sd_prompts s"
  by (simp add: settle_failed_def enqueue_schedule_def Let_def case_prod_beta split: schedule_trigger.splits option.splits)

lemma prompts_failed [simp]: "sd_prompts (handle_cycle_failed_inner E pid tn err s) = sd_prompts s"
  unfolding handle_cycle_failed_inner_def Let_def
  by (cases "(pid, tn) \<in> sd_processed s")
     (simp add: drop_duplicate_def, simp, rule db_get_cases [where P = "\<lambda>x. sd_prompts x = sd_prompts s"], simp_all)

lemma start_cycle_parts [simp]:
  "sd_prompts (start_cycle E pid sch s) = sd_prompts s" "sd_db (start_cycle E pid sch s) = sd_db s"
  "map_of (sd_active (start_cycle E pid sch s)) pid \<noteq> None"
  "sd_events (start_cycle E pid sch s) = sd_events s @ [(s_session_public_id sch, ScheduleFired pid (s_session_public_id sch))]"
  by (simp_all add: start_cycle_def now_utc_def spawn_timer_def publish_def Let_def case_prod_beta)

lemma db_get_db: "db_get E pid s = (r, s') \<Longrightarrow> sd_db s' = sd_db s \<and> sd_prompts s' = sd_prompts s"
  by (auto simp: db_get_def db_call_def Let_def split: option.splits)

lemma db_cas_true:
  assumes "db_cas E pid st st' s = (Inr True, s')"
  shows "\<exists>now. update_schedule_state (sv_codec E) now pid st st' (sd_db s) = (True, sd_db s')" "sd_prompts s' = sd_prompts s"
  using assms by (auto simp: db_cas_def now_utc_def db_call_def Let_def map_prod_def split: option.splits prod.splits)

text \<open>C6: Firing sends a prompt only after winning the compare-and-swap. When \<^verbatim>\<open>fire_schedule\<close> sends anything, it
  sends exactly one prompt, to the session of the schedule; the row of the schedule was armed before and is running
  afterwards, the cycle is active and the firing is published. So a schedule that is running, paused, exhausted or
  failed is never fired, and no two firings can follow each other without the row being armed again in between.\<close>

theorem fire_wins_cas:
  assumes "distinct (map r_public_id (d_schedules (sd_db s)))"
    and "sd_prompts (fire_schedule E pid s) \<noteq> sd_prompts s"
  shows "rows_in_state pid Armed (sd_db s) \<and> rows_in_state pid Running (sd_db (fire_schedule E pid s)) \<and>
    (\<exists>session prompt. sd_prompts (fire_schedule E pid s) = sd_prompts s @ [(session, prompt)] \<and>
       sp_schedule_public_id prompt = pid \<and>
       last (sd_events (fire_schedule E pid s)) = (session, ScheduleFired pid session)) \<and>
    map_of (sd_active (fire_schedule E pid s)) pid \<noteq> None"
proof -
  obtain r s1 where cas: "db_cas E pid Armed Running s = (r, s1)" by (cases "db_cas E pid Armed Running s")
  have p1: "sd_prompts s1 = sd_prompts s" using prompts_db(3) [of E pid Armed Running s] cas by simp
  have r: "r = Inr True"
  proof (rule ccontr)
    assume "r \<noteq> Inr True"
    then have "sd_prompts (fire_schedule E pid s) = sd_prompts s"
      unfolding fire_schedule_def cas using p1 by (cases r) (auto split: bool.splits)
    with assms(2) show False by simp
  qed
  obtain g s2 where g: "db_get E pid s1 = (g, s2)" by (cases "db_get E pid s1")
  note s2 = db_get_db [OF g]
  obtain sch where sch: "g = Inr (Some sch)"
  proof (cases g)
    case (Inr o')
    then show thesis using that assms(2) s2 p1 by (cases o') (auto simp: fire_schedule_def cas r g)
  qed (use assms(2) s2 p1 in \<open>auto simp: fire_schedule_def cas r g\<close>)
  have ok: "sv_registered E (sd_calls s2) (s_session_public_id sch)" "sv_tell E (sd_calls s2) (s_session_public_id sch) = None"
    using assms(2) s2 p1 by (auto simp: fire_schedule_def cas r g sch Let_def split: if_splits option.splits)
  obtain now where "update_schedule_state (sv_codec E) now pid Armed Running (sd_db s) = (True, sd_db s1)"
    using db_cas_true(1) cas r by blast
  note rows = cas_rows [OF assms(1) this]
  show ?thesis using ok s2 p1 rows by (simp add: fire_schedule_def cas r g sch Let_def)
qed

lemma demo_fire_prompts: "sd_prompts (fire_schedule demo_scheduler_env ''s1'' (scheduler_new ''a'' 120 demo_schedule_db)) \<noteq> []"
proof -
  let ?s = "scheduler_new ''a'' 120 demo_schedule_db"
  obtain ok db' where u: "update_schedule_state demo_codec 0 ''s1'' Armed Running demo_schedule_db = (ok, db')"
    by (cases "update_schedule_state demo_codec 0 ''s1'' Armed Running demo_schedule_db")
  note cas = abs_cas [OF demo_codec_ok demo_db_ok demo_epoch u]
  from cas(1) have ok: ok and abs: "abs_schedules demo_codec db' ''s1'' \<noteq> None"
    by (auto simp: spec_cas_def demo_abs)
  from abs get_schedule_abs [OF cas(2), of "''s1''"] obtain sch where "get_schedule demo_codec ''s1'' db' = Inr (Some sch)"
    by (cases "abs_schedules demo_codec db' ''s1''") auto
  with u ok show ?thesis
    by (simp add: fire_schedule_def db_cas_def db_get_def db_call_def now_utc_def demo_scheduler_env_def scheduler_new_def Let_def)
qed

theorem fire_wins_cas_witness:
  "rows_in_state ''s1'' Running (sd_db (fire_schedule demo_scheduler_env ''s1'' (scheduler_new ''a'' 120 demo_schedule_db)))"
proof -
  let ?s = "scheduler_new ''a'' 120 demo_schedule_db"
  have "distinct (map r_public_id (d_schedules (sd_db ?s)))"
    using demo_db_ok by (simp add: db_ok_def scheduler_new_def)
  moreover have "sd_prompts (fire_schedule demo_scheduler_env ''s1'' ?s) \<noteq> sd_prompts ?s"
    using demo_fire_prompts by (simp add: scheduler_new_def)
  ultimately show ?thesis using fire_wins_cas by blast
qed

section \<open>Completion\<close>

lemma no_fault_call:
  "sv_fault E = (\<lambda>_. None) \<Longrightarrow> db_call E f s = (fst (f (sd_db s)), s\<lparr>sd_calls := Suc (sd_calls s), sd_db := snd (f (sd_db s))\<rparr>)"
  by (simp add: db_call_def Let_def case_prod_beta)

lemma db_parts [simp]:
  "sd_db (snd (now_utc E s)) = sd_db s" "sd_db (publish x e s) = sd_db s" "sd_db (reschedule_wake E s) = sd_db s"
  "sd_db (end_cycle E pid s) = sd_db s" "sd_db (set_gauges s) = sd_db s"
  by (simp_all add: now_utc_def publish_def reschedule_wake_def end_cycle_def set_gauges_def abort_opt_def abort_timer_def
      spawn_timer_def Let_def case_prod_beta split: option.splits)

lemma enqueue_db [simp]: "sd_db (enqueue_schedule E sch s) = sd_db s"
  by (simp add: enqueue_schedule_def split: schedule_trigger.splits option.splits)

text \<open>What a completed cycle makes of a schedule, apart from its times.\<close>

definition after_completion :: "schedule \<Rightarrow> schedule \<Rightarrow> bool" where
  "after_completion old new = (s_run_count new = s_run_count old + 1 \<and> s_consecutive_failures new = 0 \<and>
     s_state new = (if is_exhausted new then Exhausted else Armed) \<and> s_trigger new = s_trigger old \<and>
     s_config new = s_config old \<and> (s_state new = Exhausted \<longrightarrow> s_next_run_at new = None) \<and>
     s_public_id new = s_public_id old \<and> s_task_public_id new = s_task_public_id old)"

lemma update_stored:
  assumes "codec_ok C" "db_ok C db" "times_ok s" "dc_trigger_to C (s_trigger s) = Inr tj" "dc_config_to C (s_config s) = Inr cj"
    "abs_schedules C db (s_public_id s) = Some old"
  shows "abs_schedules C (snd (update_schedule C s db)) = (abs_schedules C db)(s_public_id s \<mapsto> stored_update s old)"
  using abs_update [OF assms] by (cases "update_schedule C s db") auto

lemma pending_parts [simp]:
  "sd_pending_deletes (snd (now_utc E s)) = sd_pending_deletes s"
  "sd_pending_deletes (publish x e s) = sd_pending_deletes s"
  "sd_pending_deletes (reschedule_wake E s) = sd_pending_deletes s"
  "sd_pending_deletes (end_cycle E pid s) = sd_pending_deletes s"
  "sd_pending_deletes (set_gauges s) = sd_pending_deletes s"
  "sd_pending_deletes (snd (db_call E f s)) = sd_pending_deletes s"
  by (simp_all add: now_utc_def publish_def reschedule_wake_def end_cycle_def set_gauges_def abort_opt_def abort_timer_def
      spawn_timer_def db_call_def Let_def case_prod_beta split: option.splits)

lemma pending_settle [simp]: "sd_pending_deletes (settle_completed E sch s) = sd_pending_deletes s"
  by (simp add: settle_completed_def enqueue_schedule_def db_update_def Let_def case_prod_beta
      split: schedule_trigger.splits option.splits)

lemma settle_completed_updates:
  assumes "sv_fault E = (\<lambda>_. None)" "\<forall>n. rfc3339_range (sv_now E n)" "times_ok sch"
    and next_run: "\<forall>n secs. s_trigger sch = Interval secs \<longrightarrow>
      rfc3339_range (compute_next_run_at (sv_rnd E) secs (sc_jitter_percent (s_config sch)) (sv_now E n))"
  shows "\<exists>new. sd_db (settle_completed E sch s) = snd (update_schedule (sv_codec E) new (sd_db s)) \<and>
    times_ok new \<and> after_completion sch new \<and> stored_update new sch = new"
proof -
  define upd where "upd = sch\<lparr>s_run_count := s_run_count sch + 1, s_consecutive_failures := 0,
    s_last_run_at := Some (sv_now E (sd_clock s)), s_updated_at := sv_now E (Suc (sd_clock s))\<rparr>"
  define new where "new = (if is_exhausted upd then upd\<lparr>s_state := Exhausted, s_next_run_at := None\<rparr>
    else case s_trigger sch of
      Interval secs \<Rightarrow> upd\<lparr>s_state := Armed,
        s_next_run_at := Some (compute_next_run_at (sv_rnd E) secs (sc_jitter_percent (s_config sch)) (sv_now E (Suc (Suc (sd_clock s)))))\<rparr>
    | _ \<Rightarrow> upd\<lparr>s_state := Armed\<rparr>)"
  have "sd_db (settle_completed E sch s) = snd (update_schedule (sv_codec E) new (sd_db s))"
    unfolding settle_completed_def now_utc_def Let_def case_prod_conv
    by (simp add: upd_def [symmetric] new_def db_update_def no_fault_call [OF assms(1)] split: schedule_trigger.splits)
  moreover have "times_ok new"
    using assms(2,3) next_run by (auto simp: times_ok_def new_def upd_def split: schedule_trigger.splits)
  moreover have "after_completion sch new"
    by (auto simp: after_completion_def new_def upd_def is_exhausted_def split: schedule_trigger.splits option.splits if_splits)
  moreover have "stored_update new sch = new"
    by (simp add: stored_update_def new_def upd_def split: schedule_trigger.splits)
  ultimately show ?thesis by blast
qed

text \<open>C8: What a completed cycle does to its schedule, without database failures: the schedule, whatever its
  state, is replaced by one with one more run and no consecutive failures, which is exhausted if it has reached
  its maximal number of runs and armed otherwise; the other schedules are untouched. The state before is
  not looked at, so a schedule that was paused while its cycle ran is armed again when the cycle completes.\<close>

theorem completion_rearms:
  assumes "codec_ok (sv_codec E)" "db_ok (sv_codec E) (sd_db s)" "sv_fault E = (\<lambda>_. None)"
    and "\<forall>n. rfc3339_range (sv_now E n)" "times_ok sch"
    and "\<forall>n secs. s_trigger sch = Interval secs \<longrightarrow>
      rfc3339_range (compute_next_run_at (sv_rnd E) secs (sc_jitter_percent (s_config sch)) (sv_now E n))"
    and "dc_trigger_to (sv_codec E) (s_trigger sch) = Inr tj" "dc_config_to (sv_codec E) (s_config sch) = Inr cj"
    and "abs_schedules (sv_codec E) (sd_db s) pid = Some sch"
    and "(pid, Some turn) \<notin> sd_processed s" "pid \<notin> set (sd_pending_deletes s)"
  shows "\<exists>new. abs_schedules (sv_codec E) (sd_db (handle_cycle_completed E pid turn s)) =
      (abs_schedules (sv_codec E) (sd_db s))(pid \<mapsto> new) \<and> after_completion sch new"
proof -
  define s1 where "s1 = end_cycle E pid (s\<lparr>sd_processed := insert (pid, Some turn) (sd_processed s)\<rparr>)"
  define s2 where "s2 = s1\<lparr>sd_metrics := (sd_metrics s1)\<lparr>mt_completions_total := mt_completions_total (sd_metrics s1) + 1\<rparr>\<rparr>"
  have s2: "sd_db s2 = sd_db s" "sd_pending_deletes s2 = sd_pending_deletes s" by (simp_all add: s2_def s1_def)
  obtain s3 where g: "db_get E pid s2 = (Inr (Some sch), s3)" "sd_db s3 = sd_db s" "sd_pending_deletes s3 = sd_pending_deletes s"
    using get_schedule_abs [OF assms(2), of pid] assms(9) s2 by (simp add: db_get_def no_fault_call [OF assms(3)])
  obtain new where new: "sd_db (settle_completed E sch s3) = snd (update_schedule (sv_codec E) new (sd_db s))"
      "times_ok new" "after_completion sch new" "stored_update new sch = new"
    using settle_completed_updates [OF assms(3,4,5,6), of s3] g(2) by auto
  have pid: "s_public_id sch = pid" by (rule abs_schedules_Some [OF assms(2,9)])
  have "abs_schedules (sv_codec E) (snd (update_schedule (sv_codec E) new (sd_db s))) =
      (abs_schedules (sv_codec E) (sd_db s))(pid \<mapsto> new)"
    using update_stored [OF assms(1,2) new(2), of tj cj sch] new(3,4) assms(7,8,9) pid by (simp add: after_completion_def)
  moreover have "handle_cycle_completed E pid turn s =
      publish (s_session_public_id sch) (ScheduleCycleCompleted pid turn (s_run_count sch + 1))
        (run_pending_delete E pid (settle_completed E sch s3))"
    using assms(10) g(1) by (simp add: handle_cycle_completed_def s1_def [symmetric] s2_def [symmetric] Let_def)
  ultimately show ?thesis using new(1,3) g(3) assms(11) by (auto simp: run_pending_delete_def)
qed

text \<open>A schedule that is paused while its cycle runs.\<close>

definition demo_paused :: scheduler where
  "demo_paused = scheduler_new ''a'' 120 (snd (update_schedule_state demo_codec 0 ''s1'' Armed Paused demo_schedule_db))"

lemma demo_paused_abs:
  "db_ok demo_codec (sd_db demo_paused)"
  "abs_schedules demo_codec (sd_db demo_paused) ''s1'' = Some (demo_schedule\<lparr>s_id := 1, s_state := Paused, s_updated_at := 0\<rparr>)"
proof -
  obtain ok db' where u: "update_schedule_state demo_codec 0 ''s1'' Armed Paused demo_schedule_db = (ok, db')"
    by (cases "update_schedule_state demo_codec 0 ''s1'' Armed Paused demo_schedule_db")
  note cas = abs_cas [OF demo_codec_ok demo_db_ok demo_epoch u]
  have db: "sd_db demo_paused = db'" by (simp add: demo_paused_def scheduler_new_def u)
  show "db_ok demo_codec (sd_db demo_paused)" using cas(2) by (simp add: db)
  from cas(1) show "abs_schedules demo_codec (sd_db demo_paused) ''s1'' = Some (demo_schedule\<lparr>s_id := 1, s_state := Paused, s_updated_at := 0\<rparr>)"
    by (simp add: db spec_cas_def demo_abs)
qed

theorem completion_rearms_witness:
  "\<exists>new. abs_schedules demo_codec (sd_db (handle_cycle_completed demo_scheduler_env ''s1'' ''turn'' demo_paused)) ''s1'' = Some new \<and>
    s_state new = Armed"
proof -
  let ?E = demo_scheduler_env
  let ?sch = "demo_schedule\<lparr>s_id := 1, s_state := Paused, s_updated_at := 0\<rparr>"
  have C: "sv_codec ?E = demo_codec" by (simp add: demo_scheduler_env_def)
  have r: "rfc3339_range (compute_next_run_at (sv_rnd ?E) 60 (sc_jitter_percent default_schedule_config) (sv_now ?E n))" for n
  proof -
    have e: "f64_rounding (\<lambda>x. x)" by (simp add: f64_rounding_def mono_def)
    from jittered_interval_bounds [OF e, of 60 10 0] show ?thesis
      by (simp add: demo_scheduler_env_def compute_next_run_at_def default_schedule_config_def rfc3339_range_def seconds_ns_def)
  qed
  have "\<exists>new. abs_schedules (sv_codec ?E) (sd_db (handle_cycle_completed ?E ''s1'' ''turn'' demo_paused)) =
      (abs_schedules (sv_codec ?E) (sd_db demo_paused))(''s1'' \<mapsto> new) \<and> after_completion ?sch new"
  proof (rule completion_rearms)
    show "codec_ok (sv_codec ?E)" by (simp add: C demo_codec_ok)
    show "db_ok (sv_codec ?E) (sd_db demo_paused)" by (simp add: C demo_paused_abs)
    show "sv_fault ?E = (\<lambda>_. None)" "\<forall>n. rfc3339_range (sv_now ?E n)"
      by (simp_all add: demo_scheduler_env_def demo_epoch)
    show "times_ok ?sch" using demo_times_ok by (simp add: times_ok_def demo_epoch)
    show "abs_schedules (sv_codec ?E) (sd_db demo_paused) ''s1'' = Some ?sch" by (simp add: C demo_paused_abs)
    show "(''s1'', Some ''turn'') \<notin> sd_processed demo_paused" "''s1'' \<notin> set (sd_pending_deletes demo_paused)"
      by (simp_all add: demo_paused_def scheduler_new_def)
    show "dc_trigger_to (sv_codec ?E) (s_trigger ?sch) = Inr ''interval 60''" "dc_config_to (sv_codec ?E) (s_config ?sch) = Inr ''default''"
      by (simp_all add: C demo_codec_def)
    show "\<forall>n secs. s_trigger ?sch = Interval secs \<longrightarrow>
        rfc3339_range (compute_next_run_at (sv_rnd ?E) secs (sc_jitter_percent (s_config ?sch)) (sv_now ?E n))"
      using r by simp
  qed
  then show ?thesis by (auto simp: C after_completion_def is_exhausted_def default_schedule_config_def)
qed

end
