(* ===== verification/Rust_Strings.thy ===== *)
theory Rust_Strings
  imports Prelude
begin

text \<open>
  The operations of Rust's \<^verbatim>\<open>str\<close> that the tools use. A string is the list of its UTF-8 bytes, so that lengths and
  indices are byte counts as in the source. A slice whose bounds are out of range or not at a character
  boundary panics; the result is then \<open>None\<close>.
\<close>

definition LF :: char where "LF = CHR 0x0A"
definition CR :: char where "CR = CHR 0x0D"

definition is_continuation :: "char \<Rightarrow> bool" where
  "is_continuation c = (of_char c div 64 = (2 :: nat))"

definition is_char_boundary :: "string \<Rightarrow> nat \<Rightarrow> bool" where
  "is_char_boundary s i = (i = 0 \<or> i = length s \<or> i < length s \<and> \<not> is_continuation (s ! i))"

definition str_slice :: "string \<Rightarrow> nat \<Rightarrow> nat \<Rightarrow> string option" where
  "str_slice s a b =
    (if a \<le> b \<and> b \<le> length s \<and> is_char_boundary s a \<and> is_char_boundary s b then Some (take (b - a) (drop a s)) else None)"

section \<open>Lines\<close>

definition strip_cr :: "string \<Rightarrow> string" where
  "strip_cr l = (if l \<noteq> [] \<and> last l = CR then butlast l else l)"

lemma dropWhile_shorter: "dropWhile P s = x # rest \<Longrightarrow> length rest < length s"
  using length_dropWhile_le [of P s] by simp

text \<open>\<^verbatim>\<open>lines()\<close>: a line ends with a line feed, optionally preceded by a carriage return; a last line without
  line feed keeps its carriage return.\<close>

function str_lines :: "string \<Rightarrow> string list" where
  "str_lines s =
    (if s = [] then []
     else (case dropWhile (\<lambda>c. c \<noteq> LF) s of
         [] \<Rightarrow> [s]
       | _ # rest \<Rightarrow> strip_cr (takeWhile (\<lambda>c. c \<noteq> LF) s) # str_lines rest))"
  by pat_completeness auto
termination
  by (relation "measure length") (auto simp: dropWhile_shorter)

declare str_lines.simps [simp del]

section \<open>White space\<close>

text \<open>The encodings of the characters with the Unicode property White\_Space.\<close>

definition ws_encodings :: "string list" where
  "ws_encodings = [[CHR 0x09], [CHR 0x0A], [CHR 0x0B], [CHR 0x0C], [CHR 0x0D], [CHR 0x20],
     [CHR 0xC2, CHR 0x85], [CHR 0xC2, CHR 0xA0], [CHR 0xE1, CHR 0x9A, CHR 0x80]]
     @ map (\<lambda>b. [CHR 0xE2, CHR 0x80, char_of (b :: nat)])
         [0x80, 0x81, 0x82, 0x83, 0x84, 0x85, 0x86, 0x87, 0x88, 0x89, 0x8A, 0xA8, 0xA9, 0xAF]
     @ [[CHR 0xE2, CHR 0x81, CHR 0x9F], [CHR 0xE3, CHR 0x80, CHR 0x80]]"

definition ws_prefix :: "string \<Rightarrow> string option" where
  "ws_prefix s = List.find (\<lambda>e. prefix e s) ws_encodings"

definition ws_suffix :: "string \<Rightarrow> string option" where
  "ws_suffix s = List.find (\<lambda>e. suffix e s) ws_encodings"

lemma ws_encodings_nonempty: "e \<in> set ws_encodings \<Longrightarrow> e \<noteq> []"
  by (auto simp: ws_encodings_def)

lemma ws_prefix_Some: "ws_prefix s = Some e \<Longrightarrow> e \<noteq> [] \<and> prefix e s"
  by (auto simp: ws_prefix_def find_Some_iff dest!: ws_encodings_nonempty [OF nth_mem])

lemma ws_suffix_Some: "ws_suffix s = Some e \<Longrightarrow> e \<noteq> [] \<and> suffix e s"
  by (auto simp: ws_suffix_def find_Some_iff dest!: ws_encodings_nonempty [OF nth_mem])

function str_trim_start :: "string \<Rightarrow> string" where
  "str_trim_start s = (case ws_prefix s of Some e \<Rightarrow> str_trim_start (drop (length e) s) | None \<Rightarrow> s)"
  by pat_completeness auto
termination
  by (relation "measure length") (auto dest!: ws_prefix_Some simp: prefix_def)

function str_trim_end :: "string \<Rightarrow> string" where
  "str_trim_end s = (case ws_suffix s of Some e \<Rightarrow> str_trim_end (take (length s - length e) s) | None \<Rightarrow> s)"
  by pat_completeness auto
termination
  by (relation "measure length") (auto dest!: ws_suffix_Some simp: suffix_def)

declare str_trim_start.simps [simp del] str_trim_end.simps [simp del]

definition str_trim :: "string \<Rightarrow> string" where
  "str_trim s = str_trim_end (str_trim_start s)"

text \<open>\<^verbatim>\<open>split_whitespace()\<close>: the non-empty pieces between white space.\<close>

function split_ws :: "string \<Rightarrow> string \<Rightarrow> string list" where
  "split_ws cur s =
    (if s = [] then (if cur = [] then [] else [cur])
     else (case ws_prefix s of
         Some e \<Rightarrow> (if cur = [] then [] else [cur]) @ split_ws [] (drop (length e) s)
       | None \<Rightarrow> split_ws (cur @ [hd s]) (tl s)))"
  by pat_completeness auto
termination
  by (relation "measure (\<lambda>(_, s). length s)") (auto dest!: ws_prefix_Some simp: prefix_def)

declare split_ws.simps [simp del]

definition split_whitespace :: "string \<Rightarrow> string list" where
  "split_whitespace s = split_ws [] s"

section \<open>Searching and replacing\<close>

fun str_find :: "string \<Rightarrow> string \<Rightarrow> nat option" where
  "str_find pat [] = (if pat = [] then Some 0 else None)"
| "str_find pat (c # cs) = (if prefix pat (c # cs) then Some 0 else map_option Suc (str_find pat cs))"

fun str_rfind :: "string \<Rightarrow> string \<Rightarrow> nat option" where
  "str_rfind pat [] = (if pat = [] then Some 0 else None)"
| "str_rfind pat (c # cs) =
    (case str_rfind pat cs of Some i \<Rightarrow> Some (Suc i) | None \<Rightarrow> if prefix pat (c # cs) then Some 0 else None)"

text \<open>\<^verbatim>\<open>replace\<close>: the non-overlapping occurrences from left to right; the empty pattern occurs at every character
  boundary.\<close>

fun insert_everywhere :: "string \<Rightarrow> string \<Rightarrow> string" where
  "insert_everywhere new [] = new"
| "insert_everywhere new (c # cs) = (if is_continuation c then [] else new) @ c # insert_everywhere new cs"

function replace_nonempty :: "string \<Rightarrow> string \<Rightarrow> string \<Rightarrow> string" where
  "replace_nonempty pat new s =
    (if pat = [] \<or> s = [] then s
     else if prefix pat s then new @ replace_nonempty pat new (drop (length pat) s)
     else hd s # replace_nonempty pat new (tl s))"
  by pat_completeness auto
termination
  by (relation "measure (\<lambda>(_, _, s). length s)") auto

declare replace_nonempty.simps [simp del]

definition str_replace :: "string \<Rightarrow> string \<Rightarrow> string \<Rightarrow> string" where
  "str_replace pat new s = (if pat = [] then insert_everywhere new s else replace_nonempty pat new s)"

end
