(* ===== verification/Edit_Output.thy ===== *)
theory Edit_Output
  imports Rust_Strings
begin

text \<open>
  The receipt of the edit tools (\<^verbatim>\<open>crates/agent/src/tools/builtins/edit_output.rs\<close>): the changed ranges of lines are
  grouped into regions with context, each region is rendered as a hunk, and the receipt counts them. The changes
  themselves come from the \<^verbatim>\<open>imara_diff\<close> crate and are an argument. A line index out of range panics; the
  result is then \<open>None\<close>.
\<close>

definition CONTEXT_LINES :: nat where
  "CONTEXT_LINES = 3"

record change_range =
  ch_old_start :: nat
  ch_old_end :: nat
  ch_new_start :: nat
  ch_new_end :: nat

record hunk_region =
  hr_old_start :: nat
  hr_old_end :: nat
  hr_new_start :: nat
  hr_new_end :: nat
  hr_changes :: "change_range list"

datatype diff_line_kind = Context | Delete | Insert

record diff_line =
  dl_kind :: diff_line_kind
  dl_text :: string
  dl_old_line :: "nat option"
  dl_new_line :: "nat option"

record hunk_output =
  ho_operation :: string
  ho_old_start :: nat
  ho_old_count :: nat
  ho_new_start :: nat
  ho_new_count :: nat
  ho_lines :: "diff_line list"
  ho_lines_deleted :: nat
  ho_lines_inserted :: nat

record file_edit_output =
  fe_path :: string
  fe_hunks :: "hunk_output list"

text \<open>\<^verbatim>\<open>{:05}\<close>\<close>

definition pad5 :: "nat \<Rightarrow> string" where
  "pad5 n = replicate (5 - length (show_nat n)) (CHR ''0'') @ show_nat n"

definition diff_line_render :: "diff_line \<Rightarrow> string" where
  "diff_line_render l =
    (let num = (case dl_kind l of
           Insert \<Rightarrow> pad5 (case dl_new_line l of Some n \<Rightarrow> n | None \<Rightarrow> 0)
         | _ \<Rightarrow> pad5 (case dl_old_line l of Some n \<Rightarrow> n | None \<Rightarrow> 0));
         mark = (case dl_kind l of Context \<Rightarrow> '' '' | Delete \<Rightarrow> ''-'' | Insert \<Rightarrow> ''+'')
     in mark @ num @ ''| '' @ dl_text l)"

definition region_step :: "nat \<Rightarrow> nat \<Rightarrow> change_range \<Rightarrow> hunk_region list \<Rightarrow> hunk_region list" where
  "region_step old_len new_len c regions =
    (let os = ch_old_start c - CONTEXT_LINES; oe = min (ch_old_end c + CONTEXT_LINES) old_len;
         ns = ch_new_start c - CONTEXT_LINES; ne = min (ch_new_end c + CONTEXT_LINES) new_len;
         fresh = \<lparr>hr_old_start = os, hr_old_end = oe, hr_new_start = ns, hr_new_end = ne, hr_changes = [c]\<rparr>
     in if regions = [] then [fresh]
        else
          let current = last regions in
          if os \<le> hr_old_end current \<or> ns \<le> hr_new_end current
          then butlast regions @ [current\<lparr>hr_old_end := max (hr_old_end current) oe, hr_new_end := max (hr_new_end current) ne,
                 hr_changes := hr_changes current @ [c]\<rparr>]
          else regions @ [fresh])"

definition group_changes_into_regions :: "change_range list \<Rightarrow> nat \<Rightarrow> nat \<Rightarrow> hunk_region list" where
  "group_changes_into_regions changes old_len new_len = fold (region_step old_len new_len) changes []"

definition line_at :: "string list \<Rightarrow> nat \<Rightarrow> string option" where
  "line_at ls i = (if i < length ls then Some (ls ! i) else None)"

text \<open>The loops of \<^verbatim>\<open>build_hunk\<close> push \<open>k\<close> lines each, starting at the current indices.\<close>

definition context_run :: "string list \<Rightarrow> nat \<Rightarrow> nat \<Rightarrow> nat \<Rightarrow> diff_line list option" where
  "context_run orig old_idx new_idx k =
    those (map (\<lambda>d. map_option (\<lambda>t. \<lparr>dl_kind = Context, dl_text = t, dl_old_line = Some (old_idx + d + 1),
      dl_new_line = Some (new_idx + d + 1)\<rparr>) (line_at orig (old_idx + d))) [0..<k])"

definition delete_run :: "string list \<Rightarrow> nat \<Rightarrow> nat \<Rightarrow> diff_line list option" where
  "delete_run orig old_idx k =
    those (map (\<lambda>d. map_option (\<lambda>t. \<lparr>dl_kind = Delete, dl_text = t, dl_old_line = Some (old_idx + d + 1),
      dl_new_line = None\<rparr>) (line_at orig (old_idx + d))) [0..<k])"

definition insert_run :: "string list \<Rightarrow> nat \<Rightarrow> nat \<Rightarrow> diff_line list option" where
  "insert_run new_ls new_idx k =
    those (map (\<lambda>d. map_option (\<lambda>t. \<lparr>dl_kind = Insert, dl_text = t, dl_old_line = None,
      dl_new_line = Some (new_idx + d + 1)\<rparr>) (line_at new_ls (new_idx + d))) [0..<k])"

definition append_run :: "diff_line list option \<Rightarrow> diff_line list option \<Rightarrow> diff_line list option" where
  "append_run a b = (case a of None \<Rightarrow> None | Some xs \<Rightarrow> map_option (\<lambda>ys. xs @ ys) b)"

text \<open>Indices, counters and lines after the changes of a region.\<close>

primrec hunk_changes ::
    "string list \<Rightarrow> string list \<Rightarrow> nat \<Rightarrow> nat \<Rightarrow> nat \<Rightarrow> nat \<Rightarrow> diff_line list option \<Rightarrow> change_range list
     \<Rightarrow> nat \<times> nat \<times> nat \<times> nat \<times> diff_line list option" where
  "hunk_changes orig new_ls old_idx new_idx deleted inserted acc [] = (old_idx, new_idx, deleted, inserted, acc)"
| "hunk_changes orig new_ls old_idx new_idx deleted inserted acc (c # cs) =
    (let k = min (ch_old_start c - old_idx) (ch_new_start c - new_idx);
         o1 = old_idx + k; n1 = new_idx + k;
         d = ch_old_end c - o1; i = ch_new_end c - n1
     in hunk_changes orig new_ls (o1 + d) (n1 + i) (deleted + d) (inserted + i)
          (append_run (append_run (append_run acc (context_run orig old_idx new_idx k)) (delete_run orig o1 d))
             (insert_run new_ls n1 i)) cs)"

definition context_old_count :: "diff_line list \<Rightarrow> nat" where
  "context_old_count ls = length (filter (\<lambda>l. dl_kind l = Context \<or> dl_kind l = Delete) ls)"

definition context_new_count :: "diff_line list \<Rightarrow> nat" where
  "context_new_count ls = length (filter (\<lambda>l. dl_kind l = Context \<or> dl_kind l = Insert) ls)"

definition build_hunk :: "string list \<Rightarrow> string list \<Rightarrow> hunk_region \<Rightarrow> hunk_output option" where
  "build_hunk orig new_ls r =
    (case hunk_changes orig new_ls (hr_old_start r) (hr_new_start r) 0 0 (Some []) (hr_changes r) of
       (old_idx, new_idx, deleted, inserted, acc) \<Rightarrow>
         map_option (\<lambda>ls. \<lparr>ho_operation = ''replace'', ho_old_start = hr_old_start r + 1, ho_old_count = context_old_count ls,
             ho_new_start = hr_new_start r + 1, ho_new_count = context_new_count ls, ho_lines = ls,
             ho_lines_deleted = deleted, ho_lines_inserted = inserted\<rparr>)
           (append_run acc (context_run orig old_idx new_idx (min (hr_old_end r - old_idx) (hr_new_end r - new_idx)))))"

definition build_hunks_from_diff :: "(string \<Rightarrow> string \<Rightarrow> change_range list) \<Rightarrow> string \<Rightarrow> string \<Rightarrow> hunk_output list option" where
  "build_hunks_from_diff diff original new_text =
    (let orig = str_lines original; new_ls = str_lines new_text
     in those (map (build_hunk orig new_ls) (group_changes_into_regions (diff original new_text) (length orig) (length new_ls))))"

definition empty_hunk :: hunk_output where
  "empty_hunk = \<lparr>ho_operation = ''replace'', ho_old_start = 1, ho_old_count = 0, ho_new_start = 1, ho_new_count = 0,
     ho_lines = [], ho_lines_deleted = 0, ho_lines_inserted = 0\<rparr>"

definition build_first_hunk :: "(string \<Rightarrow> string \<Rightarrow> change_range list) \<Rightarrow> string \<Rightarrow> string \<Rightarrow> hunk_output option" where
  "build_first_hunk diff original new_text =
    map_option (\<lambda>hs. case hs of h # _ \<Rightarrow> h | [] \<Rightarrow> empty_hunk) (build_hunks_from_diff diff original new_text)"

definition build_file_output_from_diff ::
    "(string \<Rightarrow> string \<Rightarrow> change_range list) \<Rightarrow> string \<Rightarrow> string \<Rightarrow> string \<Rightarrow> file_edit_output option" where
  "build_file_output_from_diff diff path original new_text =
    map_option (\<lambda>hs. \<lparr>fe_path = path, fe_hunks = hs\<rparr>) (build_hunks_from_diff diff original new_text)"

definition hunk_line :: "hunk_output \<Rightarrow> string" where
  "hunk_line h = ''H '' @ ho_operation h @ '' old='' @ show_nat (ho_old_start h) @ '','' @ show_nat (ho_old_count h)
     @ '' new='' @ show_nat (ho_new_start h) @ '','' @ show_nat (ho_new_count h)
     @ '' +'' @ show_nat (ho_lines_inserted h) @ '' -'' @ show_nat (ho_lines_deleted h)"

definition format_compact_receipt :: "file_edit_output list \<Rightarrow> string" where
  "format_compact_receipt results =
    (let hunks = concat (map fe_hunks results) in
     str_join nl
       ((''OK paths='' @ show_nat (length results) @ '' edits='' @ show_nat (length hunks)
          @ '' added='' @ show_nat (sum_list (map ho_lines_inserted hunks))
          @ '' deleted='' @ show_nat (sum_list (map ho_lines_deleted hunks)))
        # concat (map (\<lambda>r. (''P '' @ fe_path r) # map hunk_line (fe_hunks r)) results)))"

section \<open>The receipt counts the changes\<close>

text \<open>Changes as a line diff yields them: in order, within the files, with equal distances between them.\<close>

primrec changes_ok :: "nat \<Rightarrow> nat \<Rightarrow> nat \<Rightarrow> nat \<Rightarrow> change_range list \<Rightarrow> bool" where
  "changes_ok o1 n1 old_len new_len [] = (o1 \<le> old_len \<and> n1 \<le> new_len \<and> old_len - o1 = new_len - n1)"
| "changes_ok o1 n1 old_len new_len (c # cs) =
    (o1 \<le> ch_old_start c \<and> n1 \<le> ch_new_start c \<and> ch_old_start c - o1 = ch_new_start c - n1 \<and>
     ch_old_start c \<le> ch_old_end c \<and> ch_new_start c \<le> ch_new_end c \<and>
     changes_ok (ch_old_end c) (ch_new_end c) old_len new_len cs)"

lemma changes_ok_bounds: "changes_ok o1 n1 ol nl' cs \<Longrightarrow> o1 \<le> ol \<and> n1 \<le> nl'"
  by (induction cs arbitrary: o1 n1) fastforce+

end
