(* ===== verification/Edit.thy ===== *)
theory Edit
  imports Edit_Output
begin

text \<open>
  The edit tools: the matching strategies and the replacement of \<^verbatim>\<open>crates/agent/src/tools/builtins/edit.rs\<close> and the
  sequence of edits of \<^verbatim>\<open>multiedit.rs\<close>.

  A strategy yields the pieces of text it wants replaced; \<open>None\<close> stands for a panic of a slice, or for the
  loop of the last strategy when it does not end. The edit distance of the \<^verbatim>\<open>strsim\<close> crate and the rounding of
  floating point arithmetic are parameters.
\<close>

record edit_env =
  ee_levenshtein :: "string \<Rightarrow> string \<Rightarrow> nat"
  ee_rnd :: "real \<Rightarrow> real"
  ee_diff :: "string \<Rightarrow> string \<Rightarrow> change_range list"

section \<open>Matching strategies\<close>

definition simple_replacer :: "string \<Rightarrow> string \<Rightarrow> string list" where
  "simple_replacer content target = (if str_find target content \<noteq> None then [target] else [])"

definition pop_empty :: "string list \<Rightarrow> string list" where
  "pop_empty ls = (if ls \<noteq> [] \<and> last ls = [] then butlast ls else ls)"

text \<open>The byte offset of line \<open>i\<close> and of the end of the block of \<open>n\<close> lines there, counting one byte per line end.\<close>

definition line_offset :: "string list \<Rightarrow> nat \<Rightarrow> nat" where
  "line_offset ls i = sum_list (map (\<lambda>l. length l + 1) (take i ls))"

definition block_end :: "string list \<Rightarrow> nat \<Rightarrow> nat \<Rightarrow> nat" where
  "block_end ls i n = line_offset ls i + sum_list (map length (take n (drop i ls))) + (n - 1)"

definition line_trimmed_replacer :: "string \<Rightarrow> string \<Rightarrow> string list option" where
  "line_trimmed_replacer content target =
    (let ls = str_lines content; search = pop_empty (str_lines target); n = length search in
     if search = [] \<or> length ls < n then Some []
     else those (map (\<lambda>i. str_slice content (line_offset ls i) (block_end ls i n))
       (filter (\<lambda>i. map str_trim (take n (drop i ls)) = map str_trim search) [0..<length ls - n + 1])))"

definition anchor_candidates :: "string list \<Rightarrow> string \<Rightarrow> string \<Rightarrow> (nat \<times> nat) list" where
  "anchor_candidates ls first_line last_line =
    concat (map (\<lambda>i. if str_trim (ls ! i) \<noteq> first_line then []
        else (case List.find (\<lambda>j. str_trim (ls ! j) = last_line) [i + 2..<length ls] of Some j \<Rightarrow> [(i, j)] | None \<Rightarrow> []))
      [0..<length ls])"

definition block_similarity :: "edit_env \<Rightarrow> string list \<Rightarrow> string list \<Rightarrow> nat \<Rightarrow> nat \<Rightarrow> real" where
  "block_similarity E ls search start_line end_line =
    (let rnd = ee_rnd E; actual = end_line - start_line + 1; size = length search in
     if actual + 1 < size then 0
     else
       let lines_to_check = min (size - 2) (actual - 2) in
       if lines_to_check = 0 then 1
       else fold (\<lambda>j similarity.
           let original_line = str_trim (ls ! (start_line + j)); search_line = str_trim (search ! j);
               max_len = max (length original_line) (length search_line)
           in if max_len = 0 then similarity
              else rnd (similarity + rnd (rnd (1 - rnd (real (ee_levenshtein E original_line search_line) / real max_len))
                     / real lines_to_check)))
         [1..<min (size - 1) (actual - 1)] 0)"

text \<open>The candidate with the greatest similarity, the first of equal ones.\<close>

definition best_candidate :: "(nat \<times> nat \<Rightarrow> real) \<Rightarrow> (nat \<times> nat) list \<Rightarrow> (nat \<times> nat) option \<times> real" where
  "best_candidate sim cs = fold (\<lambda>c (best, m). if m < sim c then (Some c, sim c) else (best, m)) cs (None, - 1)"

definition extract_block :: "string \<Rightarrow> string list \<Rightarrow> nat \<times> nat \<Rightarrow> string option" where
  "extract_block content ls c = (case c of (i, j) \<Rightarrow> str_slice content (line_offset ls i) (block_end ls i (j + 1 - i)))"

definition block_anchor_replacer :: "edit_env \<Rightarrow> string \<Rightarrow> string \<Rightarrow> string list option" where
  "block_anchor_replacer E content target =
    (let ls = str_lines content; search0 = str_lines target in
     if length search0 < 3 then Some []
     else
       let search = pop_empty search0;
           candidates = anchor_candidates ls (str_trim (hd search)) (str_trim (last search));
           sim = (\<lambda>(i, j). block_similarity E ls search i j)
       in case candidates of
            [] \<Rightarrow> Some []
          | [c] \<Rightarrow> (if ee_rnd E (3 / 10) \<le> sim c then those [extract_block content ls c] else Some [])
          | _ \<Rightarrow>
              (case best_candidate sim candidates of
                 (Some c, m) \<Rightarrow> (if 1 / 2 \<le> m then those [extract_block content ls c] else Some [])
               | (None, _) \<Rightarrow> Some []))"

text \<open>The blocks of \<open>n\<close> consecutive lines, joined by line feeds.\<close>

definition line_blocks :: "string list \<Rightarrow> nat \<Rightarrow> string list" where
  "line_blocks ls n = (if length ls < n then [] else map (\<lambda>i. str_join [LF] (take n (drop i ls))) [0..<length ls - n + 1])"

definition normalize_ws :: "string \<Rightarrow> string" where
  "normalize_ws s = str_join '' '' (split_whitespace s)"

definition whitespace_normalized_replacer :: "string \<Rightarrow> string \<Rightarrow> string list" where
  "whitespace_normalized_replacer content target =
    (let find_lines = str_lines target in
     filter (\<lambda>b. normalize_ws b = normalize_ws target)
       (if 1 < length find_lines then line_blocks (str_lines content) (length find_lines) else str_lines content))"

definition remove_indentation :: "string \<Rightarrow> string option" where
  "remove_indentation text =
    (let ls = str_lines text; non_empty = filter (\<lambda>l. str_trim l \<noteq> []) ls in
     if non_empty = [] then Some text
     else
       let min_indent = Min (set (map (\<lambda>l. length l - length (str_trim_start l)) non_empty)) in
       map_option (str_join [LF])
         (those (map (\<lambda>l. if str_trim l = [] then Some l else str_slice l (min min_indent (length l)) (length l)) ls)))"

text \<open>The blocks whose indentation is removed in turn; the first panic ends the search.\<close>

fun filter_blocks :: "(string \<Rightarrow> bool option) \<Rightarrow> string list \<Rightarrow> string list option" where
  "filter_blocks P [] = Some []"
| "filter_blocks P (b # bs) =
    (case P b of None \<Rightarrow> None | Some keep \<Rightarrow> map_option (\<lambda>ms. if keep then b # ms else ms) (filter_blocks P bs))"

definition indentation_flexible_replacer :: "string \<Rightarrow> string \<Rightarrow> string list option" where
  "indentation_flexible_replacer content target =
    (case remove_indentation target of
       None \<Rightarrow> None
     | Some normalized \<Rightarrow>
         (let ls = str_lines content; n = length (str_lines target) in
          if n = 0 \<or> length ls < n then Some []
          else filter_blocks (\<lambda>b. map_option (\<lambda>t. t = normalized) (remove_indentation b)) (line_blocks ls n)))"

definition unescape :: "string \<Rightarrow> string" where
  "unescape s =
    (let bs = CHR 0x5C in
     str_replace [bs, CHR ''$''] ''$'' (str_replace [bs, bs] [bs] (str_replace [bs, CHR 0x60] [CHR 0x60]
       (str_replace [bs, CHR 0x22] [CHR 0x22] (str_replace [bs, CHR 0x27] [CHR 0x27]
         (str_replace [bs, CHR ''r''] [CR] (str_replace [bs, CHR ''t''] [CHR 0x09]
           (str_replace [bs, CHR ''n''] [LF] s))))))))"

definition escape_normalized_replacer :: "string \<Rightarrow> string \<Rightarrow> string list" where
  "escape_normalized_replacer content target =
    (let unescaped = unescape target; ls = str_lines content; n = length (str_lines unescaped) in
     if n = 0 \<or> length ls < n then []
     else
       let ms = fold (\<lambda>b ms. if unescape b = unescaped \<and> b \<notin> set ms then ms @ [b] else ms) (line_blocks ls n) []
       in if ms = [] \<and> str_find unescaped content \<noteq> None then [unescaped] else ms)"

definition trimmed_boundary_replacer :: "string \<Rightarrow> string \<Rightarrow> string list" where
  "trimmed_boundary_replacer content target =
    (let ls = str_lines content; n = length (str_lines target) in
     if str_trim target = target \<or> n = 0 \<or> length ls < n then []
     else filter (\<lambda>b. str_trim b = str_trim target) (line_blocks ls n))"

definition context_matches :: "edit_env \<Rightarrow> string list \<Rightarrow> string list \<Rightarrow> bool" where
  "context_matches E block find_lines =
    (let inner = [1..<length block - 1];
         relevant = filter (\<lambda>k. str_trim (block ! k) \<noteq> [] \<or> str_trim (find_lines ! k) \<noteq> []) inner;
         matching = filter (\<lambda>k. str_trim (block ! k) = str_trim (find_lines ! k)) relevant
     in relevant = [] \<or> 1 / 2 \<le> ee_rnd E (real (length matching) / real (length relevant)))"

definition context_aware_replacer :: "edit_env \<Rightarrow> string \<Rightarrow> string \<Rightarrow> string list" where
  "context_aware_replacer E content target =
    (let find_lines0 = str_lines target in
     if length find_lines0 < 3 then []
     else
       let find_lines = pop_empty find_lines0; ls = str_lines content;
           blocks = map (\<lambda>(i, j). take (j + 1 - i) (drop i ls))
             (anchor_candidates ls (str_trim (hd find_lines)) (str_trim (last find_lines)))
       in map (str_join [LF]) (filter (\<lambda>b. length b = length find_lines \<and> context_matches E b find_lines) blocks))"

text \<open>The loop advances by the length of the pattern, so it does not end for the empty pattern.\<close>

function multi_occurrence_replacer :: "string \<Rightarrow> string \<Rightarrow> string list option" where
  "multi_occurrence_replacer content target =
    (if target = [] then None
     else (case str_find target content of
         None \<Rightarrow> Some []
       | Some idx \<Rightarrow> map_option (\<lambda>ms. target # ms) (multi_occurrence_replacer (drop (idx + length target) content) target)))"
  by pat_completeness auto
termination
proof (relation "measure (\<lambda>(c, f). length c)")
  fix content target :: string and idx
  assume "target \<noteq> []" "str_find target content = Some idx"
  then show "((drop (idx + length target) content, target), content, target) \<in> measure (\<lambda>(c, f). length c)"
    by (cases content) (auto split: if_splits)
qed simp

declare multi_occurrence_replacer.simps [simp del]

section \<open>Replacement\<close>

datatype edit_outcome = Edited string | Edit_Error string | Edit_Panic

fun try_matches :: "string \<Rightarrow> string \<Rightarrow> bool \<Rightarrow> bool \<Rightarrow> string list \<Rightarrow> edit_outcome option \<times> bool" where
  "try_matches content new all_occurrences found [] = (None, found)"
| "try_matches content new all_occurrences found (search # ms) =
    (case str_find search content of
       None \<Rightarrow> try_matches content new all_occurrences found ms
     | Some idx \<Rightarrow>
         (if all_occurrences then (Some (Edited (str_replace search new content)), True)
          else if str_rfind search content = Some idx
          then (Some (Edited (take idx content @ new @ drop (idx + length search) content)), True)
          else try_matches content new all_occurrences True ms))"

fun try_replacers ::
    "string \<Rightarrow> string \<Rightarrow> string \<Rightarrow> bool \<Rightarrow> bool \<Rightarrow> (string \<Rightarrow> string \<Rightarrow> string list option) list \<Rightarrow> edit_outcome" where
  "try_replacers content old new all_occurrences found [] =
    Edit_Error (if found
      then ''oldString found multiple times and requires more code context to uniquely identify the intended match. Either provide a larger string with more surrounding context to make it unique or use `replaceAll` to change every instance of `oldString`.''
      else ''oldString not found in content'')"
| "try_replacers content old new all_occurrences found (replacer # rs) =
    (case replacer content old of
       None \<Rightarrow> Edit_Panic
     | Some ms \<Rightarrow>
         (case try_matches content new all_occurrences found ms of
            (Some r, _) \<Rightarrow> r
          | (None, found') \<Rightarrow> try_replacers content old new all_occurrences found' rs))"

definition replacers :: "edit_env \<Rightarrow> (string \<Rightarrow> string \<Rightarrow> string list option) list" where
  "replacers E =
    [\<lambda>c f. Some (simple_replacer c f), line_trimmed_replacer, block_anchor_replacer E,
     \<lambda>c f. Some (whitespace_normalized_replacer c f), indentation_flexible_replacer,
     \<lambda>c f. Some (escape_normalized_replacer c f), \<lambda>c f. Some (trimmed_boundary_replacer c f),
     \<lambda>c f. Some (context_aware_replacer E c f), multi_occurrence_replacer]"

definition replace_with_metadata :: "edit_env \<Rightarrow> string \<Rightarrow> string \<Rightarrow> string \<Rightarrow> bool \<Rightarrow> edit_outcome" where
  "replace_with_metadata E content old new all_occurrences =
    (if old = [] then Edit_Error ''oldString cannot be empty''
     else if old = new then Edit_Error ''oldString and newString must be different''
     else try_replacers content old new all_occurrences False (replacers E))"

section \<open>The tools\<close>

datatype tool_error = Tool_InvalidRequest string | Tool_ProviderError string

datatype tool_outcome = Tool_Ok string | Tool_Err tool_error | Tool_Panic

text \<open>The file system as the tools see it: absolute paths are taken as they are and relative ones joined to
  the working directory, reading yields an error text or the content, writing an error text or nothing.\<close>

record edit_fs =
  fs_is_absolute :: "string \<Rightarrow> bool"
  fs_cwd :: "string option"
  fs_join :: "string \<Rightarrow> string \<Rightarrow> string"
  fs_read :: "string \<Rightarrow> string + string"
  fs_write :: "string \<Rightarrow> string \<Rightarrow> string option"

definition resolve_path :: "edit_fs \<Rightarrow> string \<Rightarrow> tool_error + string" where
  "resolve_path fs path =
    (if fs_is_absolute fs path then Inr path
     else (case fs_cwd fs of
         Some cwd \<Rightarrow> Inr (fs_join fs cwd path)
       | None \<Rightarrow> Inl (Tool_InvalidRequest ''Cannot resolve relative path: no working directory set'')))"

definition json_as_bool :: "json \<Rightarrow> bool option" where
  "json_as_bool v = (case v of JBool b \<Rightarrow> Some b | _ \<Rightarrow> None)"

definition str_arg :: "json \<Rightarrow> string \<Rightarrow> tool_error + string" where
  "str_arg args k =
    (case Option.bind (json_get args k) json_as_str of
       Some s \<Rightarrow> Inr s
     | None \<Rightarrow> Inl (Tool_InvalidRequest (k @ '' is required'')))"

text \<open>Writing the new content and reporting the receipt; the second component lists what was written.\<close>

definition write_result ::
    "edit_env \<Rightarrow> edit_fs \<Rightarrow> string \<Rightarrow> string \<Rightarrow> string \<Rightarrow> tool_outcome \<times> (string \<times> string) list" where
  "write_result E fs path content result =
    (case fs_write fs path result of
       Some e \<Rightarrow> (Tool_Err (Tool_ProviderError (''Failed to write file: '' @ e)), [])
     | None \<Rightarrow>
         (case build_file_output_from_diff (ee_diff E) path content result of
            Some f \<Rightarrow> Tool_Ok (format_compact_receipt [f])
          | None \<Rightarrow> Tool_Panic,
          [(path, result)]))"

definition edit_call :: "edit_env \<Rightarrow> edit_fs \<Rightarrow> json \<Rightarrow> tool_outcome \<times> (string \<times> string) list" where
  "edit_call E fs args =
    (case str_arg args ''filePath'' of Inl e \<Rightarrow> (Tool_Err e, []) | Inr file_path \<Rightarrow>
     case str_arg args ''oldString'' of Inl e \<Rightarrow> (Tool_Err e, []) | Inr old \<Rightarrow>
     case str_arg args ''newString'' of Inl e \<Rightarrow> (Tool_Err e, []) | Inr new \<Rightarrow>
     let all_occurrences = (case Option.bind (json_get args ''replaceAll'') json_as_bool of Some b \<Rightarrow> b | None \<Rightarrow> False) in
     if old = new then (Tool_Err (Tool_InvalidRequest ''oldString and newString must be different''), [])
     else
       case resolve_path fs file_path of Inl e \<Rightarrow> (Tool_Err e, []) | Inr path \<Rightarrow>
       case fs_read fs path of
         Inl e \<Rightarrow> (Tool_Err (Tool_ProviderError (''Failed to read file: '' @ e)), [])
       | Inr content \<Rightarrow>
           (case replace_with_metadata E content old new all_occurrences of
              Edit_Error e \<Rightarrow> (Tool_Err (Tool_ProviderError e), [])
            | Edit_Panic \<Rightarrow> (Tool_Panic, [])
            | Edited result \<Rightarrow> write_result E fs path content result))"

record edit_operation =
  eo_old_string :: string
  eo_new_string :: string
  eo_replace_all :: bool

text \<open>The validation of the edits: the first edit with an empty or an unchanged string is reported.\<close>

fun invalid_edit :: "nat \<Rightarrow> edit_operation list \<Rightarrow> string option" where
  "invalid_edit i [] = None"
| "invalid_edit i (e # es) =
    (if eo_old_string e = [] then Some (''edit '' @ show_nat (i + 1) @ '' has empty oldString'')
     else if eo_old_string e = eo_new_string e
     then Some (''edit '' @ show_nat (i + 1) @ '' has identical oldString and newString'')
     else invalid_edit (Suc i) es)"

text \<open>Edit \<open>i\<close> of \<open>n\<close> and the ones after it, applied one after the other.\<close>

fun apply_edits :: "edit_env \<Rightarrow> nat \<Rightarrow> nat \<Rightarrow> edit_operation list \<Rightarrow> string \<Rightarrow> edit_outcome" where
  "apply_edits E n i [] content = Edited content"
| "apply_edits E n i (e # es) content =
    (case replace_with_metadata E content (eo_old_string e) (eo_new_string e) (eo_replace_all e) of
       Edited c \<Rightarrow> apply_edits E n (Suc i) es c
     | Edit_Panic \<Rightarrow> Edit_Panic
     | Edit_Error m \<Rightarrow> Edit_Error (''multiedit failed at edit '' @ show_nat (i + 1) @ '' of '' @ show_nat n @ '': '' @ m
         @ ''; no changes written''))"

text \<open>Reading the array of edits with serde is a parameter; its error is a text.\<close>

definition multiedit_call ::
    "edit_env \<Rightarrow> edit_fs \<Rightarrow> (json list \<Rightarrow> string + edit_operation list) \<Rightarrow> json
     \<Rightarrow> tool_outcome \<times> (string \<times> string) list" where
  "multiedit_call E fs parse args =
    (case str_arg args ''filePath'' of Inl e \<Rightarrow> (Tool_Err e, []) | Inr file_path \<Rightarrow>
     case json_get args ''edits'' of
       Some (JArr vs) \<Rightarrow>
         (case parse vs of
            Inl e \<Rightarrow> (Tool_Err (Tool_InvalidRequest (''Invalid edit operation: '' @ e)), [])
          | Inr edits \<Rightarrow>
              if edits = [] then (Tool_Err (Tool_InvalidRequest ''edits array must not be empty''), [])
              else (case invalid_edit 0 edits of
                  Some e \<Rightarrow> (Tool_Err (Tool_InvalidRequest e), [])
                | None \<Rightarrow>
                    (case resolve_path fs file_path of Inl e \<Rightarrow> (Tool_Err e, []) | Inr path \<Rightarrow>
                     case fs_read fs path of
                       Inl e \<Rightarrow> (Tool_Err (Tool_ProviderError (''Failed to read file: '' @ e)), [])
                     | Inr content \<Rightarrow>
                         (case apply_edits E (length edits) 0 edits content of
                            Edit_Error e \<Rightarrow> (Tool_Err (Tool_ProviderError e), [])
                          | Edit_Panic \<Rightarrow> (Tool_Panic, [])
                          | Edited result \<Rightarrow> write_result E fs path content result))))
     | _ \<Rightarrow> (Tool_Err (Tool_InvalidRequest ''edits array is required''), []))"

section \<open>Occurrences\<close>

definition occurs_at :: "string \<Rightarrow> string \<Rightarrow> nat \<Rightarrow> bool" where
  "occurs_at pat s i = (i \<le> length s \<and> prefix pat (drop i s))"

lemma str_find_Some: "str_find pat s = Some i \<Longrightarrow> occurs_at pat s i \<and> (\<forall>j < i. \<not> occurs_at pat s j)"
proof (induction s arbitrary: i)
  case Nil
  then show ?case by (auto simp: occurs_at_def split: if_splits)
next
  case (Cons c cs)
  show ?case
  proof (cases "prefix pat (c # cs)")
    case True
    with Cons.prems show ?thesis by (simp add: occurs_at_def)
  next
    case False
    with Cons.prems obtain k where k: "i = Suc k" "str_find pat cs = Some k" by auto
    have "\<not> occurs_at pat (c # cs) j" if "j < i" for j
      using False Cons.IH [OF k(2)] that k(1) by (cases j) (auto simp: occurs_at_def)
    with Cons.IH [OF k(2)] k show ?thesis by (simp add: occurs_at_def)
  qed
qed

lemma str_find_None: "str_find pat s = None \<longleftrightarrow> (\<nexists>i. occurs_at pat s i)"
proof (induction s)
  case Nil
  then show ?case by (auto simp: occurs_at_def)
next
  case (Cons c cs)
  have "(\<exists>i. occurs_at pat (c # cs) i) \<longleftrightarrow> prefix pat (c # cs) \<or> (\<exists>i. occurs_at pat cs i)"
  proof
    assume "\<exists>i. occurs_at pat (c # cs) i"
    then obtain i where "occurs_at pat (c # cs) i" ..
    then show "prefix pat (c # cs) \<or> (\<exists>i. occurs_at pat cs i)" by (cases i) (auto simp: occurs_at_def)
  next
    assume "prefix pat (c # cs) \<or> (\<exists>i. occurs_at pat cs i)"
    then show "\<exists>i. occurs_at pat (c # cs) i"
      by (auto simp: occurs_at_def intro: exI [of _ 0] exI [of _ "Suc i" for i])
  qed
  with Cons show ?case by auto
qed

lemma str_rfind_Some: "str_rfind pat s = Some i \<Longrightarrow> occurs_at pat s i \<and> (\<forall>j. i < j \<longrightarrow> \<not> occurs_at pat s j)"
proof (induction s arbitrary: i)
  case Nil
  then show ?case by (auto simp: occurs_at_def split: if_splits)
next
  case (Cons c cs)
  show ?case
  proof (cases "str_rfind pat cs")
    case None
    have none: "\<not> occurs_at pat cs j" for j
      using None
    proof (induction cs arbitrary: j)
      case Nil
      then show ?case by (auto simp: occurs_at_def split: if_splits)
    next
      case (Cons d ds)
      then show ?case by (cases j) (auto simp: occurs_at_def split: option.splits if_splits)
    qed
    from None Cons.prems have "prefix pat (c # cs)" "i = 0" by (auto split: if_splits)
    moreover have "\<not> occurs_at pat (c # cs) (Suc j)" for j using none [of j] by (simp add: occurs_at_def)
    ultimately show ?thesis by (auto simp: occurs_at_def gr0_conv_Suc)
  next
    case (Some k)
    with Cons.prems have i: "i = Suc k" by simp
    have "\<not> occurs_at pat (c # cs) j" if "i < j" for j
      using Cons.IH [OF Some] that i by (cases j) (auto simp: occurs_at_def)
    with Cons.IH [OF Some] i show ?thesis by (simp add: occurs_at_def)
  qed
qed

lemma find_unique:
  "str_find pat s = Some i \<and> str_rfind pat s = Some i \<longleftrightarrow> (\<forall>j. occurs_at pat s j \<longleftrightarrow> j = i)"
proof
  assume "str_find pat s = Some i \<and> str_rfind pat s = Some i"
  then show "\<forall>j. occurs_at pat s j \<longleftrightarrow> j = i"
    using str_find_Some [of pat s i] str_rfind_Some [of pat s i] by (metis linorder_neqE_nat)
next
  assume u: "\<forall>j. occurs_at pat s j \<longleftrightarrow> j = i"
  then have "str_find pat s \<noteq> None" using str_find_None [of pat s] by blast
  then obtain k where k: "str_find pat s = Some k" by blast
  have "str_rfind pat s \<noteq> None"
    using u
  proof (induction s arbitrary: i)
    case Nil
    then show ?case by (auto simp: occurs_at_def)
  next
    case (Cons c cs)
    then have "occurs_at pat (c # cs) i" by simp
    then show ?case
    proof (cases i)
      case (Suc n)
      have "\<forall>j. occurs_at pat cs j \<longleftrightarrow> j = n"
      proof
        fix j
        show "occurs_at pat cs j \<longleftrightarrow> j = n" using Cons.prems [rule_format, of "Suc j"] Suc by (simp add: occurs_at_def)
      qed
      from Cons.IH [OF this] show ?thesis by auto
    qed (auto simp: occurs_at_def split: option.splits)
  qed
  then obtain m where m: "str_rfind pat s = Some m" by blast
  show "str_find pat s = Some i \<and> str_rfind pat s = Some i"
    using u str_find_Some [OF k] str_rfind_Some [OF m] k m by auto
qed

text \<open>An edit in one place: a part of the content that occurs nowhere else is replaced by the new text.\<close>

definition single_substitution :: "string \<Rightarrow> string \<Rightarrow> string \<Rightarrow> bool" where
  "single_substitution content new result =
    (\<exists>pre mid post. content = pre @ mid @ post \<and> result = pre @ new @ post \<and>
       (\<forall>j. occurs_at mid content j \<longleftrightarrow> j = length pre))"

lemma occurs_split:
  assumes "occurs_at pat s i"
  shows "s = take i s @ pat @ drop (i + length pat) s" "length (take i s) = i"
proof -
  from assms obtain z where z: "drop i s = pat @ z" and i: "i \<le> length s" by (auto simp: occurs_at_def prefix_def)
  have "drop (i + length pat) s = drop (length pat) (drop i s)" by (simp add: add.commute)
  with z have "drop (i + length pat) s = z" by simp
  with z show "s = take i s @ pat @ drop (i + length pat) s" by (metis append_take_drop_id)
  show "length (take i s) = i" using i by simp
qed

lemma try_matches_single:
  "try_matches content new False found ms = (Some r, f) \<Longrightarrow> \<exists>result. r = Edited result \<and> single_substitution content new result"
proof (induction ms arbitrary: found)
  case (Cons m ms)
  show ?case
  proof (cases "str_find m content")
    case None
    with Cons show ?thesis by auto
  next
    case (Some i)
    show ?thesis
    proof (cases "str_rfind m content = Some i")
      case True
      with Some have u: "\<forall>j. occurs_at m content j \<longleftrightarrow> j = i" using find_unique by blast
      then have "occurs_at m content i" by simp
      note s = occurs_split [OF this]
      from Some True Cons.prems have "r = Edited (take i content @ new @ drop (i + length m) content)" by simp
      moreover have "single_substitution content new (take i content @ new @ drop (i + length m) content)"
        unfolding single_substitution_def
      proof (intro exI conjI)
        show "content = take i content @ m @ drop (i + length m) content" by (rule s(1))
        show "\<forall>j. occurs_at m content j \<longleftrightarrow> j = length (take i content)" unfolding s(2) by (rule u)
      qed (rule refl)
      ultimately show ?thesis by blast
    next
      case False
      with Some Cons show ?thesis by auto
    qed
  qed
qed simp

lemma try_replacers_single:
  "try_replacers content old new False found rs = Edited result \<Longrightarrow> single_substitution content new result"
proof (induction rs arbitrary: found)
  case (Cons r rs)
  then show ?case
    by (auto split: option.splits prod.splits dest!: try_matches_single)
qed simp

lemma replace_first_strategy:
  assumes "old \<noteq> []" "old \<noteq> new" "\<forall>j. occurs_at old content j \<longleftrightarrow> j = i"
  shows "replace_with_metadata E content old new False = Edited (take i content @ new @ drop (i + length old) content)"
  using assms(1,2) find_unique [of old content i, THEN iffD2, OF assms(3)]
  by (simp add: replace_with_metadata_def replacers_def simple_replacer_def)

text \<open>C18: A single edit changes one place. Whatever strategy finds the text, a successful edit without
  \<^verbatim>\<open>replaceAll\<close> replaces one part of the file that occurs nowhere else in it and leaves everything before and after
  as it was; and a text that occurs exactly once in the file is itself the part replaced.\<close>

theorem edit_one_place:
  "(case replace_with_metadata E content old new False of Edited result \<Rightarrow> single_substitution content new result | _ \<Rightarrow> True) \<and>
   (if old \<noteq> [] \<and> old \<noteq> new \<and> (\<forall>j. occurs_at old (pre @ old @ post) j = (j = length pre))
    then replace_with_metadata E (pre @ old @ post) old new False = Edited (pre @ new @ post) else True)"
proof -
  have "single_substitution content new result" if "replace_with_metadata E content old new False = Edited result" for result
    using that by (auto simp: replace_with_metadata_def split: if_splits dest: try_replacers_single)
  then show ?thesis
    using replace_first_strategy [of old new "pre @ old @ post" "length pre" E]
    by (simp split: edit_outcome.splits)
qed

section \<open>Line offsets\<close>

text \<open>Lines start at character boundaries, as in every valid UTF-8 text.\<close>

definition line_starts_ok :: "string \<Rightarrow> bool" where
  "line_starts_ok s = ((s = [] \<or> \<not> is_continuation (hd s)) \<and>
     (\<forall>a b. s = a @ LF # b \<longrightarrow> b = [] \<or> \<not> is_continuation (hd b)))"

lemma strip_cr_id: "CR \<notin> set l \<Longrightarrow> strip_cr l = l"
  unfolding strip_cr_def by (metis last_in_set)

lemma str_lines_simps:
  "str_lines [] = []"
  "LF \<notin> set l \<Longrightarrow> l \<noteq> [] \<Longrightarrow> str_lines l = [l]"
  "LF \<notin> set l \<Longrightarrow> str_lines (l @ LF # rest) = strip_cr l # str_lines rest"
proof -
  show "str_lines [] = []" by (simp add: str_lines.simps)
  show "str_lines l = [l]" if "LF \<notin> set l" "l \<noteq> []"
  proof -
    have "dropWhile (\<lambda>c. c \<noteq> LF) l = []" using that(1) by (auto simp: dropWhile_eq_Nil_conv)
    with that(2) show ?thesis by (subst str_lines.simps) (simp del: dropWhile_eq_Nil_conv)
  qed
  assume l: "LF \<notin> set l"
  then have "dropWhile (\<lambda>c. c \<noteq> LF) (l @ LF # rest) = LF # rest" "takeWhile (\<lambda>c. c \<noteq> LF) (l @ LF # rest) = l"
    by (auto simp: dropWhile_append takeWhile_append dropWhile_eq_Nil_conv)
  then show "str_lines (l @ LF # rest) = strip_cr l # str_lines rest"
    by (subst str_lines.simps) simp
qed

lemma lines_cases:
  obtains "s = []" | "s \<noteq> []" "LF \<notin> set s" | l rest where "s = l @ LF # rest" "LF \<notin> set l"
  by (metis split_list_first)

lemma str_join_append_last: "xs \<noteq> [] \<Longrightarrow> str_join sep (x # xs) = x @ sep @ str_join sep xs"
  by (cases xs) auto

lemma str_lines_join:
  "CR \<notin> set s \<Longrightarrow> \<exists>t. t \<in> {[], [LF]} \<and> s = str_join [LF] (str_lines s) @ t \<and> (\<forall>l \<in> set (str_lines s). LF \<notin> set l)"
proof (induction s rule: length_induct)
  case (1 s)
  show ?case
  proof (cases s rule: lines_cases)
    case 1
    then show ?thesis by (simp add: str_lines_simps)
  next
    case 2
    then show ?thesis by (simp add: str_lines_simps)
  next
    case (3 l rest)
    with "1.prems" have "CR \<notin> set rest" "strip_cr l = l" by (auto simp: strip_cr_id)
    moreover have "length rest < length s" using 3 by simp
    ultimately obtain t where t: "t \<in> {[], [LF]}" "rest = str_join [LF] (str_lines rest) @ t"
        "\<forall>l \<in> set (str_lines rest). LF \<notin> set l"
      using "1.IH" by meson
    have lines: "str_lines s = l # str_lines rest" using 3 \<open>strip_cr l = l\<close> by (simp add: str_lines_simps)
    show ?thesis
    proof (cases "str_lines rest = []")
      case True
      with t have "rest = t" by simp
      have "rest = []"
      proof (rule ccontr)
        assume "rest \<noteq> []"
        then have "str_lines rest \<noteq> []" by (cases rest rule: lines_cases) (auto simp: str_lines_simps)
        with True show False by simp
      qed
      with 3 lines True show ?thesis by (intro exI [of _ "[LF]"]) auto
    next
      case False
      with t 3 lines show ?thesis by (intro exI [of _ t]) (auto simp: str_join_append_last)
    qed
  qed
qed

lemma join_split:
  "i < length ls \<Longrightarrow> str_join [LF] ls = concat (map (\<lambda>l. l @ [LF]) (take i ls)) @ str_join [LF] (drop i ls)"
proof (induction i arbitrary: ls)
  case (Suc i)
  then obtain l rest where ls: "ls = l # rest" "i < length rest" by (cases ls) auto
  then have "rest \<noteq> []" by auto
  with Suc.IH [OF ls(2)] ls(1) show ?case by (simp add: str_join_append_last)
qed simp

lemma length_join: "length (str_join [LF] xs) = sum_list (map length xs) + (length xs - 1)"
proof (induction xs)
  case (Cons x xs)
  then show ?case by (cases xs) auto
qed simp

lemma length_line_prefix: "length (concat (map (\<lambda>l. l @ [LF]) (take i ls))) = line_offset ls i"
  by (simp add: line_offset_def length_concat o_def)

lemma str_join_prefix: "n \<le> length ls \<Longrightarrow> 0 < n \<Longrightarrow>
    str_join [LF] ls = str_join [LF] (take n ls) @ (if n = length ls then [] else LF # str_join [LF] (drop n ls))"
proof (induction n arbitrary: ls)
  case (Suc n)
  then obtain l rest where ls: "ls = l # rest" "n \<le> length rest" by (cases ls) auto
  show ?case
  proof (cases "n = 0")
    case True
    with ls show ?thesis by (cases rest) auto
  next
    case False
    with ls have "rest \<noteq> []" "take n rest \<noteq> []" by auto
    with Suc.IH [OF ls(2)] ls False show ?thesis by (simp add: str_join_append_last)
  qed
qed simp

lemma LF_not_continuation [simp]: "\<not> is_continuation LF"
  by (simp add: is_continuation_def LF_def)

lemma boundary_append:
  "is_char_boundary (a @ b) (length a) \<longleftrightarrow> a = [] \<or> b = [] \<or> \<not> is_continuation (hd b)"
  by (cases b) (auto simp: is_char_boundary_def nth_append)

text \<open>In a text without carriage returns the computed bounds of a block of lines are the block.\<close>

lemma block_slice:
  assumes "CR \<notin> set s" "line_starts_ok s" "0 < n" "i + n \<le> length (str_lines s)"
  shows "str_slice s (line_offset (str_lines s) i) (block_end (str_lines s) i n) =
    Some (str_join [LF] (take n (drop i (str_lines s))))"
proof -
  define ls where "ls = str_lines s"
  define pre where "pre = concat (map (\<lambda>l. l @ [LF]) (take i ls))"
  define blk where "blk = str_join [LF] (take n (drop i ls))"
  obtain t where t: "t \<in> {[], [LF]}" "s = str_join [LF] ls @ t" using str_lines_join [OF assms(1)] by (auto simp: ls_def)
  define post where "post = (if n = length (drop i ls) then [] else LF # str_join [LF] (drop n (drop i ls))) @ t"
  have i: "i < length ls" and n: "n \<le> length (drop i ls)" using assms(3,4) by (auto simp: ls_def)
  have s: "s = pre @ blk @ post"
    using t(2) join_split [OF i] str_join_prefix [OF n assms(3)] by (simp add: pre_def blk_def post_def)
  have pre: "length pre = line_offset ls i" unfolding pre_def by (rule length_line_prefix)
  have blk: "length pre + length blk = block_end ls i n"
    using n by (simp add: pre blk_def length_join block_end_def)
  have "pre = [] \<or> (\<exists>a. pre = a @ [LF])"
    by (cases "take i ls" rule: rev_cases) (auto simp: pre_def)
  then have b1: "is_char_boundary s (length pre)"
  proof
    assume "\<exists>a. pre = a @ [LF]"
    then obtain a where "pre = a @ [LF]" ..
    then have "s = a @ LF # (blk @ post)" by (simp add: s)
    with assms(2) have "blk @ post = [] \<or> \<not> is_continuation (hd (blk @ post))" unfolding line_starts_ok_def by blast
    then show ?thesis unfolding s boundary_append by blast
  qed (simp add: is_char_boundary_def)
  have "post = [] \<or> hd post = LF" using t(1) by (auto simp: post_def)
  then have b2: "is_char_boundary s (length (pre @ blk))"
    using boundary_append [of "pre @ blk" post] by (auto simp: s)
  from b1 b2 have "str_slice s (length pre) (length pre + length blk) = Some blk"
    by (simp add: str_slice_def) (simp add: s)
  then show ?thesis unfolding ls_def [symmetric] blk_def [symmetric] blk [symmetric] pre [symmetric] .
qed

lemma those_map_Some: "those (map (\<lambda>x. Some (f x)) xs) = Some (map f xs)"
  by (induction xs) auto

text \<open>C20: The line-trimmed strategy against its specification. In a text without carriage returns, the byte offsets it
  computes never panic, and its matches are exactly the blocks of consecutive lines that agree with the
  lines of the search text up to surrounding white space, in their order, each as the lines joined by line feeds.\<close>

theorem line_trimmed_spec:
  assumes "CR \<notin> set content" "line_starts_ok content"
  shows "line_trimmed_replacer content target =
    (let ls = str_lines content; search = pop_empty (str_lines target); n = length search in
     Some (if search = [] then []
       else map (str_join [LF]) (filter (\<lambda>blk. map str_trim blk = map str_trim search)
              (map (\<lambda>i. take n (drop i ls)) (if length ls < n then [] else [0..<length ls - n + 1])))))"
proof -
  define ls where "ls = str_lines content"
  define search where "search = pop_empty (str_lines target)"
  define n where "n = length search"
  show ?thesis
  proof (cases "search = [] \<or> length ls < n")
    case True
    then show ?thesis unfolding line_trimmed_replacer_def Let_def
      by (auto simp: ls_def [symmetric] search_def [symmetric] n_def [symmetric])
  next
    case False
    define ixs where "ixs = filter (\<lambda>i. map str_trim (take n (drop i ls)) = map str_trim search) [0..<length ls - n + 1]"
    have "x + n \<le> length ls" if "x \<in> set ixs" for x using that False by (auto simp: ixs_def simp del: upt_Suc)
    moreover have "0 < n" using False by (simp add: n_def)
    ultimately have "map (\<lambda>i. str_slice content (line_offset ls i) (block_end ls i n)) ixs =
        map (\<lambda>i. Some (str_join [LF] (take n (drop i ls)))) ixs"
      by (intro map_cong refl) (simp add: ls_def block_slice [OF assms])
    then have "line_trimmed_replacer content target = Some (map (\<lambda>i. str_join [LF] (take n (drop i ls))) ixs)"
      using False unfolding line_trimmed_replacer_def Let_def ls_def [symmetric] search_def [symmetric] n_def [symmetric]
        ixs_def [symmetric] by (simp add: those_map_Some del: map_eq_conv)
    then show ?thesis
      using False unfolding Let_def ls_def [symmetric] search_def [symmetric] n_def [symmetric]
      by (simp add: ixs_def filter_map o_def del: upt_Suc)
  qed
qed

theorem line_trimmed_spec_witness:
  "line_trimmed_replacer (''a'' @ [LF] @ '' b'') ''b'' = Some ['' b'']"
proof -
  let ?s = "''a'' @ [LF] @ '' b''"
  have ok: "line_starts_ok ?s"
  proof -
    have "hd b = CHR '' ''" if "?s = a @ LF # b" for a b
      using that by (auto simp: Cons_eq_append_conv LF_def)
    then show ?thesis by (auto simp: line_starts_ok_def is_continuation_def)
  qed
  have "CR \<notin> set ?s" by (simp add: CR_def LF_def)
  from line_trimmed_spec [OF this ok, of "''b''"]
  have "line_trimmed_replacer ?s ''b'' = (let ls = str_lines ?s; search = pop_empty (str_lines ''b''); n = length search in
     Some (if search = [] then []
       else map (str_join [LF]) (filter (\<lambda>blk. map str_trim blk = map str_trim search)
              (map (\<lambda>i. take n (drop i ls)) (if length ls < n then [] else [0..<length ls - n + 1])))))" .
  also have "\<dots> = Some ['' b'']" by code_simp
  finally show ?thesis .
qed

section \<open>What the strategies get wrong\<close>

lemma second_strategy:
  assumes "old \<noteq> []" "old \<noteq> new" "try_matches content new b False (simple_replacer content old) = (None, found)"
    and "line_trimmed_replacer content old = Some ms" "try_matches content new b found ms = (Some r, found')"
  shows "replace_with_metadata E content old new b = r"
  using assms by (simp add: replace_with_metadata_def replacers_def)


text \<open>An edit of all occurrences of a text of blanks that the file does not contain, in a file with an empty line,
  matches the empty line, whose text is empty, and so inserts the new text before every character of the
  file.\<close>

theorem blank_replace_all_floods:
  "replace_with_metadata E (''a'' @ [LF, LF] @ ''b'') ''  '' ''X'' True = Edited (''Xa'' @ ''X'' @ [LF] @ ''X'' @ [LF] @ ''XbX'')"
proof (rule second_strategy)
  let ?s = "''a'' @ [LF, LF] @ ''b''"
  show "try_matches ?s ''X'' True False (simple_replacer ?s ''  '') = (None, False)" by code_simp
  show "line_trimmed_replacer ?s ''  '' = Some [[]]" by code_simp
  show "try_matches ?s ''X'' True False [[]] = (Some (Edited (''Xa'' @ ''X'' @ [LF] @ ''X'' @ [LF] @ ''XbX'')), True)"
    by code_simp
qed simp_all

text \<open>A text that occurs several times does not always make an edit fail: when one of its occurrences is a whole
  line up to surrounding blanks, the line-trimmed strategy finds that line with its blanks, which is unique, and
  replaces it.\<close>

theorem ambiguous_edit_accepted:
  "str_find ''foo'' (''foo  '' @ [LF] @ ''foobar'') \<noteq> str_rfind ''foo'' (''foo  '' @ [LF] @ ''foobar'') \<and>
    replace_with_metadata E (''foo  '' @ [LF] @ ''foobar'') ''foo'' ''X'' False = Edited (''X'' @ [LF] @ ''foobar'')"
proof -
  let ?s = "''foo  '' @ [LF] @ ''foobar''"
  have "str_find ''foo'' ?s \<noteq> str_rfind ''foo'' ?s" by code_simp
  moreover have "replace_with_metadata E ?s ''foo'' ''X'' False = Edited (''X'' @ [LF] @ ''foobar'')"
  proof (rule second_strategy)
    show "try_matches ?s ''X'' False False (simple_replacer ?s ''foo'') = (None, True)" by code_simp
    show "line_trimmed_replacer ?s ''foo'' = Some [''foo  '']" by code_simp
    show "try_matches ?s ''X'' False True [''foo  ''] = (Some (Edited (''X'' @ [LF] @ ''foobar'')), True)" by code_simp
  qed simp_all
  ultimately show ?thesis ..
qed

section \<open>Sequences of edits\<close>

definition chain_edits :: "edit_env \<Rightarrow> edit_operation list \<Rightarrow> string \<Rightarrow> string option" where
  "chain_edits E es content = fold (\<lambda>e acc. Option.bind acc (\<lambda>c.
     case replace_with_metadata E c (eo_old_string e) (eo_new_string e) (eo_replace_all e) of Edited r \<Rightarrow> Some r | _ \<Rightarrow> None))
     es (Some content)"

lemma fold_bind_None: "fold (\<lambda>e acc. Option.bind acc (f e)) es None = None"
  by (induction es) auto

lemma apply_edits_chain:
  "chain_edits E es content = (case apply_edits E n i es content of Edited r \<Rightarrow> Some r | _ \<Rightarrow> None)"
proof (induction es arbitrary: content i)
  case (Cons e es)
  show ?case
  proof (cases "replace_with_metadata E content (eo_old_string e) (eo_new_string e) (eo_replace_all e)")
    case (Edited c)
    with Cons [of c "Suc i"] show ?thesis by (simp add: chain_edits_def)
  qed (simp_all add: chain_edits_def fold_bind_None)
qed (simp add: chain_edits_def)

text \<open>C19: A sequence of edits is all or nothing. The tool writes the file at most once; it writes exactly when every
  edit of the sequence, each applied to the result of the one before, succeeds and writing works, and then
  writes the result of the last edit; in every other case nothing is written and the outcome is an error or a panic.\<close>

theorem multiedit_all_or_nothing:
  "case multiedit_call E fs parse args of (out, ws) \<Rightarrow>
    ws = [] \<and> (\<nexists>t. out = Tool_Ok t) \<or>
    (\<exists>path result content edits vs. ws = [(path, result)] \<and> json_get args ''edits'' = Some (JArr vs) \<and> parse vs = Inr edits \<and>
       fs_read fs path = Inr content \<and> chain_edits E edits content = Some result \<and> fs_write fs path result = None)"
proof -
  have applied: "chain_edits E edits content = Some result" if "apply_edits E (length edits) 0 edits content = Edited result"
    for edits content result
    using apply_edits_chain [of E edits content "length edits" 0] that by simp
  show ?thesis
    unfolding multiedit_call_def
    by (auto simp: applied write_result_def split: sum.splits option.splits json.splits edit_outcome.splits)
qed

end
