(* ===== verification/Limits_Middleware.thy ===== *)
theory Limits_Middleware
  imports World
begin

text \<open>
  The limit middleware of \<^verbatim>\<open>crates/agent/src/middleware/limits.rs\<close>: \<^verbatim>\<open>LimitsMiddleware\<close> (steps, turns and
  price), \<^verbatim>\<open>MaxStepsMiddleware\<close>, \<^verbatim>\<open>TurnLimitMiddleware\<close> and \<^verbatim>\<open>PriceLimitMiddleware\<close>. Each is a
  driver that keeps the pipeline's contract. The cell of \<^verbatim>\<open>last_model\<close> is at an address \<open>a\<close> of the
  world; \<open>cache\<close> is the registry as read from disk.
\<close>

record 'f limits_config =
  lc_max_steps :: "usize option"
  lc_max_turns :: "usize option"
  lc_max_price_usd :: "'f option"
  lc_model_info_source :: "'f model_info_source"

definition default_limits_config :: "'f limits_config" where
  "default_limits_config = \<lparr>lc_max_steps = None, lc_max_turns = None, lc_max_price_usd = None,
     lc_model_info_source = FromSession\<rparr>"

definition with_manual_pricing :: "'f \<Rightarrow> 'f \<Rightarrow> 'f limits_config" where
  "with_manual_pricing i x = default_limits_config\<lparr>lc_model_info_source := source_pricing source_manual i x\<rparr>"

definition total_cost ::
    "'f f64_ops \<Rightarrow> 'f providers_registry option \<Rightarrow> 'f limits_config \<Rightarrow> 'f agent_stats
     \<Rightarrow> 'f conversation_context \<Rightarrow> 'f option" where
  "total_cost F cache cfg stats ctx =
    (let billable = st_total_output_tokens stats + st_reasoning_tokens stats in
     case lc_model_info_source cfg of
       FromSession \<Rightarrow>
         (case get_model_info cache (ctx_provider ctx) (ctx_model ctx) of None \<Rightarrow> None
          | Some m \<Rightarrow> model_calculate_cost F m (st_total_input_tokens stats) billable)
     | Manual _ _ _ _ _ ic oc \<Rightarrow>
         (case ic of None \<Rightarrow> None
          | Some i \<Rightarrow> (case oc of None \<Rightarrow> None
             | Some x \<Rightarrow> calculate_cost F
                 \<lparr>mp_input = Some i, mp_output = Some x, mp_cache_read = None, mp_cache_write = None\<rparr>
                 (st_total_input_tokens stats) billable)))"

definition check_provider_changed :: "nat \<Rightarrow> 'f conversation_context \<Rightarrow> 'db world \<Rightarrow> 'db world" where
  "check_provider_changed a ctx w =
    (let current = (ctx_provider ctx, ctx_model ctx) in
     if w_last_model w a \<noteq> Some current then w\<lparr>w_last_model := (w_last_model w)(a := Some current)\<rparr> else w)"

text \<open>The three checks in the order of the source; \<open>None\<close> when the state passes.\<close>

definition exceeds :: "usize option \<Rightarrow> usize \<Rightarrow> bool" where
  "exceeds limit v = (case limit of Some l \<Rightarrow> l \<le> v | None \<Rightarrow> False)"

definition price_exceeded ::
    "'f f64_ops \<Rightarrow> 'f providers_registry option \<Rightarrow> 'f limits_config \<Rightarrow> 'f conversation_context \<Rightarrow> ('f \<times> 'f) option" where
  "price_exceeded F cache cfg ctx =
    (case lc_max_price_usd cfg of None \<Rightarrow> None
     | Some maxp \<Rightarrow> (case total_cost F cache cfg (ctx_stats ctx) ctx of None \<Rightarrow> None
        | Some cost \<Rightarrow> if f_lt F maxp cost then Some (cost, maxp) else None))"

definition step_message :: "usize \<Rightarrow> string" where
  "step_message n = ''Max steps ('' @ show_usize n @ '') reached''"

definition turn_message :: "usize \<Rightarrow> string" where
  "turn_message n = ''Turn limit ('' @ show_usize n @ '') reached''"

definition price_message :: "'f f64_ops \<Rightarrow> 'f \<Rightarrow> 'f \<Rightarrow> string" where
  "price_message F cost maxp =
    ''Price limit exceeded: $'' @ f_fmt F 4 cost @ '' > $'' @ f_fmt F 2 maxp"

definition limits_on_step_start ::
    "'f f64_ops \<Rightarrow> 'f providers_registry option \<Rightarrow> 'f limits_config \<Rightarrow> nat \<Rightarrow> ('f, 'b, 't, 'db world) hook" where
  "limits_on_step_start F cache cfg a s w =
    (case s of
       BeforeLlmCall ctx \<Rightarrow>
         (let w' = check_provider_changed a ctx w in
          if exceeds (lc_max_steps cfg) (st_steps (ctx_stats ctx))
          then (Inr (Stopped (step_message (the (lc_max_steps cfg))) StepLimit (Some ctx)), w')
          else if exceeds (lc_max_turns cfg) (st_turns (ctx_stats ctx))
          then (Inr (Stopped (turn_message (the (lc_max_turns cfg))) TurnLimit (Some ctx)), w')
          else (case price_exceeded F cache cfg ctx of
              Some (cost, maxp) \<Rightarrow> (Inr (Stopped (price_message F cost maxp) PriceLimit (Some ctx)), w')
            | None \<Rightarrow> (Inr s, w')))
     | _ \<Rightarrow> (Inr s, w))"

definition limits_reset :: "nat \<Rightarrow> 'db world \<Rightarrow> 'db world" where
  "limits_reset a w = w\<lparr>w_last_model := (w_last_model w)(a := None)\<rparr>"

definition limits_get_limits :: "'f limits_config \<Rightarrow> 'f session_limits" where
  "limits_get_limits cfg = \<lparr>sl_max_steps = map_option u32_from_usize (lc_max_steps cfg),
     sl_max_turns = map_option u32_from_usize (lc_max_turns cfg),
     sl_max_cost_usd = lc_max_price_usd cfg\<rparr>"

definition limits_middleware ::
    "'f f64_ops \<Rightarrow> 'f providers_registry option \<Rightarrow> 'f limits_config \<Rightarrow> nat \<Rightarrow> ('f, 'b, 't, 'db world) driver" where
  "limits_middleware F cache cfg a = (default_driver ''LimitsMiddleware'')\<lparr>
     on_step_start := limits_on_step_start F cache cfg a, drv_reset := limits_reset a,
     drv_get_limits := Some (limits_get_limits cfg)\<rparr>"

section \<open>The single-limit middleware\<close>

definition max_steps_on_step_start :: "usize \<Rightarrow> ('f, 'b, 't, 'w) hook" where
  "max_steps_on_step_start n s w =
    (case s of
       BeforeLlmCall ctx \<Rightarrow>
         (if n \<le> st_steps (ctx_stats ctx)
          then (Inr (Stopped (step_message n) StepLimit (Some ctx)), w) else (Inr s, w))
     | _ \<Rightarrow> (Inr s, w))"

definition max_steps_middleware :: "usize \<Rightarrow> ('f, 'b, 't, 'w) driver" where
  "max_steps_middleware n = (default_driver ''MaxStepsMiddleware'')\<lparr>
     on_step_start := max_steps_on_step_start n,
     drv_get_limits := Some (no_limits\<lparr>sl_max_steps := Some (u32_from_usize n)\<rparr>)\<rparr>"

definition turn_limit_on_step_start :: "usize \<Rightarrow> ('f, 'b, 't, 'w) hook" where
  "turn_limit_on_step_start n s w =
    (case s of
       BeforeLlmCall ctx \<Rightarrow>
         (if n \<le> st_turns (ctx_stats ctx)
          then (Inr (Stopped (turn_message n) TurnLimit (Some ctx)), w) else (Inr s, w))
     | _ \<Rightarrow> (Inr s, w))"

definition turn_limit_middleware :: "usize \<Rightarrow> ('f, 'b, 't, 'w) driver" where
  "turn_limit_middleware n = (default_driver ''TurnLimitMiddleware'')\<lparr>
     on_step_start := turn_limit_on_step_start n,
     drv_get_limits := Some (no_limits\<lparr>sl_max_turns := Some (u32_from_usize n)\<rparr>)\<rparr>"

record 'f price_limit =
  pl_max_cost :: 'f
  pl_input_cost_per_million :: 'f
  pl_output_cost_per_million :: 'f

definition price_total_cost :: "'f f64_ops \<Rightarrow> 'f price_limit \<Rightarrow> 'f agent_stats \<Rightarrow> 'f" where
  "price_total_cost F p stats =
    f_add F (per_million F (st_total_input_tokens stats) (pl_input_cost_per_million p))
      (per_million F (st_total_output_tokens stats + st_reasoning_tokens stats) (pl_output_cost_per_million p))"

definition price_limit_on_step_start :: "'f f64_ops \<Rightarrow> 'f price_limit \<Rightarrow> ('f, 'b, 't, 'w) hook" where
  "price_limit_on_step_start F p s w =
    (case s of
       BeforeLlmCall ctx \<Rightarrow>
         (let cost = price_total_cost F p (ctx_stats ctx) in
          if f_lt F (pl_max_cost p) cost
          then (Inr (Stopped (price_message F cost (pl_max_cost p)) PriceLimit (Some ctx)), w)
          else (Inr s, w))
     | _ \<Rightarrow> (Inr s, w))"

definition price_limit_middleware :: "'f f64_ops \<Rightarrow> 'f price_limit \<Rightarrow> ('f, 'b, 't, 'w) driver" where
  "price_limit_middleware F p = (default_driver ''PriceLimitMiddleware'')\<lparr>
     on_step_start := price_limit_on_step_start F p,
     drv_get_limits := Some (no_limits\<lparr>sl_max_cost_usd := Some (pl_max_cost p)\<rparr>)\<rparr>"

section \<open>The factory\<close>

text \<open>\<^verbatim>\<open>LimitsFactory::create\<close>. The decoding of the JSON configuration is third-party (serde): its
  result is the argument.\<close>

record 'f limits_factory_config =
  lfc_enabled :: bool
  lfc_max_steps :: "usize option"
  lfc_max_turns :: "usize option"
  lfc_max_price_usd :: "'f option"

definition limits_factory_create ::
    "'f f64_ops \<Rightarrow> 'f providers_registry option \<Rightarrow> nat \<Rightarrow> (string + 'f limits_factory_config)
     \<Rightarrow> string + ('f, 'b, 't, 'db world) driver" where
  "limits_factory_create F cache a parsed =
    (case parsed of Inl e \<Rightarrow> Inl e
     | Inr cfg \<Rightarrow>
        if \<not> lfc_enabled cfg then Inl ''Middleware disabled''
        else
          let c0 = default_limits_config;
              c1 = (case lfc_max_steps cfg of Some n \<Rightarrow> c0\<lparr>lc_max_steps := Some n\<rparr> | None \<Rightarrow> c0);
              c2 = (case lfc_max_turns cfg of Some n \<Rightarrow> c1\<lparr>lc_max_turns := Some n\<rparr> | None \<Rightarrow> c1);
              c3 = (case lfc_max_price_usd cfg of Some x \<Rightarrow> c2\<lparr>lc_max_price_usd := Some x\<rparr> | None \<Rightarrow> c2)
          in Inr (limits_middleware F cache c3 a))"

section \<open>The contract\<close>

lemmas limits_hooks [mw_defs] = limits_middleware_def limits_on_step_start_def max_steps_middleware_def
  max_steps_on_step_start_def turn_limit_middleware_def turn_limit_on_step_start_def
  price_limit_middleware_def price_limit_on_step_start_def default_driver_def pass_def

text \<open>A middleware that overrides the step hook only: what is left of the contract.\<close>

lemma step_only_contract:
  assumes "on_turn_start d = pass" "on_after_llm d = pass" "on_processing_tool_calls d = pass"
    "on_turn_end d = pass"
    and "\<And>s w. \<not> before_llm s \<Longrightarrow> on_step_start d s w = (Inr s, w)"
    and "\<And>c w. \<exists>s' w'. on_step_start d (BeforeLlmCall c) w = (Inr s', w') \<and> step_result c s'"
  shows "middleware_contract d"
  using assms by unfold_locales (auto simp: pass_def)

interpretation limits_mw: middleware_contract "limits_middleware F cache cfg a" for F cache cfg a
proof (rule step_only_contract)
  show "\<not> before_llm s \<Longrightarrow> on_step_start (limits_middleware F cache cfg a) s w = (Inr s, w)" for s and w :: "'d world"
    by (cases s) (simp_all add: mw_defs)
  show "\<exists>s' w'. on_step_start (limits_middleware F cache cfg a) (BeforeLlmCall c) w = (Inr s', w') \<and> step_result c s'"
    for c and w :: "'d world"
    by (auto simp: mw_defs Let_def split: option.split)
qed (simp_all add: mw_defs)

interpretation max_steps_mw: middleware_contract "max_steps_middleware n" for n
proof (rule step_only_contract)
  show "\<not> before_llm s \<Longrightarrow> on_step_start (max_steps_middleware n) s w = (Inr s, w)" for s w
    by (cases s) (simp_all add: mw_defs)
qed (auto simp: mw_defs)

interpretation turn_limit_mw: middleware_contract "turn_limit_middleware n" for n
proof (rule step_only_contract)
  show "\<not> before_llm s \<Longrightarrow> on_step_start (turn_limit_middleware n) s w = (Inr s, w)" for s w
    by (cases s) (simp_all add: mw_defs)
qed (auto simp: mw_defs)

interpretation price_limit_mw: middleware_contract "price_limit_middleware F p" for F p
proof (rule step_only_contract)
  show "\<not> before_llm s \<Longrightarrow> on_step_start (price_limit_middleware F p) s w = (Inr s, w)" for s w
    by (cases s) (simp_all add: mw_defs)
qed (auto simp: mw_defs Let_def)

section \<open>What the limits guarantee\<close>

lemma exceeds_iff: "exceeds l v \<longleftrightarrow> (\<exists>n. l = Some n \<and> n \<le> v)"
  by (auto simp: exceeds_def split: option.splits)

text \<open>The middleware lets a step through exactly when no limit is reached; otherwise the first limit
  reached, in the order steps, turns, price, names the stop.\<close>

lemma limits_step_outcome:
  "fst (on_step_start (limits_middleware F cache cfg a) (BeforeLlmCall ctx) w) =
    Inr (if exceeds (lc_max_steps cfg) (st_steps (ctx_stats ctx))
         then Stopped (step_message (the (lc_max_steps cfg))) StepLimit (Some ctx)
         else if exceeds (lc_max_turns cfg) (st_turns (ctx_stats ctx))
         then Stopped (turn_message (the (lc_max_turns cfg))) TurnLimit (Some ctx)
         else case price_exceeded F cache cfg ctx of
             Some (cost, maxp) \<Rightarrow> Stopped (price_message F cost maxp) PriceLimit (Some ctx)
           | None \<Rightarrow> BeforeLlmCall ctx)"
  by (auto simp: mw_defs Let_def split: option.split)

text \<open>Composing the single-limit middleware in the order steps, turns, price decides as
  \<^verbatim>\<open>LimitsMiddleware\<close> with manual pricing does.\<close>

lemma price_total_cost_manual:
  assumes "lc_model_info_source cfg = Manual c out t att r (Some (pl_input_cost_per_million p)) (Some (pl_output_cost_per_million p))"
  shows "total_cost F cache cfg stats ctx = Some (price_total_cost F p stats)"
  using assms by (simp add: total_cost_def price_total_cost_def calculate_cost_def Let_def)

lemma price_exceeded_manual:
  assumes "lc_model_info_source cfg = Manual c out t att r (Some (pl_input_cost_per_million p)) (Some (pl_output_cost_per_million p))"
    and "lc_max_price_usd cfg = Some (pl_max_cost p)"
  shows "price_exceeded F cache cfg ctx =
    (let cost = price_total_cost F p (ctx_stats ctx) in
     if f_lt F (pl_max_cost p) cost then Some (cost, pl_max_cost p) else None)"
  using assms(2) by (simp add: price_exceeded_def price_total_cost_manual [OF assms(1)] Let_def)

lemma split_limits_pipeline:
  "fst (run_phase Phase_StepStart
      [max_steps_middleware n, turn_limit_middleware t, price_limit_middleware F p] (BeforeLlmCall ctx) w) =
    Inr (if n \<le> st_steps (ctx_stats ctx) then Stopped (step_message n) StepLimit (Some ctx)
         else if t \<le> st_turns (ctx_stats ctx) then Stopped (turn_message t) TurnLimit (Some ctx)
         else let cost = price_total_cost F p (ctx_stats ctx) in
           if f_lt F (pl_max_cost p) cost
           then Stopped (price_message F cost (pl_max_cost p)) PriceLimit (Some ctx)
           else BeforeLlmCall ctx)"
  by (simp add: mw_defs Let_def)

lemma limits_factory_config:
  "limits_factory_create F cache a (Inr cfg) =
    (if lfc_enabled cfg
     then Inr (limits_middleware F cache \<lparr>lc_max_steps = lfc_max_steps cfg, lc_max_turns = lfc_max_turns cfg,
       lc_max_price_usd = lfc_max_price_usd cfg, lc_model_info_source = FromSession\<rparr> a)
     else Inl ''Middleware disabled'')"
  by (auto simp: limits_factory_create_def default_limits_config_def Let_def split: option.split)

section \<open>Equivalence of the combined and the split limits\<close>

text \<open>C24: With manual pricing and all three limits set, \<^verbatim>\<open>LimitsMiddleware\<close> decides every step as the
  pipeline of the three single-limit middleware does: same stop type, same message, same context,
  or both let the step through.\<close>

theorem limits_equiv_split:
  "fst (on_step_start (limits_middleware F cache \<lparr>lc_max_steps = Some n, lc_max_turns = Some t,
         lc_max_price_usd = Some maxp, lc_model_info_source = source_pricing source_manual i x\<rparr> a)
       (BeforeLlmCall ctx) w) =
   fst (run_step_start [max_steps_middleware n, turn_limit_middleware t,
         price_limit_middleware F \<lparr>pl_max_cost = maxp, pl_input_cost_per_million = i,
           pl_output_cost_per_million = x\<rparr>] (BeforeLlmCall ctx) w)"
  unfolding run_step_start_def split_limits_pipeline limits_step_outcome
  by (simp add: exceeds_def Let_def source_manual_def
      price_exceeded_manual [of _ "Some 32000" "Some 4096" True False False
        "\<lparr>pl_max_cost = maxp, pl_input_cost_per_million = i, pl_output_cost_per_million = x\<rparr>"])

end
