(* ===== verification/Context_Middleware.thy ===== *)
theory Context_Middleware
  imports Limits_Middleware
begin

text \<open>
  \<^verbatim>\<open>ContextMiddleware\<close> of \<^verbatim>\<open>crates/agent/src/middleware/context.rs\<close>: it asks for compaction when the
  context passes a threshold and warns once per session below it. Its cells (\<^verbatim>\<open>warned_sessions\<close>,
  \<^verbatim>\<open>last_model\<close>) are at an address \<open>a\<close> of the world. The thresholds are computed in floating point.
\<close>

record 'f context_config =
  cc_warn_at_percent :: u32
  cc_compact_at_percent :: u32
  cc_auto_compact :: bool
  cc_context_source :: "'f model_info_source"
  cc_fallback_max_tokens :: usize

definition default_context_config :: "'f context_config" where
  "default_context_config = \<lparr>cc_warn_at_percent = 80, cc_compact_at_percent = 85, cc_auto_compact = True,
     cc_context_source = FromSession, cc_fallback_max_tokens = 32000\<rparr>"

text \<open>The builder \<^verbatim>\<open>compact_at_percent\<close> asserts; a failed assertion panics (\<open>None\<close>).\<close>

definition set_compact_at_percent :: "'f context_config \<Rightarrow> u32 \<Rightarrow> 'f context_config option" where
  "set_compact_at_percent cfg p =
    (if cc_warn_at_percent cfg < p then Some (cfg\<lparr>cc_compact_at_percent := p\<rparr>) else None)"

definition get_max_tokens ::
    "'f providers_registry option \<Rightarrow> 'f context_config \<Rightarrow> 'f conversation_context \<Rightarrow> usize" where
  "get_max_tokens cache cfg ctx =
    (case cc_context_source cfg of
       FromSession \<Rightarrow>
         (case Option.bind (get_model_info cache (ctx_provider ctx) (ctx_model ctx)) context_limit of
            Some c \<Rightarrow> c | None \<Rightarrow> cc_fallback_max_tokens cfg)
     | Manual cl _ _ _ _ _ _ \<Rightarrow> (case cl of Some c \<Rightarrow> c | None \<Rightarrow> cc_fallback_max_tokens cfg))"

definition ctx_check_provider_changed :: "nat \<Rightarrow> 'f conversation_context \<Rightarrow> 'db world \<Rightarrow> 'db world" where
  "ctx_check_provider_changed a ctx w =
    (let current = (ctx_provider ctx, ctx_model ctx) in
     if w_last_model w a \<noteq> Some current
     then w\<lparr>w_warned := (w_warned w)(a := {}), w_last_model := (w_last_model w)(a := Some current)\<rparr>
     else w)"

definition percent_threshold :: "'f f64_ops \<Rightarrow> usize \<Rightarrow> u32 \<Rightarrow> usize" where
  "percent_threshold F max_tokens pct =
    f_to_u64 F (f_mul F (f_of_nat F (unat max_tokens)) (f_div F (f_of_nat F (unat (min pct 100))) (f_of_nat F 100)))"

definition warning_text :: "'f f64_ops \<Rightarrow> usize \<Rightarrow> usize \<Rightarrow> string" where
  "warning_text F cur mx =
    ''Warning: context usage is at ''
      @ f_fmt F 0 (f_mul F (f_div F (f_of_nat F (unat cur)) (f_of_nat F (unat mx))) (f_of_nat F 100))
      @ ''% ('' @ show_usize cur @ '' / '' @ show_usize mx @ '' tokens)''"

definition should_warn ::
    "'f f64_ops \<Rightarrow> 'f context_config \<Rightarrow> nat \<Rightarrow> string \<Rightarrow> usize \<Rightarrow> usize \<Rightarrow> 'db world \<Rightarrow> string option \<times> 'db world" where
  "should_warn F cfg a sid cur mx w =
    (if mx = 0 \<or> cc_warn_at_percent cfg = 0 then (None, w)
     else if sid \<in> w_warned w a then (None, w)
     else if cur < percent_threshold F mx (cc_warn_at_percent cfg) then (None, w)
     else (Some (warning_text F cur mx), w\<lparr>w_warned := (w_warned w)(a := insert sid (w_warned w a))\<rparr>))"

definition compaction_message :: "usize \<Rightarrow> usize \<Rightarrow> u32 \<Rightarrow> string" where
  "compaction_message cur mx pct = ''Context token threshold ('' @ show_usize cur @ '' / '' @ show_usize mx
     @ '' tokens, '' @ show_nat (unat pct) @ ''%) reached, requesting compaction''"

definition context_on_step_start ::
    "'f f64_ops \<Rightarrow> 'f providers_registry option \<Rightarrow> 'f context_config \<Rightarrow> nat \<Rightarrow> ('f, 'b, 't, 'db world) hook" where
  "context_on_step_start F cache cfg a s w =
    (case s of
       BeforeLlmCall ctx \<Rightarrow>
         (let w1 = ctx_check_provider_changed a ctx w;
              mx = get_max_tokens cache cfg ctx;
              cur = st_context_tokens (ctx_stats ctx)
          in if mx = 0 then (Inr s, w1)
             else if cc_auto_compact cfg \<and> percent_threshold F mx (cc_compact_at_percent cfg) \<le> cur
             then (Inr (Stopped (compaction_message cur mx (cc_compact_at_percent cfg)) ContextThreshold (Some ctx)), w1)
             else (case should_warn F cfg a (ctx_session_id ctx) cur mx w1 of
                 (Some warning, w2) \<Rightarrow> (Inr (BeforeLlmCall (inject_message ctx warning)), w2)
               | (None, w2) \<Rightarrow> (Inr s, w2)))
     | _ \<Rightarrow> (Inr s, w))"

definition context_reset :: "nat \<Rightarrow> 'db world \<Rightarrow> 'db world" where
  "context_reset a w = w\<lparr>w_warned := (w_warned w)(a := {}), w_last_model := (w_last_model w)(a := None)\<rparr>"

definition context_middleware ::
    "'f f64_ops \<Rightarrow> 'f providers_registry option \<Rightarrow> 'f context_config \<Rightarrow> nat \<Rightarrow> ('f, 'b, 't, 'db world) driver" where
  "context_middleware F cache cfg a = (default_driver ''ContextMiddleware'')\<lparr>
     on_step_start := context_on_step_start F cache cfg a, drv_reset := context_reset a\<rparr>"

section \<open>The factory and the presets\<close>

record context_factory_config =
  cfc_enabled :: bool
  cfc_warn_at_percent :: u32
  cfc_compact_at_percent :: u32
  cfc_fallback_max_tokens :: usize

definition context_factory_create :: "(string + context_factory_config) \<Rightarrow> bool \<Rightarrow> string + 'f context_config" where
  "context_factory_create parsed auto =
    (case parsed of Inl e \<Rightarrow> Inl e
     | Inr cfg \<Rightarrow>
        if \<not> cfc_enabled cfg then Inl ''Middleware disabled''
        else if cfc_compact_at_percent cfg \<le> cfc_warn_at_percent cfg
        then Inl (''context middleware: warn_at_percent ('' @ show_nat (unat (cfc_warn_at_percent cfg))
          @ '') must be less than compact_at_percent ('' @ show_nat (unat (cfc_compact_at_percent cfg)) @ '')'')
        else Inr \<lparr>cc_warn_at_percent = cfc_warn_at_percent cfg, cc_compact_at_percent = cfc_compact_at_percent cfg,
          cc_auto_compact = auto, cc_context_source = FromSession,
          cc_fallback_max_tokens = cfc_fallback_max_tokens cfg\<rparr>)"

text \<open>\<^verbatim>\<open>crates/agent/src/middleware/presets.rs\<close>: each preset allocates its middleware at fresh
  addresses, here \<open>a\<close> and \<open>Suc a\<close>.\<close>

definition preset_defaults ::
    "'f f64_ops \<Rightarrow> 'f providers_registry option \<Rightarrow> nat \<Rightarrow> ('f, 'b, 't, 'db world) driver list" where
  "preset_defaults F cache a =
    [limits_middleware F cache \<lparr>lc_max_steps = Some 100, lc_max_turns = Some 20, lc_max_price_usd = None,
       lc_model_info_source = FromSession\<rparr> a,
     context_middleware F cache \<lparr>cc_warn_at_percent = 80, cc_compact_at_percent = 85, cc_auto_compact = True,
       cc_context_source = FromSession, cc_fallback_max_tokens = 32000\<rparr> (Suc a)]"

definition preset_cost_conscious ::
    "'f f64_ops \<Rightarrow> 'f providers_registry option \<Rightarrow> nat \<Rightarrow> ('f, 'b, 't, 'db world) driver list" where
  "preset_cost_conscious F cache a =
    [limits_middleware F cache \<lparr>lc_max_steps = Some 50, lc_max_turns = Some 10, lc_max_price_usd = None,
       lc_model_info_source = FromSession\<rparr> a,
     context_middleware F cache \<lparr>cc_warn_at_percent = 70, cc_compact_at_percent = 85, cc_auto_compact = True,
       cc_context_source = FromSession, cc_fallback_max_tokens = 16000\<rparr> (Suc a)]"

definition preset_performance ::
    "'f f64_ops \<Rightarrow> 'f providers_registry option \<Rightarrow> nat \<Rightarrow> ('f, 'b, 't, 'db world) driver list" where
  "preset_performance F cache a =
    [limits_middleware F cache \<lparr>lc_max_steps = None, lc_max_turns = None, lc_max_price_usd = None,
       lc_model_info_source = FromSession\<rparr> a]"

definition preset_manual ::
    "'f f64_ops \<Rightarrow> 'f providers_registry option \<Rightarrow> nat \<Rightarrow> usize \<Rightarrow> 'f \<Rightarrow> 'f \<Rightarrow> ('f, 'b, 't, 'db world) driver list" where
  "preset_manual F cache a climit inc outc =
    (let src = source_pricing (source_context_limit source_manual climit) inc outc in
    [limits_middleware F cache \<lparr>lc_max_steps = Some 100, lc_max_turns = Some 20, lc_max_price_usd = None,
       lc_model_info_source = src\<rparr> a,
     context_middleware F cache \<lparr>cc_warn_at_percent = 80, cc_compact_at_percent = 85, cc_auto_compact = True,
       cc_context_source = src, cc_fallback_max_tokens = climit\<rparr> (Suc a)])"

section \<open>The contract\<close>

lemmas context_hooks [mw_defs] = context_middleware_def context_on_step_start_def

interpretation context_mw: middleware_contract "context_middleware F cache cfg a" for F cache cfg a
proof (rule step_only_contract)
  show "\<not> before_llm s \<Longrightarrow> on_step_start (context_middleware F cache cfg a) s w = (Inr s, w)" for s and w :: "'d world"
    by (cases s) (simp_all add: mw_defs)
  show "\<exists>s' w'. on_step_start (context_middleware F cache cfg a) (BeforeLlmCall c) w = (Inr s', w') \<and> step_result c s'"
    for c and w :: "'d world"
    by (auto simp: mw_defs Let_def split: option.split prod.split)
qed (simp_all add: mw_defs)

lemma preset_contract:
  "d \<in> set (preset_defaults F cache a) \<Longrightarrow> middleware_contract d"
  "d \<in> set (preset_cost_conscious F cache a) \<Longrightarrow> middleware_contract d"
  "d \<in> set (preset_performance F cache a) \<Longrightarrow> middleware_contract d"
  "d \<in> set (preset_manual F cache a n i x) \<Longrightarrow> middleware_contract d"
  by (auto simp: preset_defaults_def preset_cost_conscious_def preset_performance_def preset_manual_def Let_def
      intro: limits_mw.middleware_contract_axioms context_mw.middleware_contract_axioms)

section \<open>Warnings\<close>

lemma should_warn_None_world: "should_warn F cfg a sid cur mx w = (None, w') \<Longrightarrow> w' = w"
  by (auto simp: should_warn_def split: if_splits)

lemma should_warn_marks: "should_warn F cfg a sid cur mx w = (Some t, w') \<Longrightarrow> sid \<in> w_warned w' a"
  by (auto simp: should_warn_def split: if_splits)

lemma should_warn_once: "sid \<in> w_warned w a \<Longrightarrow> should_warn F cfg a sid cur mx w = (None, w)"
  by (simp add: should_warn_def)

lemma should_warn_frame:
  "should_warn F cfg a sid cur mx w = (r, w') \<Longrightarrow>
     w_last_model w' = w_last_model w \<and> w_db w' = w_db w \<and> w_now w' = w_now w \<and> w_last_check w' = w_last_check w
     \<and> (\<forall>b. b \<noteq> a \<longrightarrow> w_warned w' b = w_warned w b)"
  by (auto simp: should_warn_def split: if_splits)

lemma ctx_check_provider_idle:
  "w_last_model w a = Some (ctx_provider ctx, ctx_model ctx) \<Longrightarrow> ctx_check_provider_changed a ctx w = w"
  by (simp add: ctx_check_provider_changed_def)

lemma ctx_check_provider_last [simp]:
  "w_last_model (ctx_check_provider_changed a ctx w) a = Some (ctx_provider ctx, ctx_model ctx)"
  by (auto simp: ctx_check_provider_changed_def Let_def)

text \<open>After a step that injected a warning, the session is marked and the provider is the last one
  seen; as long as both stay so, later steps of the session inject nothing.\<close>

lemma context_step_marks:
  assumes "on_step_start (context_middleware F cache cfg a) (BeforeLlmCall ctx) w = (Inr (BeforeLlmCall ctx'), w')"
    and "ctx' \<noteq> ctx"
  shows "ctx_session_id ctx \<in> w_warned w' a"
    and "w_last_model w' a = Some (ctx_provider ctx, ctx_model ctx)"
proof -
  let ?w1 = "ctx_check_provider_changed a ctx w"
  obtain t where sw: "should_warn F cfg a (ctx_session_id ctx) (st_context_tokens (ctx_stats ctx))
      (get_max_tokens cache cfg ctx) ?w1 = (Some t, w')"
    using assms by (auto simp: mw_defs Let_def split: if_splits option.splits prod.splits)
  then show "ctx_session_id ctx \<in> w_warned w' a" by (rule should_warn_marks)
  from should_warn_frame [OF sw] have "w_last_model w' = w_last_model ?w1" by simp
  then show "w_last_model w' a = Some (ctx_provider ctx, ctx_model ctx)" by simp
qed

lemma context_step_silent:
  assumes "ctx_session_id ctx \<in> w_warned w a"
    and "w_last_model w a = Some (ctx_provider ctx, ctx_model ctx)"
    and "on_step_start (context_middleware F cache cfg a) (BeforeLlmCall ctx) w = (Inr (BeforeLlmCall ctx'), w')"
  shows "ctx' = ctx \<and> w' = w"
  using assms(3)
  by (auto simp: mw_defs Let_def ctx_check_provider_idle [OF assms(2)] should_warn_once [OF assms(1)]
      split: if_splits)

section \<open>At most one warning\<close>

text \<open>The step hook run over the contexts of successive steps, the world threaded through; the
  result tells for each step whether a warning was injected.\<close>

fun step_warnings ::
    "('f, 'b, 't, 'db world) driver \<Rightarrow> 'f conversation_context list \<Rightarrow> 'db world \<Rightarrow> bool list" where
  "step_warnings d [] w = []"
| "step_warnings d (c # cs) w =
    (let (r, w') = on_step_start d (BeforeLlmCall c) w in
     (case r of Inr (BeforeLlmCall c') \<Rightarrow> c' \<noteq> c | _ \<Rightarrow> False) # step_warnings d cs w')"

lemma context_step_marked:
  assumes "ctx_session_id c \<in> w_warned w a" and "w_last_model w a = Some (ctx_provider c, ctx_model c)"
  shows "\<exists>s. on_step_start (context_middleware F cache cfg a) (BeforeLlmCall c) w = (Inr s, w)
    \<and> (\<forall>c'. s = BeforeLlmCall c' \<longrightarrow> c' = c)"
  using assms
  by (simp add: mw_defs Let_def ctx_check_provider_idle should_warn_once)

lemma step_warnings_silent:
  assumes "\<forall>c \<in> set cs. ctx_session_id c = sid \<and> ctx_provider c = p \<and> ctx_model c = m"
    and "sid \<in> w_warned w a" and "w_last_model w a = Some (p, m)"
  shows "True \<notin> set (step_warnings (context_middleware F cache cfg a :: ('f, 'b, 't, 'db world) driver) cs w)"
  using assms(1)
proof (induction cs)
  case Nil
  then show ?case by simp
next
  case (Cons c cs)
  with assms obtain s :: "('f, 'b, 't) execution_state" where
    "on_step_start (context_middleware F cache cfg a) (BeforeLlmCall c) w = (Inr s, w)"
    "\<forall>c'. s = BeforeLlmCall c' \<longrightarrow> c' = c"
    using context_step_marked [of c w a F cache cfg] by auto
  with Cons show ?case by (auto split: execution_state.splits)
qed

text \<open>C25: Over any sequence of steps of one session with one provider and model, from any state of the
  middleware, \<^verbatim>\<open>ContextMiddleware\<close> injects its usage warning at most once.\<close>

theorem context_warns_at_most_once:
  fixes F :: "'f f64_ops" and w :: "'db world"
  assumes "\<forall>c \<in> set cs. ctx_session_id c = sid \<and> ctx_provider c = p \<and> ctx_model c = m"
  shows "count_list (step_warnings (context_middleware F cache cfg a :: ('f, 'b, 't, 'db world) driver) cs w) True \<le> 1"
  using assms
proof (induction cs arbitrary: w)
  case Nil
  then show ?case by simp
next
  case (Cons c cs)
  let ?d = "context_middleware F cache cfg a :: ('f, 'b, 't, 'db world) driver"
  obtain s' w' where h: "on_step_start ?d (BeforeLlmCall c) w = (Inr s', w')"
    using context_mw.step_before [of F cache cfg a c w] by blast
  show ?case
  proof (cases "\<exists>c'. s' = BeforeLlmCall c' \<and> c' \<noteq> c")
    case True
    then obtain c' where c': "s' = BeforeLlmCall c'" "c' \<noteq> c" by blast
    from context_step_marks [OF h [unfolded c'(1)] c'(2)] Cons.prems
    have "True \<notin> set (step_warnings ?d cs w')"
      by (intro step_warnings_silent [of cs sid p m]) auto
    then have "count_list (step_warnings ?d cs w') True = 0"
      by simp
    with h show ?thesis by simp
  next
    case False
    with h Cons.IH [of w'] Cons.prems show ?thesis by (auto split: execution_state.split)
  qed
qed

definition demo_context :: "usize \<Rightarrow> rat conversation_context" where
  "demo_context n = new_context ''s'' [] ((default_stats rat_ops)\<lparr>st_context_tokens := n\<rparr>) ''p'' ''m''"

definition demo_world :: "unit world" where
  "demo_world = \<lparr>w_last_model = \<lambda>_. None, w_warned = \<lambda>_. {}, w_last_check = \<lambda>_. Map.empty, w_now = 0, w_db = ()\<rparr>"

theorem context_warns_at_most_once_witness:
  "let d = (context_middleware rat_ops None default_context_config 0 :: (rat, unit, unit, unit world) driver);
       ws = step_warnings d [demo_context 26000, demo_context 26500] demo_world
   in ws = [True, False] \<and> count_list ws True \<le> 1"
proof -
  have "step_warnings (context_middleware rat_ops None default_context_config 0 :: (rat, unit, unit, unit world) driver)
      [demo_context 26000, demo_context 26500] demo_world = [True, False]"
    by (simp add: mw_defs Let_def demo_context_def demo_world_def new_context_def get_max_tokens_def
        default_context_config_def get_model_info_def ctx_check_provider_changed_def percent_threshold_def
        rat_ops_def should_warn_def inject_message_def default_stats_def min_def max_def)
  with context_warns_at_most_once [of "[demo_context 26000, demo_context 26500]" "''s''" "''p''" "''m''"
      rat_ops None default_context_config 0 demo_world]
  show ?thesis by (simp add: demo_context_def new_context_def)
qed

end
