(* ===== verification/Delegation_Middleware.thy ===== *)
theory Delegation_Middleware
  imports Limits_Middleware
begin

text \<open>
  The delegation middleware: \<^verbatim>\<open>DelegationMiddleware\<close> and \<^verbatim>\<open>DelegationContextMiddleware\<close>
  (\<^verbatim>\<open>crates/agent/src/middleware/delegation.rs\<close>), which tell the model about the agents it can delegate
  to and block duplicate delegations, and \<^verbatim>\<open>DelegationGuardMiddleware\<close>
  (\<^verbatim>\<open>crates/agent/src/middleware/delegation_guard.rs\<close>). The hash of an objective (the rapidhash crate)
  and the JSON parser are arguments, as are the session store and the agent registry's list.
\<close>

datatype delegation_context_timing = FirstTurnOnly | EveryTurn | Disabled

record agent_info =
  ai_id :: string
  ai_name :: string
  ai_description :: string
  ai_capabilities :: "string list"

record delegation_config =
  dc_context_timing :: delegation_context_timing
  dc_prevent_duplicates :: bool
  dc_auto_inject :: bool

definition default_delegation_config :: delegation_config where
  "default_delegation_config = \<lparr>dc_context_timing = FirstTurnOnly, dc_prevent_duplicates = False, dc_auto_inject = True\<rparr>"

section \<open>Telling the model about the agents\<close>

definition agent_section :: "agent_info \<Rightarrow> string" where
  "agent_section ag =
    ''### '' @ ai_name ag @ '' (`'' @ ai_id ag @ ''`)'' @ nl @
    ''**Description:** '' @ ai_description ag @ nl @
    (if ai_capabilities ag = [] then [] else ''**Capabilities:** '' @ str_join '', '' (ai_capabilities ag) @ nl) @ nl"

definition format_agent_context :: "agent_info list \<Rightarrow> string" where
  "format_agent_context agents =
    (if agents = [] then []
     else ''## Available Agents for Delegation'' @ nl @ nl @
       ''You have access to the following specialized agents via the `delegate` tool:'' @ nl @ nl @
       concat (map agent_section agents) @
       ''Use the `delegate` tool to assign tasks to these agents when their expertise is needed.'' @ nl)"

definition timing_injects :: "delegation_context_timing \<Rightarrow> 'f conversation_context \<Rightarrow> bool" where
  "timing_injects timing ctx =
    (case timing of FirstTurnOnly \<Rightarrow> st_turns (ctx_stats ctx) = 1 | EveryTurn \<Rightarrow> True | Disabled \<Rightarrow> False)"

definition should_inject :: "delegation_config \<Rightarrow> 'f conversation_context \<Rightarrow> bool" where
  "should_inject cfg ctx = (if \<not> dc_auto_inject cfg then False else timing_injects (dc_context_timing cfg) ctx)"

definition dm_on_turn_start :: "delegation_config \<Rightarrow> agent_info list \<Rightarrow> ('f, 'b, 't, 'w) hook" where
  "dm_on_turn_start cfg agents s w =
    (case s of
       BeforeLlmCall ctx \<Rightarrow>
         (if should_inject cfg ctx then
            (let message = format_agent_context agents in
             if message \<noteq> [] then (Inr (BeforeLlmCall (inject_message ctx message)), w) else (Inr s, w))
          else (Inr s, w))
     | _ \<Rightarrow> (Inr s, w))"

definition dcm_on_turn_start :: "delegation_context_timing \<Rightarrow> agent_info list \<Rightarrow> ('f, 'b, 't, 'w) hook" where
  "dcm_on_turn_start timing agents s w =
    (case s of
       BeforeLlmCall ctx \<Rightarrow>
         (if timing_injects timing ctx then
            (let message = format_agent_context agents in
             if message \<noteq> [] then (Inr (BeforeLlmCall (inject_message ctx message)), w) else (Inr s, w))
          else (Inr s, w))
     | _ \<Rightarrow> (Inr s, w))"

definition delegation_context_middleware ::
    "delegation_context_timing \<Rightarrow> agent_info list \<Rightarrow> ('f, 'b, 't, 'w) driver" where
  "delegation_context_middleware timing agents = (default_driver ''DelegationContextMiddleware'')\<lparr>
     on_turn_start := dcm_on_turn_start timing agents\<rparr>"

section \<open>Blocking duplicate delegations\<close>

fun status_debug :: "delegation_status \<Rightarrow> string" where
  "status_debug Del_Requested = ''Requested''"
| "status_debug Del_Running = ''Running''"
| "status_debug Del_Complete = ''Complete''"
| "status_debug Del_Failed = ''Failed''"
| "status_debug Del_Cancelled = ''Cancelled''"

definition duplicate_text :: "string \<Rightarrow> string \<Rightarrow> delegation_status \<Rightarrow> string" where
  "duplicate_text target del_ident st =
    warning_sign @ '' DUPLICATE DELEGATION BLOCKED'' @ nl @ nl @
    ''A delegation with the same objective to '' @ sq @ target @ sq @ '' is already in progress.'' @ nl @
    ''Delegation ID: '' @ del_ident @ nl @ ''Status: '' @ status_debug st @ nl @ nl @
    ''Please wait for the current delegation to complete before retrying.''"

definition max_retries_text :: "u32 \<Rightarrow> u32 \<Rightarrow> string \<Rightarrow> string" where
  "max_retries_text count limit del_ident =
    warning_sign @ '' MAX RETRIES EXCEEDED'' @ nl @ nl @
    ''This delegation has failed '' @ show_nat (unat count) @ '' times (limit: '' @ show_nat (unat limit) @ '').'' @ nl @
    ''Previous delegation ID: '' @ del_ident @ nl @ nl @
    ''The task appears to be stuck. Please:'' @ nl @
    ''1. Review why previous attempts failed (check error messages)'' @ nl @
    ''2. Modify your approach or break down the task differently'' @ nl @
    ''3. Consider delegating to a different agent'' @ nl @
    ''4. Try a different strategy entirely''"

definition too_soon_text :: "int \<Rightarrow> int \<Rightarrow> string" where
  "too_soon_text elapsed window =
    warning_sign @ '' RETRY TOO SOON'' @ nl @ nl @
    ''Previous delegation failed '' @ show_int elapsed @ '' seconds ago.'' @ nl @
    ''Please wait at least '' @ show_int window @ '' seconds before retrying.'' @ nl @ nl @
    ''Suggestion: Analyze the failure before immediately retrying.''"

text \<open>One iteration of the loop over the delegations: the message that blocks, if any. The two
  middleware print different identifiers, \<open>ident\<close>.\<close>

definition delegation_block ::
    "(delegation \<Rightarrow> string) \<Rightarrow> u32 \<Rightarrow> int \<Rightarrow> int \<Rightarrow> u64 \<Rightarrow> string \<Rightarrow> delegation \<Rightarrow> string option" where
  "delegation_block ident max_retries window now oh target del =
    (if del_objective_hash del = oh \<and> del_target_agent_id del = target then
       (case del_status del of
          Del_Running \<Rightarrow> Some (duplicate_text target (ident del) (del_status del))
        | Del_Requested \<Rightarrow> Some (duplicate_text target (ident del) (del_status del))
        | Del_Failed \<Rightarrow>
            (if max_retries \<le> del_retry_count del
             then Some (max_retries_text (del_retry_count del) max_retries (ident del))
             else (case del_completed_at del of
                 None \<Rightarrow> None
               | Some completed \<Rightarrow>
                   (let elapsed = whole_seconds (now - completed) in
                    if elapsed < window then Some (too_soon_text elapsed window) else None)))
        | Del_Complete \<Rightarrow> None
        | Del_Cancelled \<Rightarrow> None)
     else None)"

definition dm_check_delegation_allowed ::
    "('f, 'b, 'db) session_store \<Rightarrow> u32 \<Rightarrow> int \<Rightarrow> string \<Rightarrow> u64 \<Rightarrow> string \<Rightarrow> 'db world \<Rightarrow> string option" where
  "dm_check_delegation_allowed store max_retries window sid oh target w =
    (case ss_list_delegations store sid (w_db w) of
       Inl _ \<Rightarrow> None
     | Inr dels \<Rightarrow>
         first_defined (delegation_block (\<lambda>d. show_int (del_id d)) max_retries window (w_now w) oh target) dels)"

definition guard_check_delegation_allowed ::
    "('f, 'b, 'db) session_store \<Rightarrow> u32 \<Rightarrow> int \<Rightarrow> string \<Rightarrow> u64 \<Rightarrow> string \<Rightarrow> 'db world \<Rightarrow> string option" where
  "guard_check_delegation_allowed store max_retries window sid oh target w =
    (case ss_list_delegations store sid (w_db w) of
       Inl _ \<Rightarrow> None
     | Inr dels \<Rightarrow>
         first_defined (delegation_block del_public_id max_retries window (w_now w) oh target) dels)"

text \<open>The target and objective of a \<open>delegate\<close> tool call, when both are present and not empty.\<close>

definition str_field :: "json \<Rightarrow> string \<Rightarrow> string" where
  "str_field v k = (case Option.bind (json_get v k) json_as_str of Some s \<Rightarrow> s | None \<Rightarrow> [])"

definition delegate_args :: "(string \<Rightarrow> json option) \<Rightarrow> ('f, 'b) message_part \<Rightarrow> (string \<times> string) option" where
  "delegate_args parse part =
    (case part of
       Part_ToolUse tc \<Rightarrow>
         (if fc_name (tc_function tc) = ''delegate'' then
            (case parse (fc_arguments (tc_function tc)) of
               None \<Rightarrow> None
             | Some args \<Rightarrow>
                 (let target = str_field args ''target_agent_id''; objective = str_field args ''objective'' in
                  if target \<noteq> [] \<and> objective \<noteq> [] then Some (target, objective) else None))
          else None)
     | _ \<Rightarrow> None)"

text \<open>The loop over the parts of the last assistant message: the first part that is blocked.\<close>

definition first_blocked ::
    "(u64 \<Rightarrow> string \<Rightarrow> string option) \<Rightarrow> (string \<Rightarrow> u64) \<Rightarrow> (string \<Rightarrow> json option)
     \<Rightarrow> ('f, 'b) message_part list \<Rightarrow> string option" where
  "first_blocked check hash parse parts =
    first_defined (\<lambda>p. case delegate_args parse p of
        None \<Rightarrow> None | Some (target, objective) \<Rightarrow> check (hash objective) target) parts"

record ('f, 'b, 'db) delegation_mw =
  dmw_config :: delegation_config
  dmw_agents :: "agent_info list"
  dmw_store :: "('f, 'b, 'db) session_store"
  dmw_max_retries :: u32
  dmw_duplicate_window_secs :: int

definition new_delegation_mw ::
    "('f, 'b, 'db) session_store \<Rightarrow> agent_info list \<Rightarrow> delegation_config \<Rightarrow> ('f, 'b, 'db) delegation_mw" where
  "new_delegation_mw store agents cfg = \<lparr>dmw_config = cfg, dmw_agents = agents, dmw_store = store,
     dmw_max_retries = 3, dmw_duplicate_window_secs = 5\<rparr>"

definition dm_on_after_llm ::
    "(string \<Rightarrow> u64) \<Rightarrow> (string \<Rightarrow> json option) \<Rightarrow> ('f, 'b, 'db) delegation_mw \<Rightarrow> ('f, 'b, 't, 'db world) hook" where
  "dm_on_after_llm hash parse m s w =
    (case s of
       AfterLlm r ctx \<Rightarrow>
         (if \<not> dc_prevent_duplicates (dmw_config m) then (Inr s, w)
          else (case ss_get_history (dmw_store m) (ctx_session_id ctx) (w_db w) of
              Inl _ \<Rightarrow> (Inr s, w)
            | Inr history \<Rightarrow>
                (if history = [] then (Inr s, w)
                 else if am_role (last history) \<noteq> Assistant then (Inr s, w)
                 else (case first_blocked
                        (\<lambda>oh target. dm_check_delegation_allowed (dmw_store m) (dmw_max_retries m)
                           (dmw_duplicate_window_secs m) (ctx_session_id ctx) oh target w)
                        hash parse (am_parts (last history)) of
                     Some warning \<Rightarrow> (Inr (Stopped warning DelegationBlocked (Some ctx)), w)
                   | None \<Rightarrow> (Inr s, w)))))
     | _ \<Rightarrow> (Inr s, w))"

definition delegation_middleware ::
    "(string \<Rightarrow> u64) \<Rightarrow> (string \<Rightarrow> json option) \<Rightarrow> ('f, 'b, 'db) delegation_mw \<Rightarrow> ('f, 'b, 't, 'db world) driver" where
  "delegation_middleware hash parse m = (default_driver ''DelegationMiddleware'')\<lparr>
     on_turn_start := dm_on_turn_start (dmw_config m) (dmw_agents m),
     on_after_llm := dm_on_after_llm hash parse m\<rparr>"

section \<open>The guard\<close>

record ('f, 'b, 'db) delegation_guard =
  dg_store :: "('f, 'b, 'db) session_store"
  dg_max_retries :: u32
  dg_duplicate_window_secs :: int

definition new_delegation_guard :: "('f, 'b, 'db) session_store \<Rightarrow> ('f, 'b, 'db) delegation_guard" where
  "new_delegation_guard store = \<lparr>dg_store = store, dg_max_retries = 3, dg_duplicate_window_secs = 5\<rparr>"

text \<open>The source builds a context with the warning and drops it (\<^verbatim>\<open>_new_context\<close>).\<close>

definition guard_on_after_llm ::
    "(string \<Rightarrow> u64) \<Rightarrow> (string \<Rightarrow> json option) \<Rightarrow> ('f, 'b, 'db) delegation_guard \<Rightarrow> ('f, 'b, 't, 'db world) hook" where
  "guard_on_after_llm hash parse g s w =
    (case s of
       AfterLlm r ctx \<Rightarrow>
         (case ss_get_history (dg_store g) (ctx_session_id ctx) (w_db w) of
            Inl _ \<Rightarrow> (Inr s, w)
          | Inr history \<Rightarrow>
              (if history = [] then (Inr s, w)
               else if am_role (last history) \<noteq> Assistant then (Inr s, w)
               else (case first_blocked
                      (\<lambda>oh target. guard_check_delegation_allowed (dg_store g) (dg_max_retries g)
                         (dg_duplicate_window_secs g) (ctx_session_id ctx) oh target w)
                      hash parse (am_parts (last history)) of
                   Some warning \<Rightarrow> (Inr (Stopped ''Delegation blocked by guard'' DelegationBlocked (Some ctx)), w)
                 | None \<Rightarrow> (Inr s, w))))
     | _ \<Rightarrow> (Inr s, w))"

definition delegation_guard_middleware ::
    "(string \<Rightarrow> u64) \<Rightarrow> (string \<Rightarrow> json option) \<Rightarrow> ('f, 'b, 'db) delegation_guard \<Rightarrow> ('f, 'b, 't, 'db world) driver" where
  "delegation_guard_middleware hash parse g = (default_driver ''DelegationGuardMiddleware'')\<lparr>
     on_after_llm := guard_on_after_llm hash parse g\<rparr>"

section \<open>The contract\<close>

lemmas delegation_hooks [mw_defs] = delegation_middleware_def dm_on_turn_start_def dm_on_after_llm_def
  delegation_context_middleware_def dcm_on_turn_start_def delegation_guard_middleware_def guard_on_after_llm_def

interpretation delegation_mw: middleware_contract "delegation_middleware hash parse m" for hash parse m
proof (unfold_locales, goal_cases)
  case (1 s w) then show ?case by (cases s) (simp_all add: mw_defs)
next
  case (2 c w) show ?case by (auto simp: mw_defs Let_def)
next
  case (5 s w) then show ?case by (cases s) (simp_all add: mw_defs)
next
  case (6 r c w) show ?case by (auto simp: mw_defs split: sum.split option.split)
qed (simp_all add: mw_defs)

interpretation delegation_context_mw: middleware_contract "delegation_context_middleware timing agents" for timing agents
proof (unfold_locales, goal_cases)
  case (1 s w) then show ?case by (cases s) (simp_all add: mw_defs)
next
  case (2 c w) show ?case by (auto simp: mw_defs Let_def)
qed (simp_all add: mw_defs)

interpretation delegation_guard_mw: middleware_contract "delegation_guard_middleware hash parse g" for hash parse g
proof (unfold_locales, goal_cases)
  case (5 s w) then show ?case by (cases s) (simp_all add: mw_defs)
next
  case (6 r c w) show ?case by (auto simp: mw_defs split: sum.split option.split)
qed (simp_all add: mw_defs)

section \<open>When a delegation is blocked\<close>

text \<open>The condition of \<open>delegation_block\<close> without the message.\<close>

definition blocks :: "u32 \<Rightarrow> int \<Rightarrow> int \<Rightarrow> u64 \<Rightarrow> string \<Rightarrow> delegation \<Rightarrow> bool" where
  "blocks max_retries window now oh target d \<longleftrightarrow>
     del_objective_hash d = oh \<and> del_target_agent_id d = target \<and>
     (del_status d \<in> {Del_Running, Del_Requested} \<or>
      del_status d = Del_Failed \<and>
        (max_retries \<le> del_retry_count d \<or>
         (\<exists>c. del_completed_at d = Some c \<and> whole_seconds (now - c) < window)))"

lemma delegation_block_iff:
  "delegation_block ident mr wd now oh target d \<noteq> None \<longleftrightarrow> blocks mr wd now oh target d"
  by (cases "del_status d") (auto simp: delegation_block_def blocks_def Let_def split: option.split if_splits)

lemma delegation_block_None:
  "delegation_block ident mr wd now oh target d = None \<longleftrightarrow> \<not> blocks mr wd now oh target d"
  using delegation_block_iff by blast

lemma dm_check_None:
  "dm_check_delegation_allowed store mr wd sid oh target w = None \<longleftrightarrow>
    (case ss_list_delegations store sid (w_db w) of Inl _ \<Rightarrow> True
     | Inr dels \<Rightarrow> \<forall>d \<in> set dels. \<not> blocks mr wd (w_now w) oh target d)"
  by (simp add: dm_check_delegation_allowed_def first_defined_None delegation_block_None split: sum.split)

text \<open>The two middleware block the same delegations; only the identifier in the message differs.\<close>

lemma guard_check_None:
  "guard_check_delegation_allowed store mr wd sid oh target w = None \<longleftrightarrow>
   dm_check_delegation_allowed store mr wd sid oh target w = None"
  by (simp add: dm_check_None)
    (simp add: guard_check_delegation_allowed_def first_defined_None delegation_block_None split: sum.split)

end
