(* ===== verification/Task_Middleware.thy ===== *)
theory Task_Middleware
  imports Limits_Middleware
begin

text \<open>
  \<^verbatim>\<open>TaskAutoCompletionMiddleware\<close> and \<^verbatim>\<open>DuplicateToolCallMiddleware\<close> of
  \<^verbatim>\<open>crates/agent/src/middleware/tasks.rs\<close>. The first marks the session's active task as done when the
  model answers without tool calls and the task's delegations are finished; the second warns when
  the last two tool calls of the recent history are the same.
\<close>

section \<open>Task auto-completion\<close>

definition delegation_done :: "delegation \<Rightarrow> bool" where
  "delegation_done d = (case del_status d of Del_Complete \<Rightarrow> True | Del_Failed \<Rightarrow> True | _ \<Rightarrow> False)"

definition all_delegations_done :: "int \<Rightarrow> delegation list \<Rightarrow> bool" where
  "all_delegations_done tid dels =
    (let ds = filter (\<lambda>d. del_task_id d = Some tid) dels in ds = [] \<or> list_all delegation_done ds)"

definition task_completable :: "task \<Rightarrow> bool" where
  "task_completable t = (\<not> task_status_of t \<noteq> Task_Active \<and> \<not> task_kind_of t = Recurring)"

definition task_on_after_llm :: "('f, 'b, 'db) session_store \<Rightarrow> ('f, 'b, 't, 'db world) hook" where
  "task_on_after_llm store s w =
    (case s of
       AfterLlm r ctx \<Rightarrow>
         (if has_tool_calls r then (Inr s, w)
          else (case ss_get_session store (ctx_session_id ctx) (w_db w) of
              Inl _ \<Rightarrow> (Inr s, w)
            | Inr None \<Rightarrow> (Inr s, w)
            | Inr (Some ses) \<Rightarrow>
               (case ses_active_task_id ses of
                  None \<Rightarrow> (Inr s, w)
                | Some tid \<Rightarrow>
                   (case ss_list_tasks store (ctx_session_id ctx) (w_db w) of
                      Inl _ \<Rightarrow> (Inr s, w)
                    | Inr tasks \<Rightarrow>
                       (case find (\<lambda>t. task_id t = tid) tasks of
                          None \<Rightarrow> (Inr s, w)
                        | Some t \<Rightarrow>
                           (if \<not> task_completable t then (Inr s, w)
                            else (case ss_list_delegations store (ctx_session_id ctx) (w_db w) of
                                Inl _ \<Rightarrow> (Inr s, w)
                              | Inr dels \<Rightarrow>
                                 (if all_delegations_done tid dels
                                  then (Inr s, w\<lparr>w_db := snd (ss_update_task_status store (task_public_id t) Task_Done (w_db w))\<rparr>)
                                  else (Inr s, w)))))))))
     | _ \<Rightarrow> (Inr s, w))"

definition task_auto_completion_middleware :: "('f, 'b, 'db) session_store \<Rightarrow> ('f, 'b, 't, 'db world) driver" where
  "task_auto_completion_middleware store = (default_driver ''TaskAutoCompletionMiddleware'')\<lparr>
     on_after_llm := task_on_after_llm store\<rparr>"

section \<open>Duplicate tool calls\<close>

definition tool_use_of :: "('f, 'b) message_part \<Rightarrow> (string \<times> string) option" where
  "tool_use_of p = (case p of Part_ToolUse tc \<Rightarrow> Some (fc_name (tc_function tc), fc_arguments (tc_function tc)) | _ \<Rightarrow> None)"

definition recent_tools :: "('f, 'b) agent_message list \<Rightarrow> (string \<times> string) list" where
  "recent_tools history = concat (map (\<lambda>m. List.map_filter tool_use_of (am_parts m)) (take 5 (rev history)))"

definition duplicate_tool_text :: "string \<Rightarrow> string" where
  "duplicate_tool_text tool =
    warning_sign @ '' DUPLICATE TOOL CALL DETECTED: You just called '' @ sq @ tool @ sq @ '' twice with identical arguments.'' @ nl @
    ''This often indicates a loop or that you forgot to check the result of your previous action.'' @ nl @
    ''Please verify the previous tool call succeeded before calling it again, or use a different approach.''"

text \<open>The lengths are compared as \<open>usize\<close>; a vector's length always fits.\<close>

definition check_for_duplicates ::
    "('f, 'b, 'db) session_store \<Rightarrow> nat \<Rightarrow> string \<Rightarrow> 'db world \<Rightarrow> string option \<times> 'db world" where
  "check_for_duplicates store a sid w =
    (case ss_get_history store sid (w_db w) of
       Inl _ \<Rightarrow> (None, w)
     | Inr history \<Rightarrow>
        (let last_len = (case w_last_check w a sid of Some n \<Rightarrow> n | None \<Rightarrow> 0);
             len = of_nat (length history) :: usize
         in if len \<le> last_len then (None, w)
            else
              let w' = w\<lparr>w_last_check := (w_last_check w)(a := (w_last_check w a)(sid \<mapsto> len))\<rparr>
              in (case recent_tools history of
                    t1 # t2 # _ \<Rightarrow> (if fst t1 = fst t2 \<and> snd t1 = snd t2 then (Some (duplicate_tool_text (fst t1)), w') else (None, w'))
                  | _ \<Rightarrow> (None, w'))))"

definition duplicate_on_step_start :: "('f, 'b, 'db) session_store \<Rightarrow> nat \<Rightarrow> ('f, 'b, 't, 'db world) hook" where
  "duplicate_on_step_start store a s w =
    (case s of
       BeforeLlmCall ctx \<Rightarrow>
         (case check_for_duplicates store a (ctx_session_id ctx) w of
            (Some warning, w') \<Rightarrow> (Inr (BeforeLlmCall (inject_message ctx warning)), w')
          | (None, w') \<Rightarrow> (Inr s, w'))
     | _ \<Rightarrow> (Inr s, w))"

definition duplicate_reset :: "nat \<Rightarrow> 'db world \<Rightarrow> 'db world" where
  "duplicate_reset a w = w\<lparr>w_last_check := (w_last_check w)(a := Map.empty)\<rparr>"

definition duplicate_tool_call_middleware :: "('f, 'b, 'db) session_store \<Rightarrow> nat \<Rightarrow> ('f, 'b, 't, 'db world) driver" where
  "duplicate_tool_call_middleware store a = (default_driver ''DuplicateToolCallMiddleware'')\<lparr>
     on_step_start := duplicate_on_step_start store a, drv_reset := duplicate_reset a\<rparr>"

section \<open>The contract\<close>

lemmas task_hooks [mw_defs] = task_auto_completion_middleware_def duplicate_tool_call_middleware_def
  duplicate_on_step_start_def

lemma task_on_after_llm_state: "fst (task_on_after_llm store s w) = Inr s"
  by (auto simp: task_on_after_llm_def split: execution_state.split sum.split option.split)

lemma task_after_same: "\<exists>w'. on_after_llm (task_auto_completion_middleware store) s w = (Inr s, w')"
  using task_on_after_llm_state [of store s w]
  by (cases "task_on_after_llm store s w") (simp add: mw_defs)

interpretation task_mw: middleware_contract "task_auto_completion_middleware store" for store
proof (unfold_locales, goal_cases)
  case (5 s w) then show ?case by (cases s) (simp_all add: mw_defs task_on_after_llm_def)
next
  case (6 r c w)
  show ?case by (rule exI [of _ "AfterLlm r c"]) (simp add: task_after_same)
qed (simp_all add: mw_defs)

interpretation duplicate_mw: middleware_contract "duplicate_tool_call_middleware store a" for store a
proof (rule step_only_contract)
  show "\<not> before_llm s \<Longrightarrow> on_step_start (duplicate_tool_call_middleware store a) s w = (Inr s, w)" for s w
    by (cases s) (simp_all add: mw_defs)
  show "\<exists>s' w'. on_step_start (duplicate_tool_call_middleware store a) (BeforeLlmCall c) w = (Inr s', w') \<and> step_result c s'"
    for c w
    by (auto simp: mw_defs split: option.split prod.split)
qed (simp_all add: mw_defs)

section \<open>Warnings on duplicate calls\<close>

text \<open>The history is checked again only after it has grown.\<close>

lemma check_for_duplicates_idle:
  assumes "check_for_duplicates store a sid w = (r, w')"
  shows "check_for_duplicates store a sid w' = (None, w')"
proof (cases "ss_get_history store sid (w_db w)")
  case (Inl e)
  with assms show ?thesis by (simp add: check_for_duplicates_def)
next
  case (Inr history)
  with assms show ?thesis
    by (auto simp: check_for_duplicates_def Let_def split: if_splits list.splits)
qed

lemma check_for_duplicates_Some:
  assumes "check_for_duplicates store a sid w = (Some t, w')"
  shows "\<exists>history tool args rest. ss_get_history store sid (w_db w) = Inr history \<and>
    recent_tools history = (tool, args) # (tool, args) # rest \<and> t = duplicate_tool_text tool"
  using assms by (fastforce simp: check_for_duplicates_def Let_def split: sum.splits if_splits list.splits)

end
