(* ===== verification/Mode_Middleware.thy ===== *)
theory Mode_Middleware
  imports Limits_Middleware
begin

text \<open>
  \<^verbatim>\<open>AgentModeMiddleware\<close> of \<^verbatim>\<open>crates/agent/src/middleware/modes.rs\<close> with its two factories: at the start
  of a turn it injects the reminder of the session's mode. The reminders are a map from modes.
  Decoding the JSON configuration is third-party; the decoded structures are the arguments. A
  \<^verbatim>\<open>HashMap\<close> iterated over is an association list with distinct keys, in an order of the map's choice.
\<close>

type_synonym reminders = "agent_mode \<rightharpoonup> string"

definition mode_middleware_new :: "string \<Rightarrow> reminders" where
  "mode_middleware_new plan_reminder = [Plan \<mapsto> plan_reminder]"

definition mode_on_turn_start :: "reminders \<Rightarrow> ('f, 'b, 't, 'w) hook" where
  "mode_on_turn_start rs s w =
    (case s of
       BeforeLlmCall ctx \<Rightarrow>
         (case rs (ctx_session_mode ctx) of
            Some reminder \<Rightarrow> (Inr (BeforeLlmCall (inject_message ctx reminder)), w)
          | None \<Rightarrow> (Inr s, w))
     | _ \<Rightarrow> (Inr s, w))"

definition agent_mode_middleware :: "reminders \<Rightarrow> ('f, 'b, 't, 'w) driver" where
  "agent_mode_middleware rs = (default_driver ''AgentModeMiddleware'')\<lparr>on_turn_start := mode_on_turn_start rs\<rparr>"

section \<open>Factories\<close>

record mode_factory_config =
  mfc_default :: string
  mfc_reminder :: "string option"
  mfc_review_reminder :: "string option"
  mfc_reminders :: "(string \<times> string) list option"

definition default_plan_reminder :: string where
  "default_plan_reminder = ''You are in plan mode. Only observe, analyze, and plan. Do not make changes.''"

definition default_review_reminder :: string where
  "default_review_reminder = ''You are in review mode. Review the code carefully and provide constructive feedback. '' @
     ''Focus on code quality, potential bugs, performance issues, and adherence to best practices. '' @
     ''Do not make changes yourself.''"

fun parse_reminders :: "(string \<times> string) list \<Rightarrow> reminders \<Rightarrow> string + reminders" where
  "parse_reminders [] rs = Inr rs"
| "parse_reminders ((m, r) # kvs) rs =
    (case mode_from_str m of Inl e \<Rightarrow> Inl e | Inr mode \<Rightarrow> parse_reminders kvs (rs(mode \<mapsto> r)))"

definition mode_factory_create :: "(string + mode_factory_config) \<Rightarrow> string + reminders" where
  "mode_factory_create parsed =
    (case parsed of Inl e \<Rightarrow> Inl e
     | Inr cfg \<Rightarrow>
        (case mfc_reminders cfg of
           Some kvs \<Rightarrow> parse_reminders kvs Map.empty
         | None \<Rightarrow>
            (let plan = (case mfc_reminder cfg of Some r \<Rightarrow> r | None \<Rightarrow> default_plan_reminder);
                 review = (case mfc_review_reminder cfg of Some r \<Rightarrow> r | None \<Rightarrow> default_review_reminder)
             in Inr (Map.empty(Plan \<mapsto> plan, Review \<mapsto> review)))))"

record legacy_mode_config =
  lmc_enabled :: bool
  lmc_reminder :: string
  lmc_review_reminder :: "string option"

definition plan_mode_compat_create :: "(string + legacy_mode_config) \<Rightarrow> string + reminders" where
  "plan_mode_compat_create parsed =
    (case parsed of Inl e \<Rightarrow> Inl e
     | Inr cfg \<Rightarrow> Inr (Map.empty(Plan \<mapsto> lmc_reminder cfg,
         Review \<mapsto> (case lmc_review_reminder cfg of Some r \<Rightarrow> r | None \<Rightarrow> default_review_reminder))))"

section \<open>The contract\<close>

lemmas mode_hooks [mw_defs] = agent_mode_middleware_def mode_on_turn_start_def

interpretation mode_mw: middleware_contract "agent_mode_middleware rs" for rs
proof (unfold_locales, goal_cases)
  case (1 s w) then show ?case by (cases s) (simp_all add: mw_defs)
next
  case (2 c w) show ?case by (auto simp: mw_defs split: option.split)
qed (simp_all add: mw_defs)

section \<open>Reminders\<close>

lemma parse_reminders_ok:
  "parse_reminders kvs rs = Inr rs' \<Longrightarrow> distinct (map fst kvs) \<Longrightarrow>
     rs' m = (case map_of kvs (mode_as_str m) of Some r \<Rightarrow> Some r | None \<Rightarrow> rs m)"
proof (induction kvs arbitrary: rs)
  case Nil
  then show ?case by simp
next
  case (Cons kv kvs)
  obtain k r where kv: "kv = (k, r)" by (cases kv)
  with Cons.prems(1) obtain mode where k: "mode_from_str k = Inr mode"
    and rest: "parse_reminders kvs (rs(mode \<mapsto> r)) = Inr rs'" by (auto split: sum.splits)
  from k have k': "k = mode_as_str mode" by (rule mode_from_str_Inr)
  from Cons.IH [OF rest] Cons.prems(2) have IH: "rs' m = (case map_of kvs (mode_as_str m) of Some r \<Rightarrow> Some r | None \<Rightarrow> (rs(mode \<mapsto> r)) m)"
    by simp
  show ?case
  proof (cases "m = mode")
    case True
    with Cons.prems(2) kv k' have "map_of kvs (mode_as_str m) = None"
      by (auto simp: map_of_eq_None_iff)
    with IH True kv k' show ?thesis by simp
  next
    case False
    then have "mode_as_str m \<noteq> mode_as_str mode" by (cases m; cases mode) auto
    with IH False kv k' show ?thesis by (simp split: option.split)
  qed
qed

lemma parse_reminders_error:
  "(\<exists>e. parse_reminders kvs rs = Inl e) \<longleftrightarrow> (\<exists>k \<in> fst ` set kvs. k \<notin> range mode_as_str)"
proof (induction kvs arbitrary: rs)
  case Nil
  then show ?case by simp
next
  case (Cons kv kvs)
  obtain k r where kv: "kv = (k, r)" by (cases kv)
  show ?case
  proof (cases "mode_from_str k")
    case (Inl e)
    then have "k \<notin> range mode_as_str" by auto
    with Inl kv show ?thesis by auto
  next
    case (Inr m)
    then have "k \<in> range mode_as_str" by (auto dest: mode_from_str_Inr)
    with Inr kv Cons.IH show ?thesis by auto
  qed
qed

end
