(* ===== verification/Events.thy ===== *)
theory Events
  imports World
begin

text \<open>
  The events the execution engine publishes (\<^verbatim>\<open>AgentEventKind\<close> of \<^verbatim>\<open>crates/agent/src/events.rs\<close>, the
  variants the modelled code emits or reads), the policy records of
  \<^verbatim>\<open>crates/agent/src/config/execution.rs\<close> it consults, and the state of one execution: what
  \<^verbatim>\<open>ExecutionContext\<close> (\<^verbatim>\<open>crates/agent/src/agent/execution_context.rs\<close>) reaches and the transitions
  change. Publishing is appending to the list of events; persisting a message is appending it to
  the history unless the store fails. An error printed into an event is kept as the error.
\<close>

datatype ('f, 't) agent_event =
    Ev_ToolsAvailable "'t list" u64
  | Ev_LlmRequestStart u32
  | Ev_LlmRequestEnd "usage option" u32 "finish_reason option" "'f option" "'f option" u64 u32 u32
  | Ev_AssistantContentDelta string string
  | Ev_AssistantThinkingDelta string string
  | Ev_RemoteStreamDisconnected string "string option"
  | Ev_RemoteStreamReconnected string "string option"
  | Ev_StreamRecovering llm_error u32 u32 "string option"
  | Ev_RateLimited string u64 int u32 u32
  | Ev_RateLimitResume u32
  | Ev_ProgressRecorded string
  | Ev_AssistantMessageStored string "string option" "string option"
  | Ev_UserMessageStored string
  | Ev_TaskStatusChanged task
  | Ev_HookNotice string string bool
  | Ev_MiddlewareStopped stop_type string u32 u32
  | Ev_ToolCallStart string string string
  | Ev_ToolCallEnd string string bool string
  | Ev_SnapshotStart
  | Ev_SnapshotEnd
  | Ev_ArtifactRecorded string "string option"
  | Ev_DelegationRequested delegation "string option"
  | Ev_DelegationCompleted string "string option"
  | Ev_DelegationFailed string string
  | Ev_DelegationCancelled string
  | Ev_DelegationCancelRequested string
  | Ev_PermissionRequested string "string option" string string
  | Ev_PermissionGranted string bool
  | Ev_CompactionStart u32
  | Ev_CompactionEnd string u32
  | Ev_Other string

record 'f rate_limit_config =
  rl_max_retries :: usize
  rl_default_wait_secs :: u64
  rl_backoff_multiplier :: 'f
  rl_max_stream_retries :: usize

section \<open>The state of an execution\<close>

text \<open>How the background task of the pre-turn snapshot ends: turn and snapshot, an error, a failed join.\<close>

datatype snapshot_task =
    Snapshot_Ok string string
  | Snapshot_Err string string
  | Snapshot_Join_Err

record ('f, 'b, 't) exec =
  x_session_id :: string
  x_history :: "('f, 'b) agent_message list"
  x_events :: "('f, 't) agent_event list"
  x_tools_hash :: "u64 option"
  x_active_task :: "task option"
  x_turn_diffs :: diff_paths
  x_permission_cache :: "string \<rightharpoonup> bool"
  x_delegations :: "delegation list"
  x_pending_snapshot :: "snapshot_task option"
  x_turn_snapshot :: "(string \<times> string) option"

definition emit_event :: "('f, 't) agent_event \<Rightarrow> ('f, 'b, 't) exec \<Rightarrow> ('f, 'b, 't) exec" where
  "emit_event ev x = x\<lparr>x_events := x_events x @ [ev]\<rparr>"

definition emit_events :: "('f, 't) agent_event list \<Rightarrow> ('f, 'b, 't) exec \<Rightarrow> ('f, 'b, 't) exec" where
  "emit_events evs x = x\<lparr>x_events := x_events x @ evs\<rparr>"

text \<open>\<^verbatim>\<open>add_message\<close>: \<open>fails\<close> says which messages the store rejects.\<close>

definition add_message ::
    "(('f, 'b) agent_message \<Rightarrow> session_error option) \<Rightarrow> ('f, 'b) agent_message \<Rightarrow> ('f, 'b, 't) exec
     \<Rightarrow> (session_error + unit) \<times> ('f, 'b, 't) exec" where
  "add_message fails m x =
    (case fails m of Some e \<Rightarrow> (Inl e, x) | None \<Rightarrow> (Inr (), x\<lparr>x_history := x_history x @ [m]\<rparr>))"

lemma emit_event_frame [simp]:
  "x_session_id (emit_event ev x) = x_session_id x" "x_history (emit_event ev x) = x_history x"
  "x_events (emit_event ev x) = x_events x @ [ev]" "x_active_task (emit_event ev x) = x_active_task x"
  "x_tools_hash (emit_event ev x) = x_tools_hash x" "x_delegations (emit_event ev x) = x_delegations x"
  by (simp_all add: emit_event_def)

lemma emit_events_frame [simp]:
  "x_session_id (emit_events evs x) = x_session_id x" "x_history (emit_events evs x) = x_history x"
  "x_events (emit_events evs x) = x_events x @ evs" "x_active_task (emit_events evs x) = x_active_task x"
  "x_tools_hash (emit_events evs x) = x_tools_hash x" "x_delegations (emit_events evs x) = x_delegations x"
  by (simp_all add: emit_events_def)

section \<open>Results of the hooks\<close>

text \<open>What the hook engine (\<^verbatim>\<open>crates/agent/src/hooks/engine.rs\<close>) returns to the execution engine; the
  hooks themselves are external commands.\<close>

record hook_notice =
  hn_event_name :: string
  hn_message :: string
  hn_is_error :: bool

record pre_tool_use_result =
  ptu_should_block :: bool
  ptu_block_reason :: "string option"
  ptu_updated_input :: "json option"
  ptu_additional_contexts :: "string list"
  ptu_notices :: "hook_notice list"

record post_tool_use_result =
  pou_should_block :: bool
  pou_block_reason :: "string option"
  pou_stop_reason :: "string option"
  pou_additional_contexts :: "string list"
  pou_notices :: "hook_notice list"

datatype permission_request_decision = Allow | Deny string

record permission_request_result =
  prr_decision :: "permission_request_decision option"
  prr_notices :: "hook_notice list"

record updated_delegation =
  ud_target_agent_id :: "string option"
  ud_objective :: "string option"
  ud_context :: "string option"
  ud_constraints :: "string option"
  ud_expected_output :: "string option"

record pre_delegation_result =
  pdr_should_block :: bool
  pdr_block_reason :: "string option"
  pdr_updated_delegation :: "updated_delegation option"
  pdr_additional_contexts :: "string list"
  pdr_notices :: "hook_notice list"

record stop_result =
  sr_should_continue :: bool
  sr_block_reason :: "string option"
  sr_stop_reason :: "string option"
  sr_additional_contexts :: "string list"
  sr_notices :: "hook_notice list"

record pre_compaction_result =
  pcr_should_block :: bool
  pcr_block_reason :: "string option"
  pcr_additional_contexts :: "string list"
  pcr_notices :: "hook_notice list"

record post_compaction_result =
  poc_additional_contexts :: "string list"
  poc_notices :: "hook_notice list"

definition notice_events :: "hook_notice list \<Rightarrow> ('f, 't) agent_event list" where
  "notice_events ns = map (\<lambda>n. Ev_HookNotice (hn_event_name n) (hn_message n) (hn_is_error n)) ns"

end
