(* ===== verification/LLM_Retry.thy ===== *)
theory LLM_Retry
  imports Events
begin

text \<open>
  Retrying a provider call (\<^verbatim>\<open>crates/agent/src/agent/execution/llm_retry.rs\<close>). The provider, the
  cancellation token and the clock are functions of the number of the attempt, starting at 1. A
  wait is represented by its length in the event and by whether it was cancelled. The result
  carries the events emitted and the number of calls made.
\<close>

record 'r retry_io =
  io_call :: "nat \<Rightarrow> llm_error + 'r"           \<comment> \<open>outcome of the call of that attempt\<close>
  io_cancelled :: "nat \<Rightarrow> bool"                \<comment> \<open>the token, before the call\<close>
  io_cancel_wait :: "nat \<Rightarrow> bool"              \<comment> \<open>cancelled during the wait after that attempt\<close>
  io_clock :: "nat \<Rightarrow> int"

datatype retry_error =
    RE_Cancelled
  | RE_CancelledRateWait
  | RE_CancelledRetryWait
  | RE_RateLimitExceeded usize string
  | RE_Llm llm_error

fun extract_rate_limit_info :: "llm_error \<Rightarrow> (string \<times> u64 option) option" where
  "extract_rate_limit_info (RateLimited m r) = Some (m, r)"
| "extract_rate_limit_info (HttpStatus c m r) = (if c = 429 then Some (m, r) else None)"
| "extract_rate_limit_info _ = None"

definition as_i32 :: "nat \<Rightarrow> int" where
  "as_i32 n = sint (of_nat n :: 32 word)"

definition calculate_rate_limit_wait :: "'f f64_ops \<Rightarrow> 'f rate_limit_config \<Rightarrow> u64 option \<Rightarrow> nat \<Rightarrow> u64" where
  "calculate_rate_limit_wait F cfg retry_after attempt =
    (case retry_after of
       Some secs \<Rightarrow> secs
     | None \<Rightarrow> f_to_u64 F (f_mul F (f_of_nat F (unat (rl_default_wait_secs cfg)))
         (f_powi F (rl_backoff_multiplier cfg) (as_i32 (attempt - 1)))))"

definition is_transient_error :: "llm_error \<Rightarrow> bool" where
  "is_transient_error e = is_retryable e"

text \<open>The loop shared by \<^verbatim>\<open>call_llm_with_retry\<close> and \<^verbatim>\<open>create_stream_with_retry\<close>, which differ only in
  what they call and in what they log; \<open>n\<close> is the value of \<^verbatim>\<open>attempt\<close> at the top of the loop.\<close>

function llm_retry ::
    "'f f64_ops \<Rightarrow> 'f rate_limit_config \<Rightarrow> 'r retry_io \<Rightarrow> nat
     \<Rightarrow> (retry_error + 'r) \<times> ('f, 't) agent_event list \<times> nat" where
  "llm_retry F cfg io n =
    (let attempt = Suc n; max_retries = unat (rl_max_retries cfg) in
     if io_cancelled io attempt then (Inl RE_Cancelled, [], 0)
     else (case io_call io attempt of
         Inr r \<Rightarrow> (Inr r, [], 1)
       | Inl e \<Rightarrow>
           (case extract_rate_limit_info e of
              Some (message, retry_after) \<Rightarrow>
                (if max_retries \<le> attempt
                 then (Inl (RE_RateLimitExceeded (rl_max_retries cfg) message), [], 1)
                 else
                   let ev = Ev_RateLimited message (calculate_rate_limit_wait F cfg retry_after attempt)
                         (io_clock io attempt) (u32_from_usize (of_nat attempt)) (u32_from_usize (rl_max_retries cfg))
                   in if io_cancel_wait io attempt then (Inl RE_CancelledRateWait, [ev], 1)
                      else
                        let (r, evs, k) = llm_retry F cfg io attempt
                        in (r, ev # Ev_RateLimitResume (u32_from_usize (of_nat (Suc attempt))) # evs, Suc k))
            | None \<Rightarrow>
                (if is_transient_error e \<and> attempt < max_retries
                 then (if io_cancel_wait io attempt then (Inl RE_CancelledRetryWait, [], 1)
                       else let (r, evs, k) = llm_retry F cfg io attempt in (r, evs, Suc k))
                 else (Inl (RE_Llm e), [], 1)))))"
  by pat_completeness auto
termination
  by (relation "measure (\<lambda>(F, cfg, io, n). unat (rl_max_retries cfg) - n)") auto

declare llm_retry.simps [simp del]

definition call_llm_with_retry ::
    "'f f64_ops \<Rightarrow> 'f rate_limit_config \<Rightarrow> 'r retry_io \<Rightarrow> (retry_error + 'r) \<times> ('f, 't) agent_event list \<times> nat" where
  "call_llm_with_retry F cfg io = llm_retry F cfg io 0"

definition create_stream_with_retry ::
    "'f f64_ops \<Rightarrow> 'f rate_limit_config \<Rightarrow> 'r retry_io \<Rightarrow> (retry_error + 'r) \<times> ('f, 't) agent_event list \<times> nat" where
  "create_stream_with_retry F cfg io = llm_retry F cfg io 0"

section \<open>Properties\<close>

lemma rate_limit_retryable: "extract_rate_limit_info e = Some mr \<Longrightarrow> is_retryable e"
  by (cases e) (auto split: if_splits)

text \<open>What one pass through the loop does when nothing is cancelled.\<close>

lemma llm_retry_step:
  fixes io :: "'r retry_io" and F :: "'f f64_ops"
  assumes "\<not> io_cancelled io (Suc n)" and "\<not> io_cancel_wait io (Suc n)"
  obtains (ok) r where "io_call io (Suc n) = Inr r" "llm_retry F cfg io n = (Inr r, [] :: ('f, 't) agent_event list, 1)"
  | (again) e evs where "io_call io (Suc n) = Inl e" "is_retryable e" "Suc n < unat (rl_max_retries cfg)"
      "llm_retry F cfg io n =
        (let X = llm_retry F cfg io (Suc n) in (fst X, (evs :: ('f, 't) agent_event list) @ fst (snd X), Suc (snd (snd X))))"
  | (fail) e err where "io_call io (Suc n) = Inl e" "\<not> is_retryable e \<or> unat (rl_max_retries cfg) \<le> Suc n"
      "llm_retry F cfg io n = (Inl err, [] :: ('f, 't) agent_event list, 1)"
proof (cases "io_call io (Suc n)")
  case (Inr r)
  with assms show ?thesis by (intro ok) (simp_all add: llm_retry.simps [of F cfg io n])
next
  case (Inl e)
  show ?thesis
  proof (cases "extract_rate_limit_info e")
    case (Some mr)
    obtain m ra where mr: "mr = (m, ra)" by (cases mr)
    have retry: "is_retryable e" using rate_limit_retryable Some by blast
    show ?thesis
    proof (cases "unat (rl_max_retries cfg) \<le> Suc n")
      case True
      with assms Inl Some mr show ?thesis
        by (intro fail [of e]) (simp_all add: llm_retry.simps [of F cfg io n])
    next
      case False
      with assms Inl Some mr retry show ?thesis
        by (intro again [of e "[Ev_RateLimited m (calculate_rate_limit_wait F cfg ra (Suc n)) (io_clock io (Suc n))
             (u32_from_usize (of_nat (Suc n))) (u32_from_usize (rl_max_retries cfg)),
             Ev_RateLimitResume (u32_from_usize (of_nat (Suc (Suc n))))]"])
          (simp_all add: llm_retry.simps [of F cfg io n] Let_def case_prod_unfold)
    qed
  next
    case None
    show ?thesis
    proof (cases "is_retryable e \<and> Suc n < unat (rl_max_retries cfg)")
      case True
      with assms Inl None show ?thesis
        by (intro again [of e "[]"])
          (simp_all add: llm_retry.simps [of F cfg io n] is_transient_error_def Let_def case_prod_unfold)
    next
      case False
      with assms Inl None show ?thesis
        by (intro fail [of e]) (auto simp add: llm_retry.simps [of F cfg io n] is_transient_error_def)
    qed
  qed
qed

definition retry_outcome :: "'r retry_io \<Rightarrow> nat \<Rightarrow> nat \<Rightarrow> retry_error + 'r \<Rightarrow> nat \<Rightarrow> bool" where
  "retry_outcome io maxr n r k \<longleftrightarrow>
     1 \<le> k \<and> n + k \<le> max (Suc n) maxr \<and>
     (\<forall>i. n < i \<and> i < n + k \<longrightarrow> (\<exists>e. io_call io i = Inl e \<and> is_retryable e)) \<and>
     (case r of
        Inr x \<Rightarrow> io_call io (n + k) = Inr x
      | Inl _ \<Rightarrow> \<exists>e. io_call io (n + k) = Inl e \<and> (\<not> is_retryable e \<or> maxr \<le> n + k))"

lemma retry_outcome_again:
  assumes "retry_outcome io maxr (Suc n) r k" "io_call io (Suc n) = Inl e" "is_retryable e" "Suc n < maxr"
  shows "retry_outcome io maxr n r (Suc k)"
proof -
  have "\<exists>e. io_call io i = Inl e \<and> is_retryable e" if "n < i" "i < n + Suc k" for i
    using assms that by (cases "i = Suc n") (auto simp: retry_outcome_def)
  with assms show ?thesis by (auto simp: retry_outcome_def max_def split: sum.splits)
qed

lemma llm_retry_outcome:
  fixes io :: "'r retry_io" and F :: "'f f64_ops"
  assumes nc: "\<And>i. \<not> io_cancelled io i" "\<And>i. \<not> io_cancel_wait io i"
    and run: "(llm_retry F cfg io n :: (retry_error + 'r) \<times> ('f, 't) agent_event list \<times> nat) = (r, evs, k)"
  shows "retry_outcome io (unat (rl_max_retries cfg)) n r k"
  using run
proof (induction "unat (rl_max_retries cfg) - n" arbitrary: n r evs k rule: less_induct)
  case less
  from nc have "\<not> io_cancelled io (Suc n)" "\<not> io_cancel_wait io (Suc n)" by simp_all
  then show ?case
  proof (cases rule: llm_retry_step [where F = F and cfg = cfg and ?'t = 't])
    case (ok x)
    with less.prems show ?thesis by (auto simp: retry_outcome_def)
  next
    case (again e evs0)
    obtain r' evs' k' where rec: "(llm_retry F cfg io (Suc n) :: (retry_error + 'r) \<times> ('f, 't) agent_event list \<times> nat) = (r', evs', k')"
      by (cases "llm_retry F cfg io (Suc n) :: (retry_error + 'r) \<times> ('f, 't) agent_event list \<times> nat") auto
    from again(3) have "retry_outcome io (unat (rl_max_retries cfg)) (Suc n) r' k'"
      by (intro less.hyps [OF _ rec]) simp
    with again less.prems rec show ?thesis by (auto simp: Let_def intro: retry_outcome_again)
  next
    case (fail e err)
    with less.prems show ?thesis by (auto simp: retry_outcome_def)
  qed
qed


definition demo_io :: "nat retry_io" where
  "demo_io = \<lparr>io_call = (\<lambda>i. if i = 1 then Inl (RateLimited ''slow down'' (Some 7)) else Inr 42),
     io_cancelled = (\<lambda>_. False), io_cancel_wait = (\<lambda>_. False), io_clock = (\<lambda>_. 0)\<rparr>"

definition demo_rate_limit :: "rat rate_limit_config" where
  "demo_rate_limit = \<lparr>rl_max_retries = 3, rl_default_wait_secs = 60, rl_backoff_multiplier = 2, rl_max_stream_retries = 1\<rparr>"


text \<open>Every rate-limit wait announced in an event belongs to an attempt that was rate limited and is
  the delay the server asked for, or the configured exponential delay when it gave none; the
  attempt is not the last one.\<close>

theorem rate_limit_events:
  fixes io :: "'r retry_io" and F :: "'f f64_ops"
  assumes "Ev_RateLimited m wait t a mx \<in>
    set (fst (snd (call_llm_with_retry F cfg io :: (retry_error + 'r) \<times> ('f, 't) agent_event list \<times> nat)))"
  shows "\<exists>i e ra. 0 < i \<and> i < unat (rl_max_retries cfg) \<and> io_call io i = Inl e \<and> extract_rate_limit_info e = Some (m, ra)
    \<and> wait = calculate_rate_limit_wait F cfg ra i \<and> a = u32_from_usize (of_nat i)"
proof -
  have "\<exists>i e ra. n < i \<and> i < unat (rl_max_retries cfg) \<and> io_call io i = Inl e \<and> extract_rate_limit_info e = Some (m, ra)
      \<and> wait = calculate_rate_limit_wait F cfg ra i \<and> a = u32_from_usize (of_nat i)"
    if "Ev_RateLimited m wait t a mx \<in> set (fst (snd (llm_retry F cfg io n :: (retry_error + 'r) \<times> ('f, 't) agent_event list \<times> nat)))" for n
    using that
  proof (induction "unat (rl_max_retries cfg) - n" arbitrary: n rule: less_induct)
    case less
    show ?case
    proof (cases "Suc n < unat (rl_max_retries cfg) \<and>
        Ev_RateLimited m wait t a mx \<in> set (fst (snd (llm_retry F cfg io (Suc n) :: (retry_error + 'r) \<times> ('f, 't) agent_event list \<times> nat)))")
      case True
      then have "\<exists>i e ra. Suc n < i \<and> i < unat (rl_max_retries cfg) \<and> io_call io i = Inl e \<and> extract_rate_limit_info e = Some (m, ra)
          \<and> wait = calculate_rate_limit_wait F cfg ra i \<and> a = u32_from_usize (of_nat i)"
        by (intro less.hyps) auto
      then show ?thesis using Suc_lessD by blast
    next
      case False
      with less.prems have "\<exists>e ra. Suc n < unat (rl_max_retries cfg) \<and> io_call io (Suc n) = Inl e \<and> extract_rate_limit_info e = Some (m, ra)
          \<and> wait = calculate_rate_limit_wait F cfg ra (Suc n) \<and> a = u32_from_usize (of_nat (Suc n))"
        by (subst (asm) llm_retry.simps)
          (auto simp: Let_def case_prod_unfold not_le split: if_splits sum.splits option.splits)
      then show ?thesis by blast
    qed
  qed
  with assms show ?thesis by (simp add: call_llm_with_retry_def)
qed

theorem rate_limit_events_witness:
  "\<exists>i e ra. 0 < i \<and> i < unat (rl_max_retries demo_rate_limit) \<and> io_call demo_io i = Inl e \<and>
     extract_rate_limit_info e = Some (''slow down'', ra) \<and> 7 = calculate_rate_limit_wait rat_ops demo_rate_limit ra i \<and>
     1 = u32_from_usize (of_nat i)"
proof -
  have "Ev_RateLimited ''slow down'' 7 0 1 3 \<in>
      set (fst (snd (call_llm_with_retry rat_ops demo_rate_limit demo_io
        :: (retry_error + nat) \<times> (rat, unit) agent_event list \<times> nat)))"
    by (simp add: call_llm_with_retry_def llm_retry.simps demo_io_def demo_rate_limit_def
        calculate_rate_limit_wait_def u32_from_usize_def)
  from rate_limit_events [OF this] show ?thesis .
qed

end
