(* ===== verification/Streaming.thy ===== *)
theory Streaming
  imports LLM_Retry
begin

text \<open>
  The streaming path of \<^verbatim>\<open>transition_call_llm\<close>
  (\<^verbatim>\<open>crates/agent/src/agent/execution/transitions.rs\<close>): consuming the items of a response stream into
  accumulators, batching the deltas for the user interface, and re-creating the stream after a
  retryable error in its middle.

  A stream is the list of what the consuming loop meets: an item of the stream with the answer of
  the batching timer after it, or the cancellation of the execution. The end of the list is the
  end of the stream. Strings are byte sequences, so that \<^verbatim>\<open>len\<close> is \<open>length\<close>.
\<close>

datatype stream_input =
    SI_Item "llm_error + stream_chunk" bool      \<comment> \<open>the item, whether \<^verbatim>\<open>BATCH_INTERVAL\<close> has elapsed\<close>
  | SI_Cancelled

record stream_acc =
  sa_text :: string
  sa_thinking :: string
  sa_thinking_signature :: "string option"
  sa_tool_calls :: "tool_call list"
  sa_tool_call_ids :: "string set"
  sa_usage :: "usage option"
  sa_finish_reason :: "finish_reason option"
  sa_text_buffer :: string
  sa_thinking_buffer :: string

definition empty_acc :: stream_acc where
  "empty_acc = \<lparr>sa_text = [], sa_thinking = [], sa_thinking_signature = None, sa_tool_calls = [],
     sa_tool_call_ids = {}, sa_usage = None, sa_finish_reason = None, sa_text_buffer = [], sa_thinking_buffer = []\<rparr>"

definition BATCH_CHARS :: nat where "BATCH_CHARS = 256"

text \<open>The macro \<^verbatim>\<open>flush_buffers!\<close>.\<close>

definition flush_events :: "string \<Rightarrow> stream_acc \<Rightarrow> ('f, 't) agent_event list" where
  "flush_events mid acc =
    (if sa_text_buffer acc = [] then [] else [Ev_AssistantContentDelta (sa_text_buffer acc) mid]) @
    (if sa_thinking_buffer acc = [] then [] else [Ev_AssistantThinkingDelta (sa_thinking_buffer acc) mid])"

definition flush_acc :: "stream_acc \<Rightarrow> stream_acc" where
  "flush_acc acc = acc\<lparr>sa_text_buffer := [], sa_thinking_buffer := []\<rparr>"

definition merge_usage :: "usage option \<Rightarrow> usage \<Rightarrow> usage option" where
  "merge_usage prev u = Some (case prev of Some p \<Rightarrow> merge_max p u | None \<Rightarrow> u)"

text \<open>The match on a chunk other than \<^verbatim>\<open>Done\<close>.\<close>

definition chunk_step :: "string \<Rightarrow> stream_chunk \<Rightarrow> stream_acc \<Rightarrow> stream_acc \<times> ('f, 't) agent_event list" where
  "chunk_step mid c acc =
    (case c of
       Chunk_Text delta \<Rightarrow>
         (acc\<lparr>sa_text := sa_text acc @ delta, sa_text_buffer := sa_text_buffer acc @ delta\<rparr>, [])
     | Chunk_Thinking delta \<Rightarrow>
         (acc\<lparr>sa_thinking := sa_thinking acc @ delta, sa_thinking_buffer := sa_thinking_buffer acc @ delta\<rparr>, [])
     | Chunk_ThinkingSignature sig \<Rightarrow> (acc\<lparr>sa_thinking_signature := Some sig\<rparr>, [])
     | Chunk_ToolUseComplete _ tc \<Rightarrow>
         (let acc' = flush_acc acc in
          (if tc_id tc \<in> sa_tool_call_ids acc' then acc'
           else acc'\<lparr>sa_tool_call_ids := insert (tc_id tc) (sa_tool_call_ids acc'),
                     sa_tool_calls := sa_tool_calls acc' @ [tc]\<rparr>, flush_events mid acc))
     | Chunk_Usage u \<Rightarrow> (acc\<lparr>sa_usage := merge_usage (sa_usage acc) u\<rparr>, [])
     | _ \<Rightarrow> (acc, []))"

text \<open>After \<^verbatim>\<open>Done\<close>: trailing usage is taken; anything else ends the stream. \<open>None\<close> is a cancellation.\<close>

fun drain_usage :: "stream_input list \<Rightarrow> usage option \<Rightarrow> usage option option" where
  "drain_usage [] u = Some u"
| "drain_usage (SI_Cancelled # items) u = None"
| "drain_usage (SI_Item (Inr (Chunk_Usage v)) t # items) u = drain_usage items (merge_usage u v)"
| "drain_usage (SI_Item i t # items) u = Some u"

datatype consume_result =
    C_End stream_acc
  | C_Cancelled
  | C_Retry llm_error
  | C_Error llm_error

definition needs_flush :: "bool \<Rightarrow> stream_acc \<Rightarrow> bool" where
  "needs_flush elapsed acc = (elapsed \<or> BATCH_CHARS \<le> length (sa_text_buffer acc) \<or> BATCH_CHARS \<le> length (sa_thinking_buffer acc))"

fun consume ::
    "usize \<Rightarrow> usize \<Rightarrow> string \<Rightarrow> stream_input list \<Rightarrow> stream_acc \<Rightarrow> consume_result \<times> ('f, 't) agent_event list" where
  "consume maxr attempt mid [] acc = (C_End acc, [])"
| "consume maxr attempt mid (SI_Cancelled # items) acc = (C_Cancelled, [])"
| "consume maxr attempt mid (SI_Item (Inl e) elapsed # items) acc =
    (case e of
       RemoteStreamDisconnected m \<Rightarrow>
         (let (r, evs) = consume maxr attempt mid items (flush_acc acc)
          in (r, flush_events mid acc @ Ev_RemoteStreamDisconnected m (Some mid) # evs))
     | RemoteStreamReconnected m \<Rightarrow>
         (let (r, evs) = consume maxr attempt mid items acc
          in (r, Ev_RemoteStreamReconnected m (Some mid) # evs))
     | _ \<Rightarrow>
         (if is_retryable e \<and> attempt \<le> maxr
          then (C_Retry e, flush_events mid acc @
                [Ev_StreamRecovering e (u32_from_usize attempt) (u32_from_usize maxr) (Some mid)])
          else (C_Error e, [])))"
| "consume maxr attempt mid (SI_Item (Inr c) elapsed # items) acc =
    (case c of
       Chunk_Done fr \<Rightarrow>
         (case drain_usage items (sa_usage acc) of
            None \<Rightarrow> (C_Cancelled, [])
          | Some u \<Rightarrow> (C_End (acc\<lparr>sa_finish_reason := Some fr, sa_usage := u\<rparr>), []))
     | _ \<Rightarrow>
         (let (acc1, evs1) = chunk_step mid c acc;
              acc2 = (if needs_flush elapsed acc1 then flush_acc acc1 else acc1);
              evs2 = (if needs_flush elapsed acc1 then flush_events mid acc1 else []);
              (r, evs) = consume maxr attempt mid items acc2
          in (r, evs1 @ evs2 @ evs)))"

text \<open>The outer loop \<^verbatim>\<open>'stream\<close>; \<open>ios\<close> gives for each attempt how its stream is created. The guard in
  the branch of \<open>C_Retry\<close> repeats the one of \<open>consume\<close> (lemma \<open>consume_retry_guard\<close>), which is where
  the source has it.\<close>

datatype stream_outcome =
    S_Done stream_acc
  | S_Cancelled
  | S_CreateError retry_error
  | S_StreamError llm_error

function stream_loop ::
    "'f f64_ops \<Rightarrow> 'f rate_limit_config \<Rightarrow> (nat \<Rightarrow> stream_input list retry_io) \<Rightarrow> string \<Rightarrow> nat
     \<Rightarrow> stream_outcome \<times> ('f, 't) agent_event list \<times> nat" where
  "stream_loop F cfg ios mid n =
    (let attempt = Suc n; (opened, evs0, _) = create_stream_with_retry F cfg (ios attempt) in
     case opened of
       Inl err \<Rightarrow> (S_CreateError err, evs0, 1)
     | Inr items \<Rightarrow>
         (case consume (rl_max_stream_retries cfg) (of_nat attempt) mid items empty_acc of
            (C_End acc, evs) \<Rightarrow> (S_Done (flush_acc acc), evs0 @ evs @ flush_events mid acc, 1)
          | (C_Cancelled, evs) \<Rightarrow> (S_Cancelled, evs0 @ evs, 1)
          | (C_Error e, evs) \<Rightarrow> (S_StreamError e, evs0 @ evs, 1)
          | (C_Retry e, evs) \<Rightarrow>
              (if attempt \<le> unat (rl_max_stream_retries cfg)
               then let (r, evs', k) = stream_loop F cfg ios mid attempt in (r, evs0 @ evs @ evs', Suc k)
               else (S_StreamError e, evs0 @ evs, 1))))"
  by pat_completeness auto
termination
  by (relation "measure (\<lambda>(F, cfg, ios, mid, n). Suc (unat (rl_max_stream_retries cfg)) - n)") auto

declare stream_loop.simps [simp del]

section \<open>What the user interface sees is what is stored\<close>

fun ev_text :: "('f, 't) agent_event \<Rightarrow> string" where
  "ev_text (Ev_AssistantContentDelta c _) = c"
| "ev_text _ = []"

fun ev_thinking :: "('f, 't) agent_event \<Rightarrow> string" where
  "ev_thinking (Ev_AssistantThinkingDelta c _) = c"
| "ev_thinking _ = []"

definition delta_text :: "('f, 't) agent_event list \<Rightarrow> string" where
  "delta_text evs = concat (map ev_text evs)"

definition delta_thinking :: "('f, 't) agent_event list \<Rightarrow> string" where
  "delta_thinking evs = concat (map ev_thinking evs)"

lemma delta_simps [simp]:
  "delta_text [] = []" "delta_text (e # es) = ev_text e @ delta_text es" "delta_text (es @ fs) = delta_text es @ delta_text fs"
  "delta_thinking [] = []" "delta_thinking (e # es) = ev_thinking e @ delta_thinking es"
  "delta_thinking (es @ fs) = delta_thinking es @ delta_thinking fs"
  by (simp_all add: delta_text_def delta_thinking_def)

text \<open>The text and thinking chunks of a stream up to \<^verbatim>\<open>Done\<close>.\<close>

fun stream_text :: "stream_input list \<Rightarrow> string" where
  "stream_text (SI_Item (Inr (Chunk_Text d)) _ # items) = d @ stream_text items"
| "stream_text (SI_Item (Inr (Chunk_Done _)) _ # items) = []"
| "stream_text (_ # items) = stream_text items"
| "stream_text [] = []"

fun stream_thinking :: "stream_input list \<Rightarrow> string" where
  "stream_thinking (SI_Item (Inr (Chunk_Thinking d)) _ # items) = d @ stream_thinking items"
| "stream_thinking (SI_Item (Inr (Chunk_Done _)) _ # items) = []"
| "stream_thinking (_ # items) = stream_thinking items"
| "stream_thinking [] = []"

text \<open>\<open>p\<close> and \<open>q\<close> have been published, the buffers have not; the identifiers seen are those of the
  calls kept.\<close>

definition acc_inv :: "string \<Rightarrow> string \<Rightarrow> stream_acc \<Rightarrow> bool" where
  "acc_inv p q acc \<longleftrightarrow>
     sa_text acc = p @ sa_text_buffer acc \<and> sa_thinking acc = q @ sa_thinking_buffer acc \<and>
     sa_tool_call_ids acc = tc_id ` set (sa_tool_calls acc) \<and> distinct (map tc_id (sa_tool_calls acc))"

lemma flush_events_delta [simp]:
  "delta_text (flush_events mid acc) = sa_text_buffer acc"
  "delta_thinking (flush_events mid acc) = sa_thinking_buffer acc"
  by (simp_all add: flush_events_def)

lemma flush_acc_simps [simp]:
  "sa_text (flush_acc acc) = sa_text acc" "sa_thinking (flush_acc acc) = sa_thinking acc"
  "sa_text_buffer (flush_acc acc) = []" "sa_thinking_buffer (flush_acc acc) = []"
  "sa_tool_calls (flush_acc acc) = sa_tool_calls acc" "sa_tool_call_ids (flush_acc acc) = sa_tool_call_ids acc"
  "sa_usage (flush_acc acc) = sa_usage acc" "sa_finish_reason (flush_acc acc) = sa_finish_reason acc"
  by (simp_all add: flush_acc_def)

lemma acc_inv_flush: "acc_inv p q acc \<Longrightarrow> acc_inv (p @ sa_text_buffer acc) (q @ sa_thinking_buffer acc) (flush_acc acc)"
  by (simp add: acc_inv_def)

lemma acc_inv_chunk:
  "acc_inv p q acc \<Longrightarrow> chunk_step mid c acc = (acc', evs) \<Longrightarrow> acc_inv (p @ delta_text evs) (q @ delta_thinking evs) acc'"
  by (cases c) (auto simp: chunk_step_def acc_inv_def Let_def split: if_splits)

lemma chunk_step_text:
  "chunk_step mid c acc = (acc', evs) \<Longrightarrow>
   sa_text acc' = sa_text acc @ (case c of Chunk_Text d \<Rightarrow> d | _ \<Rightarrow> []) \<and>
   sa_thinking acc' = sa_thinking acc @ (case c of Chunk_Thinking d \<Rightarrow> d | _ \<Rightarrow> [])"
  by (cases c) (auto simp: chunk_step_def Let_def split: if_splits)

text \<open>One iteration on a chunk other than \<^verbatim>\<open>Done\<close>, with the batching.\<close>

lemma consume_chunk:
  fixes acc :: stream_acc
  assumes "\<not> (\<exists>fr. c = Chunk_Done fr)"
  obtains acc2 and evs2 :: "('f, 't) agent_event list" where
    "consume maxr attempt mid (SI_Item (Inr c) el # items) acc =
      (let X = consume maxr attempt mid items acc2 in (fst X, evs2 @ snd X))"
    "\<And>p q. acc_inv p q acc \<Longrightarrow> acc_inv (p @ delta_text evs2) (q @ delta_thinking evs2) acc2"
    "sa_text acc2 = sa_text acc @ (case c of Chunk_Text d \<Rightarrow> d | _ \<Rightarrow> [])"
    "sa_thinking acc2 = sa_thinking acc @ (case c of Chunk_Thinking d \<Rightarrow> d | _ \<Rightarrow> [])"
proof -
  obtain acc1 and evs1 :: "('f, 't) agent_event list" where c1: "chunk_step mid c acc = (acc1, evs1)"
    by (cases "chunk_step mid c acc :: stream_acc \<times> ('f, 't) agent_event list") auto
  define acc2 where "acc2 = (if needs_flush el acc1 then flush_acc acc1 else acc1)"
  define evs2 :: "('f, 't) agent_event list" where "evs2 = evs1 @ (if needs_flush el acc1 then flush_events mid acc1 else [])"
  from assms c1 have eq: "consume maxr attempt mid (SI_Item (Inr c) el # items) acc =
      (let X = consume maxr attempt mid items acc2 in (fst X, evs2 @ snd X))"
    by (cases c) (simp_all add: acc2_def evs2_def Let_def case_prod_unfold)
  have inv: "acc_inv (p @ delta_text evs2) (q @ delta_thinking evs2) acc2" if "acc_inv p q acc" for p q
    using acc_inv_chunk [OF that c1] acc_inv_flush [of "p @ delta_text evs1" "q @ delta_thinking evs1" acc1]
    by (simp add: acc2_def evs2_def)
  from chunk_step_text [OF c1] have "sa_text acc2 = sa_text acc @ (case c of Chunk_Text d \<Rightarrow> d | _ \<Rightarrow> [])"
    "sa_thinking acc2 = sa_thinking acc @ (case c of Chunk_Thinking d \<Rightarrow> d | _ \<Rightarrow> [])"
    by (simp_all add: acc2_def)
  with that [OF eq inv] show ?thesis by blast
qed

lemma consume_end:
  fixes acc :: stream_acc and evs :: "('f, 't) agent_event list"
  assumes "consume maxr attempt mid items acc = (C_End acc', evs)" and "acc_inv p q acc"
  shows "acc_inv (p @ delta_text evs) (q @ delta_thinking evs) acc' \<and>
    sa_text acc' = sa_text acc @ stream_text items \<and> sa_thinking acc' = sa_thinking acc @ stream_thinking items"
  using assms
proof (induction items arbitrary: acc evs p q)
  case Nil
  then show ?case by auto
next
  case (Cons i items)
  show ?case
  proof (cases i)
    case SI_Cancelled
    with Cons.prems show ?thesis by simp
  next
    case (SI_Item r el)
    show ?thesis
    proof (cases r)
      case (Inl e)
      show ?thesis
      proof (cases e)
        case (RemoteStreamDisconnected m)
        with Cons.prems SI_Item Inl obtain evs0 :: "('f, 't) agent_event list"
          where r: "consume maxr attempt mid items (flush_acc acc) = (C_End acc', evs0)"
            and evs: "evs = flush_events mid acc @ Ev_RemoteStreamDisconnected m (Some mid) # evs0"
          by (cases "consume maxr attempt mid items (flush_acc acc) :: consume_result \<times> ('f, 't) agent_event list") auto
        from Cons.IH [OF r acc_inv_flush [OF Cons.prems(2)]] evs SI_Item Inl show ?thesis by simp
      next
        case (RemoteStreamReconnected m)
        with Cons.prems SI_Item Inl obtain evs0 :: "('f, 't) agent_event list"
          where r: "consume maxr attempt mid items acc = (C_End acc', evs0)"
            and evs: "evs = Ev_RemoteStreamReconnected m (Some mid) # evs0"
          by (cases "consume maxr attempt mid items acc :: consume_result \<times> ('f, 't) agent_event list") auto
        from Cons.IH [OF r Cons.prems(2)] evs SI_Item Inl show ?thesis by simp
      qed (use Cons.prems SI_Item Inl in \<open>auto split: if_splits\<close>)
    next
      case (Inr c)
      show ?thesis
      proof (cases "\<exists>fr. c = Chunk_Done fr")
        case True
        with Cons.prems SI_Item Inr show ?thesis by (auto simp: acc_inv_def split: option.splits)
      next
        case False
        obtain acc2 and evs2 :: "('f, 't) agent_event list" where
          eq: "consume maxr attempt mid (SI_Item (Inr c) el # items) acc =
            (let X = consume maxr attempt mid items acc2 in (fst X, evs2 @ snd X))"
          and inv: "\<And>p q. acc_inv p q acc \<Longrightarrow> acc_inv (p @ delta_text evs2) (q @ delta_thinking evs2) acc2"
          and tx: "sa_text acc2 = sa_text acc @ (case c of Chunk_Text d \<Rightarrow> d | _ \<Rightarrow> [])"
            "sa_thinking acc2 = sa_thinking acc @ (case c of Chunk_Thinking d \<Rightarrow> d | _ \<Rightarrow> [])"
          using consume_chunk [OF False, where maxr = maxr and attempt = attempt and mid = mid and el = el
              and items = items and acc = acc and ?'f = 'f and ?'t = 't] by blast
        from Cons.prems(1) [unfolded SI_Item Inr eq Let_def] obtain evs0
          where r: "consume maxr attempt mid items acc2 = (C_End acc', evs0)" and evs: "evs = evs2 @ evs0"
          by (cases "consume maxr attempt mid items acc2 :: consume_result \<times> ('f, 't) agent_event list") auto
        from Cons.IH [OF r inv [OF Cons.prems(2)]] evs tx SI_Item Inr False show ?thesis
          by (cases c) auto
      qed
    qed
  qed
qed

lemma acc_inv_empty: "acc_inv [] [] empty_acc"
  by (simp add: acc_inv_def empty_acc_def)

lemma consume_retry_guard:
  "fst (consume maxr attempt mid items acc :: consume_result \<times> ('f, 't) agent_event list) = C_Retry e \<Longrightarrow> attempt \<le> maxr"
proof (induction items arbitrary: acc)
  case (Cons i items)
  show ?case
  proof (cases i)
    case (SI_Item r el)
    show ?thesis
    proof (cases r)
      case (Inl e')
      with Cons SI_Item show ?thesis by (cases e') (auto simp: case_prod_unfold Let_def split: if_splits)
    next
      case (Inr c)
      with Cons SI_Item show ?thesis by (cases c) (auto simp: case_prod_unfold Let_def split: option.splits)
    qed
  qed (use Cons.prems in simp)
qed simp

text \<open>C27: When a stream ends normally, the text of the response is the concatenation of the text chunks
  up to \<^verbatim>\<open>Done\<close>, and it is exactly what the content deltas published during that attempt
  (the final flush included) add up to; the same holds of the thinking. No tool call identifier
  occurs twice.\<close>

theorem stream_deltas_complete:
  assumes "consume maxr attempt mid items empty_acc = (C_End acc, evs)"
  shows "sa_text acc = stream_text items \<and> delta_text (evs @ flush_events mid acc) = sa_text acc \<and>
    sa_thinking acc = stream_thinking items \<and> delta_thinking (evs @ flush_events mid acc) = sa_thinking acc \<and>
    distinct (map tc_id (sa_tool_calls acc))"
  using consume_end [OF assms acc_inv_empty] by (auto simp: acc_inv_def empty_acc_def)

definition demo_stream :: "stream_input list" where
  "demo_stream = [SI_Item (Inr (Chunk_Text ''Hel'')) True, SI_Item (Inl (RemoteStreamDisconnected ''gone'')) False,
     SI_Item (Inl (RemoteStreamReconnected ''back'')) False, SI_Item (Inr (Chunk_Text ''lo'')) False,
     SI_Item (Inr (Chunk_Done FR_Stop)) False]"

theorem stream_deltas_complete_witness:
  "\<exists>acc evs. (consume 1 1 ''m'' demo_stream empty_acc :: consume_result \<times> (rat, unit) agent_event list) = (C_End acc, evs) \<and>
     evs \<noteq> [] \<and> sa_text acc = ''Hello'' \<and> delta_text (evs @ flush_events ''m'' acc) = ''Hello''"
proof -
  obtain acc and evs :: "(rat, unit) agent_event list" where
    run: "consume 1 1 ''m'' demo_stream empty_acc = (C_End acc, evs)" and ne: "evs \<noteq> []"
    by (simp add: demo_stream_def chunk_step_def needs_flush_def BATCH_CHARS_def flush_events_def empty_acc_def)
  from stream_deltas_complete [OF run] have "sa_text acc = ''Hello''" "delta_text (evs @ flush_events ''m'' acc) = ''Hello''"
    by (simp_all add: demo_stream_def)
  with run ne show ?thesis by blast
qed


end
