(* ===== verification/Tool_Calls.thy ===== *)
theory Tool_Calls
  imports Events "HOL-Library.List_Lexorder" "HOL-Library.Char_ord"
begin

text \<open>
  Tool execution (\<^verbatim>\<open>crates/agent/src/agent/execution/tool_calls.rs\<close>): permissions, the execution of one
  call with its hooks, the side effects of results and their storage; with the access rules of
  \<^verbatim>\<open>crates/agent/src/agent/tools.rs\<close> and \<^verbatim>\<open>agent_config.rs\<close> and the recording of delegations of
  \<^verbatim>\<open>crates/agent/src/session/runtime.rs\<close>.

  Tools, hooks, the client and the store are fields of \<open>tool_env\<close>. Texts of errors are strings.
  Snapshots of the file system are given by the part they produce.
\<close>

section \<open>Access rules\<close>

datatype tool_policy = BuiltInOnly | ProviderOnly | BuiltInAndProvider

record tool_config =
  tcf_policy :: tool_policy
  tcf_allowlist :: "string set option"
  tcf_denylist :: "string set"

definition is_mcp_tool_allowed_with :: "tool_config \<Rightarrow> string \<Rightarrow> string option \<Rightarrow> bool" where
  "is_mcp_tool_allowed_with cfg name server =
    (if name \<in> tcf_denylist cfg then False
     else (case tcf_allowlist cfg of
         None \<Rightarrow> True
       | Some allow \<Rightarrow>
           (if name \<in> allow then True
            else (case server of Some s \<Rightarrow> s @ ''.*'' \<in> allow | None \<Rightarrow> False))))"

definition is_tool_allowed_with :: "tool_config \<Rightarrow> string \<Rightarrow> bool" where
  "is_tool_allowed_with cfg name = is_mcp_tool_allowed_with cfg name None"

datatype tool_kind = TK_Search | TK_Edit | TK_Delete | TK_Execute | TK_Fetch | TK_Other

definition tool_kind_for_tool :: "string \<Rightarrow> tool_kind" where
  "tool_kind_for_tool name =
    (if name = ''search_text'' \<or> name = ''mdq'' then TK_Search
     else if name = ''write_file'' \<or> name = ''edit'' \<or> name = ''multiedit'' then TK_Edit
     else if name = ''delete_file'' then TK_Delete
     else if name = ''shell'' then TK_Execute
     else if name = ''web_fetch'' \<or> name = ''browse'' then TK_Fetch
     else TK_Other)"

definition requires_permission_for_tool :: "string set \<Rightarrow> string \<Rightarrow> bool" where
  "requires_permission_for_tool mutating name =
    (name \<in> mutating \<or> tool_kind_for_tool name \<in> {TK_Edit, TK_Delete, TK_Execute})"

section \<open>The environment of a tool call\<close>

datatype permission_outcome = Selected string | OutcomeCancelled

text \<open>What the pre-delegation hook is told of the delegation, besides the call.\<close>

record delegation_request =
  dr_target_agent_id :: string
  dr_objective :: string
  dr_context :: "string option"
  dr_constraints :: "string option"
  dr_expected_output :: "string option"

record ('f, 'b) tool_env =
  te_parse :: "string \<Rightarrow> json option"
  te_show :: "json \<Rightarrow> string option"
  te_mutating_tools :: "string set"
  te_tool_config :: tool_config
  te_mcp_server :: "string \<Rightarrow> string option"
  te_builtin :: "string \<Rightarrow> (json \<Rightarrow> string + content list) option"
  te_mcp :: "string \<Rightarrow> (json \<Rightarrow> string + content list) option"
  te_provider_tool :: "string \<Rightarrow> json \<Rightarrow> string + content list"
  te_truncate :: "mw_tool_call \<Rightarrow> string \<Rightarrow> string option"    \<comment> \<open>the truncated text with its notice, if too long\<close>
  te_snapshot :: "mw_tool_call \<Rightarrow> ('f, 'b) message_part option"
  te_record_progress :: "mw_tool_call \<Rightarrow> session_error option"
  te_pre_tool_use :: "mw_tool_call \<Rightarrow> json \<Rightarrow> string + pre_tool_use_result"
  te_post_tool_use :: "mw_tool_call \<Rightarrow> json \<Rightarrow> string \<Rightarrow> string + post_tool_use_result"
  te_permission_request :: "string \<Rightarrow> json \<Rightarrow> string + permission_request_result"
  te_bridge :: "(string \<Rightarrow> json \<Rightarrow> string + permission_outcome) option"
  te_permission_id :: string
  te_record_artifact :: "string option \<Rightarrow> session_error option"
  te_pre_delegation :: "string \<Rightarrow> delegation_request \<Rightarrow> string + pre_delegation_result"
  te_hash :: "string \<Rightarrow> u64"
  te_delegation_id :: "string \<Rightarrow> string"                       \<comment> \<open>the fresh public identifier for a call\<close>
  te_delegation_fails :: "string \<Rightarrow> session_error option"
  te_session_internal_id :: int
  te_now :: int

section \<open>Permissions\<close>

definition ensure_tool_permission ::
    "('f, 'b) tool_env \<Rightarrow> string \<Rightarrow> json \<Rightarrow> ('f, 'b, 't) exec \<Rightarrow> (string + bool) \<times> ('f, 'b, 't) exec" where
  "ensure_tool_permission E name args x =
    (if \<not> requires_permission_for_tool (te_mutating_tools E) name then (Inr True, x)
     else if (case x_active_task x of Some t \<Rightarrow> task_status_of t \<noteq> Task_Active | None \<Rightarrow> False) then (Inr False, x)
     else (case x_permission_cache x name of
         Some cached \<Rightarrow> (Inr cached, x)
       | None \<Rightarrow>
           (case te_permission_request E name args of
              Inl e \<Rightarrow> (Inl e, x)
            | Inr hook \<Rightarrow>
                (let x1 = emit_events (notice_events (prr_notices hook)) x in
                 case prr_decision hook of
                   Some Allow \<Rightarrow> (Inr True, x1)
                 | Some (Deny _) \<Rightarrow> (Inr False, x1)
                 | None \<Rightarrow>
                     (let x2 = emit_event (Ev_PermissionRequested (te_permission_id E)
                            (map_option task_public_id (x_active_task x1)) name
                            (''Tool '' @ name @ '' requires explicit permission'')) x1
                      in (case te_bridge E of
                            None \<Rightarrow> (Inr True, emit_event (Ev_PermissionGranted (te_permission_id E) True) x2)
                          | Some bridge \<Rightarrow>
                              (case bridge name args of
                                 Inl e \<Rightarrow> (Inl e, x2)
                               | Inr outcome \<Rightarrow>
                                   (let granted = (case outcome of
                                          Selected opt \<Rightarrow> opt = ''allow_once'' \<or> opt = ''allow_always''
                                        | OutcomeCancelled \<Rightarrow> False);
                                        x3 = (case outcome of
                                          Selected opt \<Rightarrow>
                                            (if opt = ''allow_always'' then x2\<lparr>x_permission_cache := (x_permission_cache x2)(name \<mapsto> True)\<rparr>
                                             else if opt = ''reject_always'' then x2\<lparr>x_permission_cache := (x_permission_cache x2)(name \<mapsto> False)\<rparr>
                                             else x2)
                                        | OutcomeCancelled \<Rightarrow> x2)
                                    in (Inr granted, emit_event (Ev_PermissionGranted (te_permission_id E) granted) x3)))))))))"

section \<open>Executing one call\<close>

definition error_blocks :: "string \<Rightarrow> content list" where
  "error_blocks e = [Content_Text (''Error: '' @ e)]"

definition tool_outcome :: "string + content list \<Rightarrow> content list \<times> bool" where
  "tool_outcome r = (case r of Inr bs \<Rightarrow> (bs, False) | Inl e \<Rightarrow> (error_blocks e, True))"

text \<open>The choice of the tool: access rules, then a built-in tool, an MCP tool, and last a tool of the
  provider, which alone asks for permission.\<close>

definition invoke_tool ::
    "('f, 'b) tool_env \<Rightarrow> string \<Rightarrow> json \<Rightarrow> ('f, 'b, 't) exec \<Rightarrow> (string + content list \<times> bool) \<times> ('f, 'b, 't) exec" where
  "invoke_tool E name args x =
    (if \<not> is_mcp_tool_allowed_with (te_tool_config E) name (te_mcp_server E name)
     then (Inr (error_blocks (''tool '' @ sq @ name @ sq @ '' is not allowed''), True), x)
     else (case te_builtin E name of
         Some tool \<Rightarrow> (Inr (tool_outcome (tool args)), x)
       | None \<Rightarrow>
           (case te_mcp E name of
              Some tool \<Rightarrow> (Inr (tool_outcome (tool args)), x)
            | None \<Rightarrow>
                (case ensure_tool_permission E name args x of
                   (Inl e, x') \<Rightarrow> (Inl (''Permission check failed: '' @ e), x')
                 | (Inr False, x') \<Rightarrow> (Inr (error_blocks ''permission denied'', True), x')
                 | (Inr True, x') \<Rightarrow> (Inr (tool_outcome (te_provider_tool E name args)), x')))))"

definition text_of_blocks :: "content list \<Rightarrow> string" where
  "text_of_blocks bs = str_join nl (List.map_filter as_text bs)"

definition truncate_blocks :: "('f, 'b) tool_env \<Rightarrow> mw_tool_call \<Rightarrow> content list \<Rightarrow> content list" where
  "truncate_blocks E call bs =
    (case te_truncate E call (text_of_blocks bs) of
       Some t \<Rightarrow> Content_Text t # filter (\<lambda>b. as_text b = None) bs
     | None \<Rightarrow> bs)"

definition execute_tool_call ::
    "('f, 'b) tool_env \<Rightarrow> mw_tool_call \<Rightarrow> ('f, 'b, 't) exec \<Rightarrow> (string + ('f, 'b) tool_result) \<times> ('f, 'b, 't) exec" where
  "execute_tool_call E call x =
    (let name = tf_name (mtc_function call);
         args0 = (case te_parse E (tf_arguments (mtc_function call)) of Some v \<Rightarrow> v | None \<Rightarrow> JObj [])
     in case te_pre_tool_use E call args0 of
          Inl e \<Rightarrow> (Inl e, x)
        | Inr pre \<Rightarrow>
            (let x1 = emit_events (notice_events (ptu_notices pre)) x;
                 args = (case ptu_updated_input pre of Some v \<Rightarrow> v | None \<Rightarrow> args0);
                 arguments_json = (case te_show E args of Some s \<Rightarrow> s | None \<Rightarrow> tf_arguments (mtc_function call))
             in if ptu_should_block pre
                then (Inr (new_tool_result (mtc_id call)
                        (error_blocks (case ptu_block_reason pre of Some r \<Rightarrow> r | None \<Rightarrow> ''tool blocked by hook''))
                        True (Some name) (Some arguments_json)), x1)
                else
                  let x2 = emit_event (Ev_ToolCallStart (mtc_id call) name arguments_json) x1;
                      x3 = (if te_snapshot E call \<noteq> None then emit_event Ev_SnapshotStart x2 else x2);
                      x4 = (case te_record_progress E call of
                              None \<Rightarrow> emit_event (Ev_ProgressRecorded (''Calling tool: '' @ name)) x3
                            | Some _ \<Rightarrow> x3)
                  in (case invoke_tool E name args x4 of
                        (Inl e, x5) \<Rightarrow> (Inl e, x5)
                      | (Inr (raw, is_error), x5) \<Rightarrow>
                          (let bs = (if is_error then raw else truncate_blocks E call raw) in
                           case te_post_tool_use E call args (text_of_blocks bs) of
                             Inl e \<Rightarrow> (Inl e, x5)
                           | Inr post \<Rightarrow>
                               (let x6 = emit_events (notice_events (pou_notices post)) x5;
                                    is_error' = (is_error \<or> pou_should_block post);
                                    bs' = (if pou_should_block post
                                      then error_blocks (case pou_block_reason post of Some r \<Rightarrow> r | None \<Rightarrow> ''tool result blocked by hook'')
                                      else bs);
                                    x7 = emit_event (Ev_ToolCallEnd (mtc_id call) name is_error' (text_of_blocks bs')) x6;
                                    r = new_tool_result (mtc_id call) bs' is_error' (Some name) (Some arguments_json)
                                in (case te_snapshot E call of
                                      Some p \<Rightarrow> (Inr (with_snapshot r p), emit_event Ev_SnapshotEnd x7)
                                    | None \<Rightarrow> (Inr r, x7)))))))"

section \<open>Side effects of results\<close>

definition opt_str :: "json \<Rightarrow> string \<Rightarrow> string option" where
  "opt_str v k = Option.bind (json_get v k) json_as_str"

definition json_opt :: "string option \<Rightarrow> json" where
  "json_opt s = (case s of Some t \<Rightarrow> JStr t | None \<Rightarrow> JNull)"

text \<open>\<^verbatim>\<open>RuntimeContext::record_delegation\<close>: a new delegation counts one retry more than the failed ones
  with the same objective and target.\<close>

definition delegation_retry_count :: "u64 \<Rightarrow> string \<Rightarrow> delegation list \<Rightarrow> u32" where
  "delegation_retry_count oh target ds =
    (case map del_retry_count (filter (\<lambda>d. del_objective_hash d = oh \<and> del_target_agent_id d = target
         \<and> del_status d = Del_Failed) ds) of
       [] \<Rightarrow> 0
     | c # cs \<Rightarrow> fold max cs c + 1)"

definition record_delegation ::
    "('f, 'b) tool_env \<Rightarrow> string \<Rightarrow> string \<Rightarrow> string \<Rightarrow> string option \<Rightarrow> string option \<Rightarrow> string option \<Rightarrow> ('f, 'b, 't) exec
     \<Rightarrow> (session_error + delegation) \<times> ('f, 'b, 't) exec" where
  "record_delegation E cid target objective ctxt constraints expected x =
    (case te_delegation_fails E cid of
       Some e \<Rightarrow> (Inl e, x)
     | None \<Rightarrow>
         (let d = \<lparr>del_id = int (length (x_delegations x)) + 1, del_public_id = te_delegation_id E cid,
                del_session_id = te_session_internal_id E, del_task_id = map_option task_id (x_active_task x),
                del_target_agent_id = target, del_objective = objective, del_objective_hash = te_hash E objective,
                del_context = ctxt, del_constraints = constraints, del_expected_output = expected,
                del_verification_spec = None, del_planning_summary = None, del_status = Del_Requested,
                del_retry_count = delegation_retry_count (te_hash E objective) target (x_delegations x),
                del_created_at = te_now E, del_completed_at = None\<rparr>
          in (Inr d, x\<lparr>x_delegations := x_delegations x @ [d]\<rparr>)))"

definition empty_update :: updated_delegation where
  "empty_update = \<lparr>ud_target_agent_id = None, ud_objective = None, ud_context = None, ud_constraints = None, ud_expected_output = None\<rparr>"

definition or_else :: "'a option \<Rightarrow> 'a option \<Rightarrow> 'a option" where
  "or_else a b = (case a of Some v \<Rightarrow> Some v | None \<Rightarrow> b)"

definition extend_context :: "string list \<Rightarrow> string option \<Rightarrow> string option" where
  "extend_context extra ctxt =
    (if extra = [] then ctxt
     else let e = str_join (nl @ nl) extra in
          Some (case ctxt of Some c \<Rightarrow> (if c \<noteq> [] then c @ nl @ nl @ e else e) | None \<Rightarrow> e))"

text \<open>The part of \<^verbatim>\<open>record_tool_side_effects\<close> for the tool \<open>delegate\<close>; \<open>commit_delegation\<close> is its end, from
  the rewriting of the arguments on.\<close>

definition commit_delegation ::
    "('f, 'b) tool_env \<Rightarrow> ('f, 'b) tool_result \<Rightarrow> string \<Rightarrow> string \<Rightarrow> string option \<Rightarrow> string option \<Rightarrow> string option
     \<Rightarrow> ('f, 'b, 't) exec \<Rightarrow> (string + ('f, 'b) tool_result \<times> wait_condition option) \<times> ('f, 'b, 't) exec" where
  "commit_delegation E r target objective ctxt constraints expected x =
    (let r' = (case te_show E (JObj [(''target_agent_id'', JStr target), (''objective'', JStr objective),
                  (''context'', json_opt ctxt), (''constraints'', json_opt constraints),
                  (''expected_output'', json_opt expected)]) of
                Some s \<Rightarrow> r\<lparr>tr_tool_arguments := Some s\<rparr> | None \<Rightarrow> r)
     in (case record_delegation E (tr_call_id r) target objective ctxt constraints expected x of
           (Inl _, x2) \<Rightarrow> (Inr (r', None), x2)
         | (Inr d, x2) \<Rightarrow>
             (Inr (r', Some (wait_delegation (del_public_id d))),
              emit_event (Ev_DelegationRequested d (Some (tr_call_id r))) x2)))"

definition delegation_request_of :: "('f, 'b) tool_env \<Rightarrow> ('f, 'b) tool_result \<Rightarrow> delegation_request" where
  "delegation_request_of E r =
    (let args = (case te_parse E (case tr_tool_arguments r of Some a \<Rightarrow> a | None \<Rightarrow> ''{}'') of Some v \<Rightarrow> v | None \<Rightarrow> JNull) in
     \<lparr>dr_target_agent_id = (case opt_str args ''target_agent_id'' of Some s \<Rightarrow> s | None \<Rightarrow> []),
      dr_objective = (case opt_str args ''objective'' of Some s \<Rightarrow> s | None \<Rightarrow> []),
      dr_context = opt_str args ''context'', dr_constraints = opt_str args ''constraints'',
      dr_expected_output = opt_str args ''expected_output''\<rparr>)"

definition delegate_side_effect ::
    "('f, 'b) tool_env \<Rightarrow> ('f, 'b) tool_result \<Rightarrow> ('f, 'b, 't) exec
     \<Rightarrow> (string + ('f, 'b) tool_result \<times> wait_condition option) \<times> ('f, 'b, 't) exec" where
  "delegate_side_effect E r x =
    (let q = delegation_request_of E r in
     case te_pre_delegation E (tr_call_id r) q of
       Inl e \<Rightarrow> (Inl e, x)
     | Inr hook \<Rightarrow>
         (let x1 = emit_events (notice_events (pdr_notices hook)) x;
              upd = (case pdr_updated_delegation hook of Some u \<Rightarrow> u | None \<Rightarrow> empty_update);
              target = (case ud_target_agent_id upd of Some s \<Rightarrow> s | None \<Rightarrow> dr_target_agent_id q);
              objective = (case ud_objective upd of Some s \<Rightarrow> s | None \<Rightarrow> dr_objective q);
              ctxt = extend_context (pdr_additional_contexts hook) (or_else (ud_context upd) (dr_context q));
              constraints = or_else (ud_constraints upd) (dr_constraints q);
              expected = or_else (ud_expected_output upd) (dr_expected_output q)
          in if pdr_should_block hook
             then (Inr (r\<lparr>tr_content := [Content_Text (''Delegation blocked by hook: '' @
                     (case pdr_block_reason hook of Some b \<Rightarrow> b | None \<Rightarrow> ''delegation blocked by hook''))],
                     tr_is_error := False\<rparr>, None), x1)
             else commit_delegation E r target objective ctxt constraints expected x1))"

definition record_tool_side_effects ::
    "('f, 'b) tool_env \<Rightarrow> ('f, 'b) tool_result \<Rightarrow> ('f, 'b, 't) exec
     \<Rightarrow> (string + ('f, 'b) tool_result \<times> wait_condition option) \<times> ('f, 'b, 't) exec" where
  "record_tool_side_effects E r x =
    (if tr_is_error r then (Inr (r, None), x)
     else (case tr_tool_name r of
         None \<Rightarrow> (Inr (r, None), x)
       | Some name \<Rightarrow>
           (let x1 = (if name = ''write_file'' \<or> name = ''apply_patch''
                then (let args = (case te_parse E (case tr_tool_arguments r of Some a \<Rightarrow> a | None \<Rightarrow> ''{}'') of Some v \<Rightarrow> v | None \<Rightarrow> JNull);
                          path = opt_str args ''path''
                      in case te_record_artifact E path of
                           None \<Rightarrow> emit_event (Ev_ArtifactRecorded (''Produced by '' @ name) path) x
                         | Some _ \<Rightarrow> x)
                else x)
            in if name = ''delegate'' then delegate_side_effect E r x1 else (Inr (r, None), x1))))"

fun side_effects_loop ::
    "('f, 'b) tool_env \<Rightarrow> ('f, 'b) tool_result list \<Rightarrow> ('f, 'b, 't) exec
     \<Rightarrow> (string + ('f, 'b) tool_result list \<times> wait_condition list) \<times> ('f, 'b, 't) exec" where
  "side_effects_loop E [] x = (Inr ([], []), x)"
| "side_effects_loop E (r # rs) x =
    (case record_tool_side_effects E r x of
       (Inl e, x1) \<Rightarrow> (Inl e, x1)
     | (Inr (r', wc), x1) \<Rightarrow>
         (case side_effects_loop E rs x1 of
            (Inl e, x2) \<Rightarrow> (Inl e, x2)
          | (Inr (rs', wcs), x2) \<Rightarrow> (Inr (r' # rs', (case wc of Some c \<Rightarrow> c # wcs | None \<Rightarrow> wcs)), x2)))"

section \<open>Storing the results\<close>

definition result_part :: "('f, 'b) tool_result \<Rightarrow> ('f, 'b) message_part" where
  "result_part r = Part_ToolResult (tr_call_id r) (tr_content r) (tr_is_error r) (tr_tool_name r) (tr_tool_arguments r) None"

definition changed_paths :: "('f, 'b) message_part \<Rightarrow> diff_paths option" where
  "changed_paths p = (case p of Part_Snapshot _ d \<Rightarrow> Some d | _ \<Rightarrow> None)"

definition sort_dedup :: "string list \<Rightarrow> string list" where
  "sort_dedup xs = remdups_adj (sort xs)"

definition combine_diffs :: "('f, 'b) tool_result list \<Rightarrow> diff_paths" where
  "combine_diffs rs =
    (let ds = List.map_filter (\<lambda>r. Option.bind (tr_snapshot_part r) changed_paths) rs in
     \<lparr>dp_added = sort_dedup (concat (map dp_added ds)), dp_modified = sort_dedup (concat (map dp_modified ds)),
      dp_removed = sort_dedup (concat (map dp_removed ds))\<rparr>)"

definition extend_diffs :: "diff_paths \<Rightarrow> diff_paths \<Rightarrow> diff_paths" where
  "extend_diffs old new = \<lparr>dp_added = sort_dedup (dp_added old @ dp_added new),
     dp_modified = sort_dedup (dp_modified old @ dp_modified new), dp_removed = sort_dedup (dp_removed old @ dp_removed new)\<rparr>"

definition results_message :: "string \<Rightarrow> int \<Rightarrow> string \<Rightarrow> ('f, 'b) tool_result list \<Rightarrow> ('f, 'b) agent_message" where
  "results_message mid now sid rs = \<lparr>am_id = mid, am_session_id = sid, am_role = User,
     am_parts = map result_part rs @ List.map_filter tr_snapshot_part rs, am_created_at = now,
     am_parent_message_id = None, am_source_provider = None, am_source_model = None\<rparr>"

definition with_message :: "'f conversation_context \<Rightarrow> chat_message \<Rightarrow> 'f conversation_context" where
  "with_message c m = with_session_mode (new_context (ctx_session_id c) (ctx_messages c @ [m]) (ctx_stats c)
     (ctx_provider c) (ctx_model c)) (ctx_session_mode c)"

definition store_all_tool_results ::
    "('b list \<Rightarrow> usize option \<Rightarrow> string) \<Rightarrow> ('f, 'b) tool_env \<Rightarrow> (('f, 'b) agent_message \<Rightarrow> session_error option) \<Rightarrow> string
     \<Rightarrow> ('f, 'b) tool_result list \<Rightarrow> 'f conversation_context \<Rightarrow> ('f, 'b, 't) exec
     \<Rightarrow> (string + ('f, 'b, 't) execution_state) \<times> ('f, 'b, 't) exec" where
  "store_all_tool_results render E fails mid results ctx x =
    (case side_effects_loop E results x of
       (Inl e, x1) \<Rightarrow> (Inl e, x1)
     | (Inr (adjusted, waits), x1) \<Rightarrow>
         (let msg = results_message mid (te_now E) (x_session_id x) adjusted in
          case add_message fails msg x1 of
            (Inl _, x2) \<Rightarrow> (Inl ''Failed to store tool results'', x2)
          | (Inr _, x2) \<Rightarrow>
              (let ctx' = with_message ctx (to_chat_message_with_target render (te_parse E) msg None None None);
                   combined = combine_diffs results;
                   x3 = (if diff_is_empty combined then x2
                         else x2\<lparr>x_turn_diffs := extend_diffs (x_turn_diffs x2) combined\<rparr>)
               in (case wait_merge waits of
                     Some wc \<Rightarrow> (Inr (WaitingForEvent ctx' wc), x3)
                   | None \<Rightarrow> (Inr (BeforeLlmCall ctx'), x3)))))"

section \<open>Processing the calls of a response\<close>

text \<open>\<^verbatim>\<open>transition_processing_tool_calls\<close> of \<^verbatim>\<open>transitions.rs\<close>. The calls run concurrently, each raced
  against the cancellation token. \<open>tool_phase\<close> says which calls the token won (by position), the
  state each call saw, and what the calls together published and cached while they ran.\<close>

record ('f, 'b, 't) tool_phase =
  tp_interrupted :: "nat \<Rightarrow> bool"
  tp_seen :: "nat \<Rightarrow> ('f, 'b, 't) exec"
  tp_events :: "('f, 't) agent_event list"
  tp_cache :: "string \<rightharpoonup> bool"
  tp_cancelled_before :: bool
  tp_cancelled_after :: bool

definition error_result :: "mw_tool_call \<Rightarrow> string \<Rightarrow> ('f, 'b) tool_result" where
  "error_result call msg = new_tool_result (mtc_id call) [Content_Text msg] True
     (Some (tf_name (mtc_function call))) (Some (tf_arguments (mtc_function call)))"

definition call_result ::
    "('f, 'b) tool_env \<Rightarrow> ('f, 'b, 't) tool_phase \<Rightarrow> nat \<Rightarrow> mw_tool_call \<Rightarrow> ('f, 'b) tool_result" where
  "call_result E ph i call =
    (if tp_interrupted ph i then error_result call ''Error: Cancelled by user''
     else (case fst (execute_tool_call E call (tp_seen ph i)) of
         Inr r \<Rightarrow> r
       | Inl e \<Rightarrow> error_result call (''Error: internal tool execution failed: '' @ e)))"

definition transition_processing_tool_calls ::
    "('b list \<Rightarrow> usize option \<Rightarrow> string) \<Rightarrow> ('f, 'b) tool_env \<Rightarrow> (('f, 'b) agent_message \<Rightarrow> session_error option) \<Rightarrow> string
     \<Rightarrow> ('f, 'b, 't) tool_phase \<Rightarrow> mw_tool_call list \<Rightarrow> ('f, 'b) tool_result list \<Rightarrow> 'f conversation_context
     \<Rightarrow> ('f, 'b, 't) exec \<Rightarrow> (string + ('f, 'b, 't) execution_state) \<times> ('f, 'b, 't) exec" where
  "transition_processing_tool_calls render E fails mid ph calls results ctx x =
    (if calls = [] then
       (case store_all_tool_results render E fails mid results ctx x of
          (Inl e, x') \<Rightarrow> (Inl e, x')
        | (Inr s, x') \<Rightarrow> (Inr (if tp_cancelled_before ph then Cancelled else s), x'))
     else
       (let x1 = x\<lparr>x_events := x_events x @ tp_events ph, x_permission_cache := tp_cache ph\<rparr>;
            all_results = results @ map (\<lambda>(i, c). call_result E ph i c) (List.enumerate 0 calls);
            was_cancelled = tp_cancelled_before ph \<or> tp_cancelled_after ph
        in (case store_all_tool_results render E fails mid all_results ctx x1 of
              (Inl e, x') \<Rightarrow> (Inl e, x')
            | (Inr s, x') \<Rightarrow> (Inr (if was_cancelled then Cancelled else s), x'))))"

section \<open>Lemmas\<close>

lemma new_tool_result_simps [simp]:
  "tr_call_id (new_tool_result i c e n a) = i" "tr_call_id (with_snapshot r p) = tr_call_id r"
  by (simp_all add: new_tool_result_def with_snapshot_def)

lemma error_result_id [simp]: "tr_call_id (error_result call m) = mtc_id call"
  by (simp add: error_result_def)

lemma execute_tool_call_id:
  "execute_tool_call E call x = (Inr r, x') \<Longrightarrow> tr_call_id r = mtc_id call"
  by (auto simp: execute_tool_call_def Let_def split: sum.splits if_splits prod.splits option.splits)

lemma call_result_id [simp]: "tr_call_id (call_result E ph i call) = mtc_id call"
proof (cases "fst (execute_tool_call E call (tp_seen ph i))")
  case (Inr r)
  then obtain x' where "execute_tool_call E call (tp_seen ph i) = (Inr r, x')"
    by (cases "execute_tool_call E call (tp_seen ph i)") auto
  with Inr show ?thesis by (auto simp: call_result_def dest: execute_tool_call_id)
qed (simp add: call_result_def)

lemma ensure_permission_history: "x_history (snd (ensure_tool_permission E name args x)) = x_history x"
  by (auto simp: ensure_tool_permission_def Let_def split: sum.split option.split permission_request_decision.split
      permission_outcome.split)

lemma record_delegation_frame:
  "record_delegation E cid t ob c k e x = (r, x') \<Longrightarrow> x_history x' = x_history x \<and> x_session_id x' = x_session_id x"
  by (auto simp: record_delegation_def Let_def split: option.splits)

lemma commit_delegation_frame:
  "commit_delegation E r t ob c k e x = (res, x') \<Longrightarrow>
     x_history x' = x_history x \<and> x_session_id x' = x_session_id x \<and>
     (\<forall>r' wc. res = Inr (r', wc) \<longrightarrow> tr_call_id r' = tr_call_id r)"
  by (auto simp: commit_delegation_def Let_def split: sum.splits prod.splits option.splits
      dest: record_delegation_frame)

lemma delegate_side_effect_frame:
  "delegate_side_effect E r x = (res, x') \<Longrightarrow>
     x_history x' = x_history x \<and> x_session_id x' = x_session_id x \<and>
     (\<forall>r' wc. res = Inr (r', wc) \<longrightarrow> tr_call_id r' = tr_call_id r)"
  by (cases "te_pre_delegation E (tr_call_id r) (delegation_request_of E r)")
    (auto simp: delegate_side_effect_def Let_def split: if_splits dest: commit_delegation_frame)

lemma side_effects_frame:
  "record_tool_side_effects E r x = (res, x') \<Longrightarrow>
     x_history x' = x_history x \<and> x_session_id x' = x_session_id x \<and>
     (\<forall>r' wc. res = Inr (r', wc) \<longrightarrow> tr_call_id r' = tr_call_id r)"
  by (auto simp: record_tool_side_effects_def Let_def split: option.splits if_splits dest: delegate_side_effect_frame)

lemma side_effects_loop_frame:
  "side_effects_loop E rs x = (res, x') \<Longrightarrow>
     x_history x' = x_history x \<and> x_session_id x' = x_session_id x \<and>
     (\<forall>rs' wcs. res = Inr (rs', wcs) \<longrightarrow> map tr_call_id rs' = map tr_call_id rs)"
proof (induction rs arbitrary: x res x')
  case (Cons r rs)
  obtain res1 x1 where r1: "record_tool_side_effects E r x = (res1, x1)" by (cases "record_tool_side_effects E r x")
  obtain res2 x2 where r2: "side_effects_loop E rs x1 = (res2, x2)" by (cases "side_effects_loop E rs x1")
  from side_effects_frame [OF r1] Cons.IH [OF r2] Cons.prems r1 r2 show ?case
    by (auto split: sum.splits)
qed simp

definition holds_results :: "string list \<Rightarrow> ('f, 'b) agent_message \<Rightarrow> bool" where
  "holds_results ids m \<longleftrightarrow> am_role m = User \<and>
     (\<exists>rs. am_parts m = map result_part rs @ List.map_filter tr_snapshot_part rs \<and> map tr_call_id rs = ids)"

lemma store_all_tool_results_ok:
  assumes "store_all_tool_results render E fails mid results ctx x = (Inr s, x')"
  shows "\<exists>msg. x_history x' = x_history x @ [msg] \<and> holds_results (map tr_call_id results) msg \<and>
    (\<exists>wc. s = BeforeLlmCall (with_message ctx (to_chat_message_with_target render (te_parse E) msg None None None)) \<or>
          s = WaitingForEvent (with_message ctx (to_chat_message_with_target render (te_parse E) msg None None None)) wc)"
proof -
  obtain res x1 where l: "side_effects_loop E results x = (res, x1)" by (cases "side_effects_loop E results x")
  with assms obtain adjusted waits where res: "res = Inr (adjusted, waits)"
    by (auto simp: store_all_tool_results_def split: sum.splits)
  from side_effects_loop_frame [OF l] res have hist: "x_history x1 = x_history x"
    and ids: "map tr_call_id adjusted = map tr_call_id results" by simp_all
  define msg where "msg = results_message mid (te_now E) (x_session_id x) adjusted"
  from assms l res have "fails msg = None"
    by (auto simp: store_all_tool_results_def msg_def add_message_def Let_def split: option.splits sum.splits)
  moreover have "holds_results (map tr_call_id results) msg"
    using ids by (auto simp: holds_results_def msg_def results_message_def)
  ultimately show ?thesis
    using assms l res hist
    by (intro exI [of _ msg])
      (auto simp: store_all_tool_results_def msg_def [symmetric] add_message_def Let_def split: option.splits if_splits)
qed

lemma store_all_tool_results_error:
  assumes "store_all_tool_results render E fails mid results ctx x = (Inl e, x')"
  shows "x_history x' = x_history x"
proof -
  obtain res x1 where l: "side_effects_loop E results x = (res, x1)" by (cases "side_effects_loop E results x")
  from side_effects_loop_frame [OF l] have "x_history x1 = x_history x" by simp
  show ?thesis
  proof (cases res)
    case (Inl e')
    with assms l \<open>x_history x1 = x_history x\<close> show ?thesis by (simp add: store_all_tool_results_def)
  next
    case (Inr aw)
    obtain adjusted waits where "aw = (adjusted, waits)" by (cases aw)
    with assms l Inr \<open>x_history x1 = x_history x\<close> show ?thesis
      by (cases "fails (results_message mid (te_now E) (x_session_id x) adjusted)"; cases "wait_merge waits")
        (simp_all add: store_all_tool_results_def add_message_def Let_def)
  qed
qed

section \<open>Every call gets its result\<close>

lemma processing_ok:
  assumes "transition_processing_tool_calls render E fails mid ph calls results ctx x = (Inr s, x')"
  shows "\<exists>msg. x_history x' = x_history x @ [msg] \<and>
    holds_results (map tr_call_id results @ map mtc_id calls) msg \<and>
    (s = Cancelled \<or> (\<exists>wc.
       s = BeforeLlmCall (with_message ctx (to_chat_message_with_target render (te_parse E) msg None None None)) \<or>
       s = WaitingForEvent (with_message ctx (to_chat_message_with_target render (te_parse E) msg None None None)) wc))"
proof (cases "calls = []")
  case True
  with assms obtain s0 where "store_all_tool_results render E fails mid results ctx x = (Inr s0, x')"
    and "s = (if tp_cancelled_before ph then Cancelled else s0)"
    by (auto simp: transition_processing_tool_calls_def split: prod.splits sum.splits)
  with store_all_tool_results_ok [OF this(1)] True show ?thesis by auto
next
  case False
  let ?x1 = "x\<lparr>x_events := x_events x @ tp_events ph, x_permission_cache := tp_cache ph\<rparr>"
  let ?all = "results @ map (\<lambda>(i, c). call_result E ph i c) (List.enumerate 0 calls)"
  from False assms obtain s0 where store: "store_all_tool_results render E fails mid ?all ctx ?x1 = (Inr s0, x')"
    and s: "s = Cancelled \<or> s = s0"
    by (auto simp: transition_processing_tool_calls_def Let_def split: prod.splits sum.splits if_splits)
  have "map tr_call_id ?all = map tr_call_id results @ map mtc_id calls"
    using map_map [of mtc_id snd "List.enumerate 0 calls"] by (simp add: comp_def case_prod_unfold)
  with store_all_tool_results_ok [OF store] s show ?thesis by auto
qed


section \<open>Permissions\<close>

text \<open>C31: A tool call is granted exactly when the tool needs no permission, or the active task (if any) is
  active and the decision is remembered as granted, or, with no remembered decision, the permission
  hook allows it, or the hook abstains and there is no client to ask or the client selects one of the
  two allowing options.\<close>

theorem permission_granted_iff:
  "fst (ensure_tool_permission E name args x) = Inr True \<longleftrightarrow>
     (if requires_permission_for_tool (te_mutating_tools E) name
      then (case x_active_task x of Some t \<Rightarrow> task_status_of t = Task_Active | None \<Rightarrow> True) \<and>
        (x_permission_cache x name = Some True \<or>
         x_permission_cache x name = None \<and>
         (\<exists>hook. te_permission_request E name args = Inr hook \<and>
            (prr_decision hook = Some Allow \<or>
             prr_decision hook = None \<and>
             (te_bridge E = None \<or>
              (\<exists>bridge opt. te_bridge E = Some bridge \<and> bridge name args = Inr (Selected opt) \<and>
                 opt \<in> {''allow_once'', ''allow_always''})))))
      else True)"
proof (cases "te_permission_request E name args")
  case (Inl e)
  then show ?thesis by (auto simp: ensure_tool_permission_def split: option.split)
next
  case (Inr hook)
  then show ?thesis
    by (cases "te_bridge E"; cases "prr_decision hook"; cases "x_permission_cache x name")
      (auto simp: ensure_tool_permission_def Let_def split: option.split permission_request_decision.splits
        sum.split permission_outcome.split)
qed

definition idle_env :: "(rat, unit) tool_env" where
  "idle_env = \<lparr>te_parse = (\<lambda>_. None), te_show = (\<lambda>_. None), te_mutating_tools = {},
     te_tool_config = \<lparr>tcf_policy = BuiltInAndProvider, tcf_allowlist = None, tcf_denylist = {}\<rparr>,
     te_mcp_server = (\<lambda>_. None), te_builtin = (\<lambda>n. if n = ''shell'' then Some (\<lambda>_. Inr [Content_Text ''ok'']) else None),
     te_mcp = (\<lambda>_. None), te_provider_tool = (\<lambda>_ _. Inl ''none''), te_truncate = (\<lambda>_ _. None), te_snapshot = (\<lambda>_. None),
     te_record_progress = (\<lambda>_. None),
     te_pre_tool_use = (\<lambda>_ _. Inr \<lparr>ptu_should_block = False, ptu_block_reason = None, ptu_updated_input = None,
       ptu_additional_contexts = [], ptu_notices = []\<rparr>),
     te_post_tool_use = (\<lambda>_ _ _. Inr \<lparr>pou_should_block = False, pou_block_reason = None, pou_stop_reason = None,
       pou_additional_contexts = [], pou_notices = []\<rparr>),
     te_permission_request = (\<lambda>_ _. Inr \<lparr>prr_decision = Some (Deny ''no''), prr_notices = []\<rparr>),
     te_bridge = None, te_permission_id = ''p'', te_record_artifact = (\<lambda>_. None),
     te_pre_delegation = (\<lambda>_ _. Inl ''hook crashed''), te_hash = (\<lambda>_. 0), te_delegation_id = (\<lambda>c. c),
     te_delegation_fails = (\<lambda>_. None), te_session_internal_id = 1, te_now = 0\<rparr>"

definition demo_exec :: "(rat, unit, unit) exec" where
  "demo_exec = \<lparr>x_session_id = ''s'', x_history = [], x_events = [], x_tools_hash = None, x_active_task = None,
     x_turn_diffs = \<lparr>dp_added = [], dp_modified = [], dp_removed = []\<rparr>, x_permission_cache = Map.empty, x_delegations = [],
     x_pending_snapshot = None, x_turn_snapshot = None\<rparr>"

text \<open>A built-in tool that the access rules allow is run without consulting the permission machinery,
  also when the tool is one that requires permission: neither the hook nor the client is asked and
  the remembered decisions are not read.\<close>

theorem builtin_tool_skips_permission:
  assumes "is_mcp_tool_allowed_with (te_tool_config E) name (te_mcp_server E name)"
    and "te_builtin E name = Some tool"
    and "requires_permission_for_tool (te_mutating_tools E) name"
  shows "invoke_tool (E\<lparr>te_permission_request := hook, te_bridge := bridge\<rparr>) name args (x\<lparr>x_permission_cache := cache\<rparr>) =
    (Inr (tool_outcome (tool args)), x\<lparr>x_permission_cache := cache\<rparr>)"
  using assms by (simp add: invoke_tool_def)

theorem builtin_tool_skips_permission_witness:
  "invoke_tool (idle_env\<lparr>te_permission_request := \<lambda>_ _. Inl ''asked'', te_bridge := None\<rparr>) ''shell'' JNull
     (demo_exec\<lparr>x_permission_cache := Map.empty(''shell'' \<mapsto> False)\<rparr>)
   = (Inr ([Content_Text ''ok''], False), demo_exec\<lparr>x_permission_cache := Map.empty(''shell'' \<mapsto> False)\<rparr>)"
  using builtin_tool_skips_permission [of idle_env "''shell''" "\<lambda>_. Inr [Content_Text ''ok'']"
      None "\<lambda>_ _. Inl ''asked''" JNull "Map.empty(''shell'' \<mapsto> False)" demo_exec]
  by (simp add: idle_env_def is_mcp_tool_allowed_with_def requires_permission_for_tool_def tool_kind_for_tool_def tool_outcome_def)

section \<open>A failing hook loses the results\<close>

text \<open>If the hook before a delegation fails (rather than blocks) for a successful \<open>delegate\<close> call that
  is reached, storing the results of the whole batch fails and no message is stored, although the
  assistant message with the calls is already in the history.\<close>

theorem pre_delegation_error_drops_results:
  assumes "\<not> tr_is_error r" "tr_tool_name r = Some ''delegate''" "te_pre_delegation E (tr_call_id r) (delegation_request_of E r) = Inl e"
    and "side_effects_loop E before x = (Inr (adj, ws), x1)"
  shows "\<exists>x'. store_all_tool_results render E fails mid (before @ r # after) ctx x = (Inl e, x') \<and> x_history x' = x_history x"
proof -
  have step: "side_effects_loop E (before @ r # after) x = (Inl e, x1)"
    using assms(4)
  proof (induction before arbitrary: x adj ws)
    case Nil
    with assms show ?case by (simp add: record_tool_side_effects_def delegate_side_effect_def)
  next
    case (Cons b before)
    then show ?case by (auto split: prod.splits sum.splits)
  qed
  from side_effects_loop_frame [OF this] step show ?thesis by (simp add: store_all_tool_results_def)
qed

definition failed_call :: "(rat, unit) tool_result" where
  "failed_call = error_result \<lparr>mtc_id = ''1'', mtc_function = \<lparr>tf_name = ''shell'', tf_arguments = ''{}''\<rparr>\<rparr> ''bad''"

theorem pre_delegation_error_drops_results_witness:
  "\<exists>x'. store_all_tool_results (\<lambda>_ _. []) idle_env (\<lambda>_. None) ''m''
      [failed_call, new_tool_result ''2'' [] False (Some ''delegate'') None]
      (new_context ''s'' [] (default_stats rat_ops) ''p'' ''m'') demo_exec
    = (Inl ''hook crashed'', x') \<and> x_history x' = x_history demo_exec"
proof -
  have "side_effects_loop idle_env [failed_call] demo_exec = (Inr ([failed_call], []), demo_exec)"
    by (simp add: record_tool_side_effects_def failed_call_def error_result_def new_tool_result_def)
  from pre_delegation_error_drops_results [of "new_tool_result ''2'' [] False (Some ''delegate'') None" idle_env "''hook crashed''",
      OF _ _ _ this, of "\<lambda>_ _. []" "\<lambda>_. None" "''m''" "[]"]
  show ?thesis by (simp add: idle_env_def new_tool_result_def)
qed


end
