(* ===== verification/Transitions.thy ===== *)
theory Transitions
  imports Streaming Tool_Calls
begin

text \<open>
  The transitions of the execution state machine around a model call
  (\<^verbatim>\<open>crates/agent/src/agent/execution/transitions.rs\<close>): collecting the tools
  (\<^verbatim>\<open>collect_tools\<close> of \<^verbatim>\<open>crates/agent/src/agent/agent_config.rs\<close>), calling the model with or
  without a stream, and storing its answer. Tool execution is in \<open>Tool_Calls\<close>, the stream in
  \<open>Streaming\<close>, the retries in \<open>LLM_Retry\<close>.

  The environment \<open>llm_env\<close> holds the configuration and what the provider, the store, the clock
  and the cancellation token answer during one transition. Errors keep their cause.
\<close>

datatype exec_error =
    E_Text string
  | E_Session session_error
  | E_Retry retry_error
  | E_Stream llm_error
  | E_Middleware middleware_error
  | E_Hook string

text \<open>The methods of the trait object \<^verbatim>\<open>dyn ChatResponse\<close> as a record.\<close>

record chat_response =
  resp_text :: "string option"
  resp_tool_calls :: "tool_call list option"
  resp_finish_reason :: "finish_reason option"
  resp_thinking :: "string option"
  resp_usage :: "usage option"

record ('f, 'b, 't) llm_env =
  le_ops :: "'f f64_ops"
  le_render :: "'b list \<Rightarrow> usize option \<Rightarrow> string"
  le_parse :: "string \<Rightarrow> json option"
  le_rate_limit :: "'f rate_limit_config"
  le_pricing :: "'f model_pricing option"
  le_cancelled :: bool                                     \<comment> \<open>at the top of the transition\<close>
  le_cancelled_after_stream :: bool
  le_provider_fails :: "session_error option"
  le_builtin_tools :: "'t list"
  le_provider_tools :: "'t list option"
  le_mcp_tools :: "('t \<times> string option) list"             \<comment> \<open>definition and server name\<close>
  le_tool_config :: tool_config
  le_tool_name :: "'t \<Rightarrow> string"
  le_tools_hash :: "'t list \<Rightarrow> string + u64"
  le_supports_streaming :: bool
  le_submit :: "chat_message list \<Rightarrow> chat_response retry_io"
  le_chat_with_tools :: "chat_message list \<Rightarrow> 't list \<Rightarrow> chat_response retry_io"
  le_stream :: "chat_message list \<Rightarrow> 't list \<Rightarrow> nat \<Rightarrow> stream_input list retry_io"
  le_stream_message_id :: string
  le_snapshot_message_id :: string
  le_message_id :: string
  le_now :: int
  le_record_progress :: "string \<Rightarrow> session_error option"
  le_fails :: "('f, 'b) agent_message \<Rightarrow> session_error option"
  le_task_fails :: "session_error option"

section \<open>Before the call\<close>

definition collect_tools :: "('f, 'b, 't) llm_env \<Rightarrow> 't list" where
  "collect_tools E =
    (let cfg = le_tool_config E; name = le_tool_name E;
         provided = (case le_provider_tools E of Some ts \<Rightarrow> ts | None \<Rightarrow> []);
         tools = (case tcf_policy cfg of
                    BuiltInOnly \<Rightarrow> le_builtin_tools E
                  | ProviderOnly \<Rightarrow> provided
                  | BuiltInAndProvider \<Rightarrow> le_builtin_tools E @ provided);
         mcp = (case tcf_policy cfg of BuiltInOnly \<Rightarrow> [] | _ \<Rightarrow> le_mcp_tools E)
     in filter (\<lambda>t. is_tool_allowed_with cfg (name t)) tools @
        map fst (filter (\<lambda>(t, server). is_mcp_tool_allowed_with cfg (name t) server) mcp))"

definition transition_before_llm_call ::
    "('f, 'b, 't) llm_env \<Rightarrow> 'f conversation_context \<Rightarrow> ('f, 'b, 't) exec
     \<Rightarrow> (exec_error + ('f, 'b, 't) execution_state) \<times> ('f, 'b, 't) exec" where
  "transition_before_llm_call E ctx x =
    (if le_cancelled E then (Inr Cancelled, x)
     else (case le_provider_fails E of
         Some e \<Rightarrow> (Inl (E_Session e), x)
       | None \<Rightarrow>
           (let tools = collect_tools E in
            case le_tools_hash E tools of
              Inl e \<Rightarrow> (Inl (E_Text e), x)
            | Inr h \<Rightarrow>
                (let x' = (if x_tools_hash x \<noteq> Some h
                           then emit_event (Ev_ToolsAvailable tools h) (x\<lparr>x_tools_hash := Some h\<rparr>) else x)
                 in (Inr (CallLlm ctx tools), x')))))"

definition apply_cache_breakpoints :: "chat_message list \<Rightarrow> chat_message list" where
  "apply_cache_breakpoints ms =
    (let len = length ms in
     map (\<lambda>(i, m). if 2 \<le> len \<and> len - 2 \<le> i then m\<lparr>cm_cache := Some (Ephemeral None)\<rparr> else m) (List.enumerate 0 ms))"

section \<open>The call\<close>

text \<open>The tuple that each arm of the call produces, with the identifier of a streamed message.\<close>

record model_answer =
  ma_text :: string
  ma_thinking :: "string option"
  ma_thinking_signature :: "string option"
  ma_tool_calls :: "tool_call list"
  ma_usage :: "usage option"
  ma_finish_reason :: "finish_reason option"
  ma_message_id :: "string option"

definition answer_of_response :: "chat_response \<Rightarrow> model_answer" where
  "answer_of_response r = \<lparr>ma_text = (case resp_text r of Some t \<Rightarrow> t | None \<Rightarrow> []), ma_thinking = resp_thinking r,
     ma_thinking_signature = None, ma_tool_calls = (case resp_tool_calls r of Some cs \<Rightarrow> cs | None \<Rightarrow> []),
     ma_usage = resp_usage r, ma_finish_reason = resp_finish_reason r, ma_message_id = None\<rparr>"

definition answer_of_stream :: "string \<Rightarrow> stream_acc \<Rightarrow> model_answer" where
  "answer_of_stream mid acc = \<lparr>ma_text = sa_text acc,
     ma_thinking = (if sa_thinking acc = [] then None else Some (sa_thinking acc)),
     ma_thinking_signature = sa_thinking_signature acc, ma_tool_calls = sa_tool_calls acc, ma_usage = sa_usage acc,
     ma_finish_reason = (case sa_finish_reason acc of Some f \<Rightarrow> Some f
        | None \<Rightarrow> if sa_tool_calls acc = [] then Some FR_Stop else Some FR_ToolCalls),
     ma_message_id = Some mid\<rparr>"

definition answer_of_retry ::
    "(retry_error + chat_response) \<times> ('f, 't) agent_event list \<times> nat
     \<Rightarrow> (exec_error + model_answer option) \<times> ('f, 't) agent_event list" where
  "answer_of_retry R = (case R of (Inl e, evs, _) \<Rightarrow> (Inl (E_Retry e), evs)
     | (Inr r, evs, _) \<Rightarrow> (Inr (Some (answer_of_response r)), evs))"

text \<open>\<open>Inr None\<close> is a return with \<^verbatim>\<open>Cancelled\<close> from within the streaming path.\<close>

definition obtain_answer ::
    "('f, 'b, 't) llm_env \<Rightarrow> 't list \<Rightarrow> chat_message list
     \<Rightarrow> (exec_error + model_answer option) \<times> ('f, 't) agent_event list" where
  "obtain_answer E tools ms =
    (if tools = [] then answer_of_retry (call_llm_with_retry (le_ops E) (le_rate_limit E) (le_submit E ms))
     else (case le_provider_fails E of
         Some e \<Rightarrow> (Inl (E_Session e), [])
       | None \<Rightarrow>
           (if le_supports_streaming E
            then (case stream_loop (le_ops E) (le_rate_limit E) (le_stream E ms tools) (le_stream_message_id E) 0 of
                    (S_Done acc, evs, _) \<Rightarrow>
                      (if le_cancelled_after_stream E then (Inr None, evs)
                       else (Inr (Some (answer_of_stream (le_stream_message_id E) acc)), evs))
                  | (S_Cancelled, evs, _) \<Rightarrow> (Inr None, evs)
                  | (S_CreateError e, evs, _) \<Rightarrow> (Inl (E_Retry e), evs)
                  | (S_StreamError e, evs, _) \<Rightarrow> (Inl (E_Stream e), evs))
            else answer_of_retry
                   (call_llm_with_retry (le_ops E) (le_rate_limit E) (le_chat_with_tools E ms tools)))))"

text \<open>The two costs published with the answer; the cumulative one adds the reasoning tokens of the request
  to its billable output, which already has them.\<close>

definition request_costs ::
    "('f, 'b, 't) llm_env \<Rightarrow> 'f conversation_context \<Rightarrow> usage option \<Rightarrow> 'f option \<times> 'f option" where
  "request_costs E ctx usage =
    (case usage of
       None \<Rightarrow> (None, None)
     | Some u \<Rightarrow>
         (let billable = ucast (u_output u) + ucast (u_reasoning u) :: u64 in
          (case le_pricing E of None \<Rightarrow> None | Some p \<Rightarrow> calculate_cost (le_ops E) p (ucast (u_input u)) billable,
           case le_pricing E of None \<Rightarrow> None
           | Some p \<Rightarrow> calculate_cost (le_ops E) p (st_total_input_tokens (ctx_stats ctx) + ucast (u_input u))
                (st_total_output_tokens (ctx_stats ctx) + ucast (u_reasoning u) + billable))))"

definition request_end_event ::
    "('f, 'b, 't) llm_env \<Rightarrow> 'f conversation_context \<Rightarrow> model_answer \<Rightarrow> ('f, 't) agent_event" where
  "request_end_event E ctx a =
    (let (cost, cumulative) = request_costs E ctx (ma_usage a) in
     Ev_LlmRequestEnd (ma_usage a) (u32_from_usize (of_nat (length (ma_tool_calls a)))) (ma_finish_reason a) cost cumulative
       (calculate_context_tokens (ma_usage a)) (u32_from_usize (saturating_add (st_steps (ctx_stats ctx)) 1))
       (u32_from_usize (st_turns (ctx_stats ctx))))"

definition mw_tool_call_of :: "tool_call \<Rightarrow> mw_tool_call" where
  "mw_tool_call_of tc = \<lparr>mtc_id = tc_id tc, mtc_function = \<lparr>tf_name = fc_name (tc_function tc), tf_arguments = fc_arguments (tc_function tc)\<rparr>\<rparr>"

definition response_of_answer :: "model_answer \<Rightarrow> llm_response" where
  "response_of_answer a =
    (let r = with_thinking_signature
               (with_thinking (new_response (ma_text a) (map mw_tool_call_of (ma_tool_calls a)) (ma_usage a) (ma_finish_reason a))
                  (ma_thinking a)) (ma_thinking_signature a)
     in case ma_message_id a of Some mid \<Rightarrow> with_message_id r mid | None \<Rightarrow> r)"

definition transition_call_llm ::
    "('f, 'b, 't) llm_env \<Rightarrow> 'f conversation_context \<Rightarrow> 't list \<Rightarrow> ('f, 'b, 't) exec
     \<Rightarrow> (exec_error + ('f, 'b, 't) execution_state) \<times> ('f, 'b, 't) exec" where
  "transition_call_llm E ctx tools x =
    (if le_cancelled E then (Inr Cancelled, x)
     else
       (let x1 = emit_event (Ev_LlmRequestStart (u32_from_usize (of_nat (length (ctx_messages ctx))))) x in
        case obtain_answer E tools (apply_cache_breakpoints (ctx_messages ctx)) of
          (Inl e, evs) \<Rightarrow> (Inl e, emit_events evs x1)
        | (Inr None, evs) \<Rightarrow> (Inr Cancelled, emit_events evs x1)
        | (Inr (Some a), evs) \<Rightarrow>
            (Inr (AfterLlm (response_of_answer a) ctx),
             emit_event (request_end_event E ctx a) (emit_events evs x1))))"

section \<open>After the call\<close>

text \<open>\<^verbatim>\<open>ensure_pre_turn_snapshot_ready\<close> of \<^verbatim>\<open>crates/agent/src/agent/session_actor.rs\<close>: takes the pending task and
  stores a message for a finished snapshot. The caller only logs a failure.\<close>

definition snapshot_message :: "string \<Rightarrow> int \<Rightarrow> string \<Rightarrow> string \<Rightarrow> string \<Rightarrow> ('f, 'b) agent_message" where
  "snapshot_message mid now sid turn snap = \<lparr>am_id = mid, am_session_id = sid, am_role = Assistant,
     am_parts = [Part_TurnSnapshotStart turn snap], am_created_at = now, am_parent_message_id = None,
     am_source_provider = None, am_source_model = None\<rparr>"

definition ensure_pre_turn_snapshot_ready ::
    "('f, 'b, 't) llm_env \<Rightarrow> ('f, 'b, 't) exec \<Rightarrow> (session_error + unit) \<times> ('f, 'b, 't) exec" where
  "ensure_pre_turn_snapshot_ready E x =
    (let x1 = x\<lparr>x_pending_snapshot := None\<rparr> in
     case x_pending_snapshot x of
       Some (Snapshot_Ok turn snap) \<Rightarrow>
         add_message (le_fails E) (snapshot_message (le_snapshot_message_id E) (le_now E) (x_session_id x) turn snap)
           (x1\<lparr>x_turn_snapshot := Some (turn, snap)\<rparr>)
     | _ \<Rightarrow> (Inr (), x1))"

definition response_parts :: "llm_response \<Rightarrow> ('f, 'b) message_part list" where
  "response_parts r =
    (case lr_thinking r of
       Some t \<Rightarrow> (if t \<noteq> [] then [Part_Reasoning t (lr_thinking_signature r) None] else [])
     | None \<Rightarrow> []) @
    (if lr_content r \<noteq> [] then [Part_Text (lr_content r)] else []) @
    map (\<lambda>c. Part_ToolUse \<lparr>tc_id = mtc_id c, tc_type = ''function'',
       tc_function = \<lparr>fc_name = tf_name (mtc_function c), fc_arguments = tf_arguments (mtc_function c)\<rparr>\<rparr>) (lr_tool_calls r)"

definition assistant_message ::
    "('f, 'b, 't) llm_env \<Rightarrow> string \<Rightarrow> llm_response \<Rightarrow> 'f conversation_context \<Rightarrow> ('f, 'b) agent_message" where
  "assistant_message E sid r ctx = \<lparr>am_id = (case lr_message_id r of Some i \<Rightarrow> i | None \<Rightarrow> le_message_id E),
     am_session_id = sid, am_role = Assistant, am_parts = response_parts r, am_created_at = le_now E,
     am_parent_message_id = None, am_source_provider = Some (ctx_provider ctx), am_source_model = Some (ctx_model ctx)\<rparr>"

definition add_usage :: "usage \<Rightarrow> 'f agent_stats \<Rightarrow> 'f agent_stats" where
  "add_usage u s = s\<lparr>st_total_input_tokens := st_total_input_tokens s + ucast (u_input u),
     st_total_output_tokens := st_total_output_tokens s + ucast (u_output u),
     st_reasoning_tokens := st_reasoning_tokens s + ucast (u_reasoning u),
     st_cache_read_tokens := st_cache_read_tokens s + ucast (u_cache_read u),
     st_cache_write_tokens := st_cache_write_tokens s + ucast (u_cache_write u),
     st_context_tokens := ucast (calculate_context_tokens (Some u)),
     st_steps := st_steps s + 1\<rparr>"

definition updated_stats :: "('f, 'b, 't) llm_env \<Rightarrow> usage option \<Rightarrow> 'f agent_stats \<Rightarrow> 'f agent_stats" where
  "updated_stats E usage s =
    (case usage of
       None \<Rightarrow> s
     | Some u \<Rightarrow> (let s1 = add_usage u s in case le_pricing E of Some p \<Rightarrow> update_costs (le_ops E) p s1 | None \<Rightarrow> s1))"

definition answered_context ::
    "('f, 'b, 't) llm_env \<Rightarrow> llm_response \<Rightarrow> ('f, 'b) agent_message \<Rightarrow> 'f conversation_context \<Rightarrow> 'f conversation_context" where
  "answered_context E r msg ctx =
    with_session_mode
      (new_context (ctx_session_id ctx)
        (ctx_messages ctx @ [to_chat_message_with_target (le_render E) (le_parse E) msg None None None])
        (updated_stats E (lr_usage r) (ctx_stats ctx)) (ctx_provider ctx) (ctx_model ctx))
      (ctx_session_mode ctx)"

text \<open>\<^verbatim>\<open>update_task_status\<close> of the session runtime.\<close>

definition update_active_task ::
    "('f, 'b, 't) llm_env \<Rightarrow> task_status \<Rightarrow> ('f, 'b, 't) exec \<Rightarrow> (session_error + unit) \<times> ('f, 'b, 't) exec" where
  "update_active_task E status x =
    (case x_active_task x of
       None \<Rightarrow> (Inr (), x)
     | Some t \<Rightarrow>
         (case le_task_fails E of
            Some e \<Rightarrow> (Inl e, x)
          | None \<Rightarrow> (Inr (), x\<lparr>x_active_task := Some (t\<lparr>task_status_of := status, task_updated_at := le_now E\<rparr>)\<rparr>)))"

definition complete_active_task :: "('f, 'b, 't) llm_env \<Rightarrow> ('f, 'b, 't) exec \<Rightarrow> ('f, 'b, 't) exec" where
  "complete_active_task E x =
    (case x_active_task x of
       None \<Rightarrow> x
     | Some t \<Rightarrow>
         (if task_kind_of t = Recurring then x
          else (case update_active_task E Task_Done x of
              (Inl _, x') \<Rightarrow> x'
            | (Inr _, x') \<Rightarrow> (case x_active_task x' of Some t' \<Rightarrow> emit_event (Ev_TaskStatusChanged t') x' | None \<Rightarrow> x'))))"

definition calls_or_complete :: "llm_response \<Rightarrow> 'f conversation_context \<Rightarrow> ('f, 'b, 't) execution_state" where
  "calls_or_complete r ctx =
    (if lr_tool_calls r \<noteq> [] then ProcessingToolCalls (lr_tool_calls r) [] ctx else Complete)"

definition next_after_response ::
    "('f, 'b, 't) llm_env \<Rightarrow> llm_response \<Rightarrow> 'f conversation_context \<Rightarrow> ('f, 'b, 't) exec
     \<Rightarrow> ('f, 'b, 't) execution_state \<times> ('f, 'b, 't) exec" where
  "next_after_response E r ctx x =
    (case lr_finish_reason r of
       Some FR_ToolCalls \<Rightarrow> (calls_or_complete r ctx, x)
     | Some FR_Stop \<Rightarrow> (Complete, complete_active_task E x)
     | Some FR_Length \<Rightarrow> (Stopped ''Model hit token limit'' ModelTokenLimit (Some ctx), x)
     | Some FR_ContentFilter \<Rightarrow> (Stopped ''Response blocked by content filter'' ContentFilter (Some ctx), x)
     | _ \<Rightarrow> (calls_or_complete r ctx, x))"

definition progress_text :: "llm_response \<Rightarrow> string" where
  "progress_text r =
    (if has_tool_calls r then ''Received response with '' @ show_nat (length (lr_tool_calls r)) @ '' tool call(s)''
     else ''Received response from LLM'')"

definition transition_after_llm ::
    "('f, 'b, 't) llm_env \<Rightarrow> llm_response \<Rightarrow> 'f conversation_context \<Rightarrow> ('f, 'b, 't) exec
     \<Rightarrow> (exec_error + ('f, 'b, 't) execution_state) \<times> ('f, 'b, 't) exec" where
  "transition_after_llm E r ctx x =
    (if le_cancelled E then (Inr Cancelled, x)
     else let x0 = snd (ensure_pre_turn_snapshot_ready E x) in
       (case le_record_progress E (progress_text r) of
         Some e \<Rightarrow> (Inl (E_Session e), x0)
       | None \<Rightarrow>
           (let x1 = emit_event (Ev_ProgressRecorded (progress_text r)) x0;
                msg = assistant_message E (x_session_id x) r ctx in
            case add_message (le_fails E) msg x1 of
              (Inl e, x2) \<Rightarrow> (Inl (E_Session e), x2)
            | (Inr _, x2) \<Rightarrow>
                (let x3 = emit_event (Ev_AssistantMessageStored (lr_content r) (lr_thinking r) (Some (am_id msg))) x2;
                     (s, x4) = next_after_response E r (answered_context E r msg ctx) x3
                 in (Inr s, x4)))))"

section \<open>Lemmas\<close>

lemma answered_context_fields [simp]:
  "ctx_session_id (answered_context E r m c) = ctx_session_id c" "ctx_provider (answered_context E r m c) = ctx_provider c"
  "ctx_model (answered_context E r m c) = ctx_model c" "ctx_session_mode (answered_context E r m c) = ctx_session_mode c"
  "ctx_stats (answered_context E r m c) = updated_stats E (lr_usage r) (ctx_stats c)"
  "ctx_messages (answered_context E r m c) =
     ctx_messages c @ [to_chat_message_with_target (le_render E) (le_parse E) m None None None]"
  by (simp_all add: answered_context_def with_session_mode_def new_context_def)

lemma updated_stats_steps [simp]:
  "st_steps (updated_stats E u s) = (if u = None then st_steps s else st_steps s + 1)"
  "st_turns (updated_stats E u s) = st_turns s"
  by (simp_all add: updated_stats_def add_usage_def Let_def split: option.split)

lemma complete_active_task_frame [simp]:
  "x_history (complete_active_task E x) = x_history x" "x_session_id (complete_active_task E x) = x_session_id x"
  by (simp_all add: complete_active_task_def update_active_task_def split: option.split)

lemma next_after_response_frame [simp]:
  "x_history (snd (next_after_response E r c x)) = x_history x"
  by (simp add: next_after_response_def split: option.split finish_reason.split)

lemma ensure_snapshot_history:
  "\<exists>ms. x_history (snd (ensure_pre_turn_snapshot_ready E x)) = x_history x @ ms \<and> list_all (\<lambda>m. \<not> not_tool_message m) ms"
  if "not_tool_message = (\<lambda>m. list_ex (\<lambda>p. case p of Part_TurnSnapshotStart _ _ \<Rightarrow> False | _ \<Rightarrow> True) (am_parts m))"
  by (auto simp: ensure_pre_turn_snapshot_ready_def add_message_def snapshot_message_def that Let_def
      split: option.split snapshot_task.split)

text \<open>The use of a tool that a response asks for, as stored.\<close>

definition tool_use_ids :: "('f, 'b) agent_message \<Rightarrow> string list" where
  "tool_use_ids m = List.map_filter (\<lambda>p. case p of Part_ToolUse tc \<Rightarrow> Some (tc_id tc) | _ \<Rightarrow> None) (am_parts m)"

lemma map_filter_append: "List.map_filter f (xs @ ys) = List.map_filter f xs @ List.map_filter f ys"
  by (induction xs) (simp_all add: List.map_filter_simps split: option.split)

lemma map_filter_map_some: "(\<And>x. f (g x) = Some (h x)) \<Longrightarrow> List.map_filter f (map g xs) = map h xs"
  by (induction xs) (simp_all add: List.map_filter_simps)

lemma assistant_tool_use_ids: "tool_use_ids (assistant_message E sid r c) = map mtc_id (lr_tool_calls r)"
  by (simp add: tool_use_ids_def assistant_message_def response_parts_def map_filter_append map_filter_map_some
      List.map_filter_simps split: option.split)

lemma mark_last_two_enumerate:
  "map (\<lambda>(i, m). if k \<le> i then f m else m) (List.enumerate n xs) = take (k - n) xs @ map f (drop (k - n) xs)"
proof (induction xs arbitrary: n)
  case (Cons a xs)
  show ?case
  proof (cases "k \<le> n")
    case True
    with Cons [of "Suc n"] show ?thesis by simp
  next
    case False
    then obtain d where "k - n = Suc d" "k - Suc n = d" by (metis Suc_diff_Suc not_le)
    with Cons [of "Suc n"] False show ?thesis by simp
  qed
qed simp

lemma mcp_allowed_iff:
  "is_mcp_tool_allowed_with cfg n s \<longleftrightarrow> n \<notin> tcf_denylist cfg \<and>
    (case tcf_allowlist cfg of None \<Rightarrow> True | Some allow \<Rightarrow> n \<in> allow \<or> (\<exists>sv. s = Some sv \<and> sv @ ''.*'' \<in> allow))"
  by (auto simp: is_mcp_tool_allowed_with_def split: option.split)

section \<open>Properties\<close>

text \<open>The cache hint is put on exactly the last two messages of a conversation of at least two messages,
  and on none of a shorter one; nothing else of the messages changes.\<close>

theorem cache_breakpoints_last_two:
  "apply_cache_breakpoints ms =
    (if length ms < 2 then ms
     else take (length ms - 2) ms @ map (\<lambda>m. m\<lparr>cm_cache := Some (Ephemeral None)\<rparr>) (drop (length ms - 2) ms))"
proof (cases "length ms < 2")
  case True
  have "map (\<lambda>(i, m). m) (List.enumerate n ms) = ms" for n and ms :: "chat_message list"
    by (induction ms arbitrary: n) auto
  with True show ?thesis by (simp add: apply_cache_breakpoints_def)
next
  case False
  then show ?thesis
    using mark_last_two_enumerate [where k = "length ms - 2" and n = 0 and xs = ms
        and f = "\<lambda>m. m\<lparr>cm_cache := Some (Ephemeral None)\<rparr>"]
    by (simp add: apply_cache_breakpoints_def Let_def)
qed


text \<open>The event with the available tools is published only when the set of tools has changed: running
  the transition again with the same tools changes nothing and gives the same next state.\<close>

theorem tools_announced_once:
  "transition_before_llm_call E c (snd (transition_before_llm_call E c x)) =
    (fst (transition_before_llm_call E c x), snd (transition_before_llm_call E c x))"
  by (simp add: transition_before_llm_call_def Let_def emit_event_def split: option.split sum.split)

text \<open>When the model finishes with \<^verbatim>\<open>Stop\<close>, \<^verbatim>\<open>Length\<close> or \<^verbatim>\<open>ContentFilter\<close> and still asks for tools, its
  answer is stored with the tool uses, but the next state does not process them: the turn ends with tool
  uses that have no results.\<close>

theorem finished_answer_leaves_calls_open:
  assumes "lr_finish_reason r \<in> {Some FR_Stop, Some FR_Length, Some FR_ContentFilter}"
    and "\<not> le_cancelled E" and "le_record_progress E (progress_text r) = None" and "le_fails E = (\<lambda>_. None)"
  shows "\<exists>s x'. transition_after_llm E r c x = (Inr s, x') \<and> (s = Complete \<or> (\<exists>msg t co. s = Stopped msg t co)) \<and>
    tool_use_ids (last (x_history x')) = map mtc_id (lr_tool_calls r)"
  using assms
  by (auto simp: transition_after_llm_def add_message_def next_after_response_def assistant_tool_use_ids Let_def)

definition demo_llm_env :: "(rat, unit, unit) llm_env" where
  "demo_llm_env = \<lparr>le_ops = rat_ops, le_render = (\<lambda>_ _. []), le_parse = (\<lambda>_. None),
     le_rate_limit = \<lparr>rl_max_retries = 1, rl_default_wait_secs = 1, rl_backoff_multiplier = 2, rl_max_stream_retries = 0\<rparr>,
     le_pricing = None, le_cancelled = False, le_cancelled_after_stream = False, le_provider_fails = None,
     le_builtin_tools = [()], le_provider_tools = None, le_mcp_tools = [],
     le_tool_config = \<lparr>tcf_policy = BuiltInOnly, tcf_allowlist = None, tcf_denylist = {}\<rparr>, le_tool_name = (\<lambda>_. ''shell''),
     le_tools_hash = (\<lambda>_. Inr 1), le_supports_streaming = False,
     le_submit = (\<lambda>_. \<lparr>io_call = (\<lambda>_. Inl CancelledErr), io_cancelled = (\<lambda>_. False), io_cancel_wait = (\<lambda>_. False), io_clock = (\<lambda>_. 0)\<rparr>),
     le_chat_with_tools = (\<lambda>_ _. \<lparr>io_call = (\<lambda>_. Inr \<lparr>resp_text = Some ''ok'', resp_tool_calls = None,
         resp_finish_reason = Some FR_Stop, resp_thinking = None,
         resp_usage = Some \<lparr>u_input = 1, u_output = 1, u_reasoning = 0, u_cache_read = 0, u_cache_write = 0\<rparr>\<rparr>),
       io_cancelled = (\<lambda>_. False), io_cancel_wait = (\<lambda>_. False), io_clock = (\<lambda>_. 0)\<rparr>),
     le_stream = (\<lambda>_ _ _. \<lparr>io_call = (\<lambda>_. Inr []), io_cancelled = (\<lambda>_. False), io_cancel_wait = (\<lambda>_. False), io_clock = (\<lambda>_. 0)\<rparr>),
     le_stream_message_id = ''sm'', le_snapshot_message_id = ''sn'', le_message_id = ''mm'', le_now = 0,
     le_record_progress = (\<lambda>_. None), le_fails = (\<lambda>_. None), le_task_fails = None\<rparr>"

theorem finished_answer_leaves_calls_open_witness:
  "\<exists>s x'. transition_after_llm demo_llm_env
      (new_response [] [\<lparr>mtc_id = ''c1'', mtc_function = \<lparr>tf_name = ''shell'', tf_arguments = []\<rparr>\<rparr>] None (Some FR_Stop))
      (new_context ''s'' [] (default_stats rat_ops) ''p'' ''m'') demo_exec = (Inr s, x') \<and>
    tool_use_ids (last (x_history x')) = [''c1'']"
proof -
  define r where "r = new_response [] [\<lparr>mtc_id = ''c1'', mtc_function = \<lparr>tf_name = ''shell'', tf_arguments = []\<rparr>\<rparr>] None (Some FR_Stop)"
  have "\<exists>s x'. transition_after_llm demo_llm_env r (new_context ''s'' [] (default_stats rat_ops) ''p'' ''m'') demo_exec = (Inr s, x') \<and>
      (s = Complete \<or> (\<exists>msg t co. s = Stopped msg t co)) \<and> tool_use_ids (last (x_history x')) = map mtc_id (lr_tool_calls r)"
    by (rule finished_answer_leaves_calls_open) (simp_all add: demo_llm_env_def r_def new_response_def)
  then show ?thesis unfolding r_def by (auto simp: new_response_def)
qed

text \<open>The cumulative cost published with an answer is not the cost the statistics hold after it: for a
  first request with one million reasoning tokens at one dollar per million it is two dollars, the
  statistics have one.\<close>

theorem cumulative_cost_counts_reasoning_twice:
  "let p = \<lparr>mp_input = Some 1, mp_output = Some 1, mp_cache_read = None, mp_cache_write = None\<rparr>;
       u = \<lparr>u_input = 0, u_output = 0, u_reasoning = 1000000, u_cache_read = 0, u_cache_write = 0\<rparr>;
       E = (E0 :: (rat, 'b, 't) llm_env)\<lparr>le_ops := rat_ops, le_pricing := Some p\<rparr>;
       c = new_context sid ms (default_stats rat_ops) prov mdl
   in request_costs E c (Some u) = (Some 1, Some 2) \<and>
      st_total_cost_usd (updated_stats E (Some u) (ctx_stats c)) = 1"
  by (simp add: request_costs_def updated_stats_def add_usage_def update_costs_def update_base_costs_def
      calculate_cost_def calculate_cache_cost_def per_million_def rat_ops_def default_stats_def new_context_def Let_def)

end
