(* ===== verification/Wait_Events.thy ===== *)
theory Wait_Events
  imports Events
begin

text \<open>
  Waiting for delegations (\<^verbatim>\<open>crates/agent/src/agent/execution/wait.rs\<close>), with the messages of
  \<^verbatim>\<open>crates/agent/src/delegation/core.rs\<close> it prints and the status update of
  \<^verbatim>\<open>crates/agent/src/session/repo_delegation.rs\<close> it performs.

  The loop waits on the cancellation token, a timer and the event stream; the list of inputs is the
  order in which they fire. \<open>None\<close> means that the inputs are used up and the loop is still waiting.
  The pending identifiers are a hash set in the source; here they are a list without duplicates, in
  the order of the wait condition.
\<close>

datatype ('f, 't) wait_input =
    WI_Cancelled
  | WI_Timeout
  | WI_Lagged
  | WI_Closed
  | WI_Event string "('f, 't) agent_event"          \<comment> \<open>session and event\<close>

datatype delegation_wait_policy = WaitAll | WaitAny

datatype wait_event_outcome =
    W_Completed string "string option"
  | W_Failed string string
  | W_Cancelled string

fun outcome_id :: "wait_event_outcome \<Rightarrow> string" where
  "outcome_id (W_Completed i _) = i"
| "outcome_id (W_Failed i _) = i"
| "outcome_id (W_Cancelled i) = i"

definition correlates :: "wait_condition \<Rightarrow> string \<Rightarrow> bool" where
  "correlates wait i = (\<not> (wc_correlation_ids wait \<noteq> [] \<and> i \<notin> set (wc_correlation_ids wait)))"

definition match_wait_event :: "wait_condition \<Rightarrow> ('f, 't) agent_event \<Rightarrow> wait_event_outcome option" where
  "match_wait_event wait ev =
    (case wc_reason wait of
       WaitDelegation \<Rightarrow>
         (case ev of
            Ev_DelegationCompleted i result \<Rightarrow> (if correlates wait i then Some (W_Completed i result) else None)
          | Ev_DelegationFailed i err \<Rightarrow> (if correlates wait i then Some (W_Failed i err) else None)
          | Ev_DelegationCancelled i \<Rightarrow> (if correlates wait i then Some (W_Cancelled i) else None)
          | _ \<Rightarrow> None))"

section \<open>Messages\<close>

definition classify_delegation_error :: "string \<Rightarrow> string \<times> string" where
  "classify_delegation_error err =
    (if str_contains ''Invalid patch'' err \<or> str_contains ''patch: ****'' err
        \<or> (str_contains ''Line'' err \<and> str_contains ''mismatch'' err)
     then (''Patch Application Failure'',
       ''The patch could not be applied to the file.'' @ nl @
       ''-> Use read_tool to see the current state of the target file'' @ nl @
       ''-> Verify the lines you want to change actually exist as shown in the file'' @ nl @
       ''-> Create a new patch with correct context lines matching the actual file'')
     else if str_contains ''Verification failed'' err \<or> str_contains ''cargo check'' err \<or> str_contains ''compilation'' err
     then (''Verification Failure'',
       ''The code change was applied but does not compile or pass tests.'' @ nl @
       ''-> Read the verification error output carefully'' @ nl @
       ''-> Understand what is wrong with the code'' @ nl @
       ''-> Fix the compilation/test errors with another delegation'')
     else if str_contains ''workdir'' err \<or> str_contains ''does not exist'' err
     then (''Invalid Working Directory'',
       ''The specified path or directory does not exist.'' @ nl @
       ''-> Do NOT specify workdir parameter in patches'' @ nl @
       ''-> Patches apply relative to current directory by default'' @ nl @
       ''-> Verify file paths are correct'')
     else if str_contains ''MAX RETRIES'' err \<or> str_contains ''retry'' err
     then (''Too Many Retries'',
       ''This delegation has been attempted multiple times and keeps failing.'' @ nl @
       ''-> The current approach is not working'' @ nl @
       ''-> Try a completely different strategy'' @ nl @
       ''-> Break down the task into smaller, simpler steps'' @ nl @
       ''-> Consider delegating to a different agent'')
     else (''Unknown Error'',
       ''Review the error details above carefully.'' @ nl @
       ''-> Look for clues about what went wrong'' @ nl @
       ''-> Consider trying a different approach'' @ nl @
       ''-> If the error is unclear, break the task into smaller steps''))"

definition format_delegation_completion_message :: "string \<Rightarrow> string \<Rightarrow> string" where
  "format_delegation_completion_message i summary =
    ''Delegation completed.'' @ nl @ nl @ ''Delegation ID: '' @ i @ nl @ nl @ summary @ nl @ nl @
    ''Please review the changes and determine if:'' @ nl @
    ''1. The task is complete and satisfactory'' @ nl @
    ''2. Additional fixes or improvements are needed'' @ nl @
    ''3. Further delegation is required''"

definition format_delegation_failure_message :: "string \<Rightarrow> string \<Rightarrow> string" where
  "format_delegation_failure_message i err =
    (let (error_type, remediation) = classify_delegation_error err in
     ''Delegation failed.'' @ nl @ nl @ ''Delegation ID: '' @ i @ nl @ nl @
     ''Error Type: '' @ error_type @ nl @ ''Error Details:'' @ nl @ err @ nl @ nl @
     ''Suggested Next Steps:'' @ nl @ remediation @ nl @ nl @
     ''IMPORTANT: Do NOT immediately retry the same approach. Analyze the error and adjust your strategy.'')"

definition summary_or_default :: "string option \<Rightarrow> string" where
  "summary_or_default r = (case r of Some s \<Rightarrow> s | None \<Rightarrow> ''No summary provided.'')"

fun format_wait_outcome :: "wait_event_outcome \<Rightarrow> string" where
  "format_wait_outcome (W_Completed i r) = format_delegation_completion_message i (summary_or_default r)"
| "format_wait_outcome (W_Failed i e) = format_delegation_failure_message i e"
| "format_wait_outcome (W_Cancelled i) = ''Delegation cancelled.'' @ nl @ nl @ ''Delegation ID: '' @ i"

fun format_wait_all_item :: "wait_event_outcome \<Rightarrow> string" where
  "format_wait_all_item (W_Completed i r) = ''- '' @ i @ '': completed ('' @ summary_or_default r @ '')''"
| "format_wait_all_item (W_Failed i e) = ''- '' @ i @ '': failed ('' @ e @ '')''"
| "format_wait_all_item (W_Cancelled i) = ''- '' @ i @ '': cancelled''"

definition format_timed_out :: "u64 \<Rightarrow> string \<Rightarrow> string" where
  "format_timed_out secs i =
    ''- '' @ i @ '': timed out after '' @ show_nat (unat secs) @ ''s of inactivity (cancel requested)''"

definition format_wait_all_summary :: "string list \<Rightarrow> string" where
  "format_wait_all_summary items =
    ''Delegation batch completed.'' @ nl @ nl @ ''Results:'' @ nl @ concat (map (\<lambda>i. i @ nl) items) @ nl @
    ''Please review outcomes and decide next actions.''"

section \<open>Effects\<close>

text \<open>\<^verbatim>\<open>UPDATE delegations SET status = ? WHERE public_id = ?\<close>; no matching row is an error.\<close>

definition update_delegation_status ::
    "string \<Rightarrow> delegation_status \<Rightarrow> delegation list \<Rightarrow> (session_error + unit) \<times> delegation list" where
  "update_delegation_status i st ds =
    (if list_ex (\<lambda>d. del_public_id d = i) ds
     then (Inr (), map (\<lambda>d. if del_public_id d = i then d\<lparr>del_status := st\<rparr> else d) ds)
     else (Inl (DelegationNotFound i), ds))"

definition cleanup_one :: "string \<Rightarrow> ('f, 'b, 't) exec \<Rightarrow> ('f, 'b, 't) exec" where
  "cleanup_one i x =
    (let x1 = emit_event (Ev_DelegationCancelRequested i) x;
         x2 = x1\<lparr>x_delegations := snd (update_delegation_status i Del_Cancelled (x_delegations x1))\<rparr>
     in emit_event (Ev_DelegationCancelled i) x2)"

definition cleanup_timed_out_delegations :: "string list \<Rightarrow> ('f, 'b, 't) exec \<Rightarrow> ('f, 'b, 't) exec" where
  "cleanup_timed_out_delegations ids x = fold cleanup_one ids x"

definition wait_message :: "string \<Rightarrow> int \<Rightarrow> string \<Rightarrow> string \<Rightarrow> ('f, 'b) agent_message" where
  "wait_message mid now sid c = \<lparr>am_id = mid, am_session_id = sid, am_role = User, am_parts = [Part_Text c],
     am_created_at = now, am_parent_message_id = None, am_source_provider = None, am_source_model = None\<rparr>"

text \<open>The services of a wait: which messages the store rejects, the fresh identifier and the clock.\<close>

record ('f, 'b) wait_env =
  we_fails :: "('f, 'b) agent_message \<Rightarrow> session_error option"
  we_message_id :: string
  we_now :: int
  we_policy :: delegation_wait_policy
  we_timeout_secs :: u64

definition inject_wait_message ::
    "('f, 'b) wait_env \<Rightarrow> 'f conversation_context \<Rightarrow> string \<Rightarrow> ('f, 'b, 't) exec
     \<Rightarrow> (string + ('f, 'b, 't) execution_state) \<times> ('f, 'b, 't) exec" where
  "inject_wait_message W ctx c x =
    (case add_message (we_fails W) (wait_message (we_message_id W) (we_now W) (x_session_id x) c) x of
       (Inl _, x1) \<Rightarrow> (Inl ''Failed to store wait message'', x1)
     | (Inr _, x1) \<Rightarrow> (Inr (BeforeLlmCall (inject_message ctx c)), emit_event (Ev_UserMessageStored c) x1))"

definition closed_state :: "'f conversation_context \<Rightarrow> ('f, 'b, 't) execution_state" where
  "closed_state ctx = Stopped ''Event stream closed while waiting'' OtherStop (Some ctx)"

section \<open>The two loops\<close>

fun wait_any_loop ::
    "('f, 'b) wait_env \<Rightarrow> wait_condition \<Rightarrow> 'f conversation_context \<Rightarrow> ('f, 't) wait_input list \<Rightarrow> ('f, 'b, 't) exec
     \<Rightarrow> ((string + ('f, 'b, 't) execution_state) \<times> ('f, 'b, 't) exec) option" where
  "wait_any_loop W wait ctx [] x = None"
| "wait_any_loop W wait ctx (i # is) x =
    (case i of
       WI_Cancelled \<Rightarrow> Some (Inr Cancelled, x)
     | WI_Timeout \<Rightarrow> wait_any_loop W wait ctx is x
     | WI_Lagged \<Rightarrow> wait_any_loop W wait ctx is x
     | WI_Closed \<Rightarrow> Some (Inr (closed_state ctx), x)
     | WI_Event sid ev \<Rightarrow>
         (if sid \<noteq> x_session_id x then wait_any_loop W wait ctx is x
          else (case match_wait_event wait ev of
              Some outcome \<Rightarrow> Some (inject_wait_message W ctx (format_wait_outcome outcome) x)
            | None \<Rightarrow> wait_any_loop W wait ctx is x)))"

fun wait_all_loop ::
    "('f, 'b) wait_env \<Rightarrow> wait_condition \<Rightarrow> 'f conversation_context \<Rightarrow> string list \<Rightarrow> string list
     \<Rightarrow> ('f, 't) wait_input list \<Rightarrow> ('f, 'b, 't) exec
     \<Rightarrow> ((string + ('f, 'b, 't) execution_state) \<times> ('f, 'b, 't) exec) option" where
  "wait_all_loop W wait ctx pending outcomes [] x = None"
| "wait_all_loop W wait ctx pending outcomes (i # is) x =
    (case i of
       WI_Cancelled \<Rightarrow> Some (Inr Cancelled, x)
     | WI_Timeout \<Rightarrow>
         (if 0 < we_timeout_secs W
          then Some (inject_wait_message W ctx
                 (format_wait_all_summary (outcomes @ map (format_timed_out (we_timeout_secs W)) pending))
                 (cleanup_timed_out_delegations pending x))
          else wait_all_loop W wait ctx pending outcomes is x)
     | WI_Lagged \<Rightarrow> wait_all_loop W wait ctx pending outcomes is x
     | WI_Closed \<Rightarrow> Some (Inr (closed_state ctx), x)
     | WI_Event sid ev \<Rightarrow>
         (if sid \<noteq> x_session_id x then wait_all_loop W wait ctx pending outcomes is x
          else (case match_wait_event wait ev of
              None \<Rightarrow> wait_all_loop W wait ctx pending outcomes is x
            | Some outcome \<Rightarrow>
                (if outcome_id outcome \<notin> set pending then wait_all_loop W wait ctx pending outcomes is x
                 else
                   let pending' = remove1 (outcome_id outcome) pending;
                       outcomes' = outcomes @ [format_wait_all_item outcome]
                   in if pending' = []
                      then Some (inject_wait_message W ctx (format_wait_all_summary outcomes') x)
                      else wait_all_loop W wait ctx pending' outcomes' is x))))"

definition transition_waiting_for_event ::
    "('f, 'b) wait_env \<Rightarrow> bool \<Rightarrow> wait_condition \<Rightarrow> 'f conversation_context \<Rightarrow> ('f, 't) wait_input list \<Rightarrow> ('f, 'b, 't) exec
     \<Rightarrow> ((string + ('f, 'b, 't) execution_state) \<times> ('f, 'b, 't) exec) option" where
  "transition_waiting_for_event W cancelled wait ctx is x =
    (if cancelled then Some (Inr Cancelled, x)
     else if wc_reason wait \<noteq> WaitDelegation then Some (Inr (BeforeLlmCall ctx), x)
     else if we_policy W = WaitAny then wait_any_loop W wait ctx is x
     else (let pending = remdups (wc_correlation_ids wait) in
           if pending = [] then Some (Inr (BeforeLlmCall ctx), x)
           else wait_all_loop W wait ctx pending [] is x))"

section \<open>When a wait ends\<close>

text \<open>The delegations of the session that the inputs report on.\<close>

definition reported_ids :: "wait_condition \<Rightarrow> string \<Rightarrow> ('f, 't) wait_input list \<Rightarrow> string set" where
  "reported_ids wait sid is =
    {i. \<exists>ev oc. WI_Event sid ev \<in> set is \<and> match_wait_event wait ev = Some oc \<and> outcome_id oc = i}"

fun quiet_input :: "('f, 't) wait_input \<Rightarrow> bool" where
  "quiet_input (WI_Event _ _) = True"
| "quiet_input WI_Lagged = True"
| "quiet_input _ = False"

lemma reported_ids_Nil [simp]: "reported_ids wait sid [] = {}"
  by (simp add: reported_ids_def)

lemma reported_ids_Cons:
  "reported_ids wait sid (i # is) =
    (case i of WI_Event sid' ev \<Rightarrow> (case match_wait_event wait ev of
         Some oc \<Rightarrow> if sid' = sid then {outcome_id oc} else {} | None \<Rightarrow> {}) | _ \<Rightarrow> {}) \<union> reported_ids wait sid is"
  by (cases i) (auto simp: reported_ids_def split: option.splits)

lemma wait_all_returns_iff:
  assumes "list_all quiet_input is" "pending \<noteq> []" "distinct pending"
  shows "wait_all_loop W wait ctx pending outcomes is x \<noteq> None \<longleftrightarrow> set pending \<subseteq> reported_ids wait (x_session_id x) is"
  using assms
proof (induction "is" arbitrary: pending outcomes)
  case Nil
  then show ?case by simp
next
  case (Cons i "is")
  from Cons.prems have q: "list_all quiet_input is" by simp
  show ?case
  proof (cases i)
    case (WI_Event sid ev)
    show ?thesis
    proof (cases "sid = x_session_id x \<and> (\<exists>oc. match_wait_event wait ev = Some oc \<and> outcome_id oc \<in> set pending)")
      case True
      then obtain oc where oc: "sid = x_session_id x" "match_wait_event wait ev = Some oc" "outcome_id oc \<in> set pending" by blast
      define p where "p = remove1 (outcome_id oc) pending"
      have setp: "set pending = insert (outcome_id oc) (set p)" and dp: "distinct p"
        using oc(3) Cons.prems(3) by (auto simp: p_def)
      have step: "wait_all_loop W wait ctx pending outcomes (i # is) x =
          (if p = [] then Some (inject_wait_message W ctx (format_wait_all_summary (outcomes @ [format_wait_all_item oc])) x)
           else wait_all_loop W wait ctx p (outcomes @ [format_wait_all_item oc]) is x)"
        using oc WI_Event by (simp add: p_def Let_def)
      have rep: "reported_ids wait (x_session_id x) (i # is) = insert (outcome_id oc) (reported_ids wait (x_session_id x) is)"
        using oc WI_Event by (simp add: reported_ids_Cons)
      show ?thesis
      proof (cases "p = []")
        case True
        then show ?thesis unfolding step rep setp by simp
      next
        case False
        have new: "outcome_id oc \<notin> set p" using Cons.prems(3) by (simp add: p_def)
        from False Cons.IH [OF q False dp, of "outcomes @ [format_wait_all_item oc]"] show ?thesis
          unfolding step rep setp using new by auto
      qed
    next
      case False
      with Cons.IH [OF q Cons.prems(2,3)] WI_Event show ?thesis
        by (auto simp: reported_ids_Cons split: option.splits)
    qed
  qed (use Cons.prems Cons.IH [OF q Cons.prems(2,3)] in \<open>auto simp: reported_ids_Cons\<close>)
qed

text \<open>Whatever ends a wait, the next state continues with the context extended by one injected message,
  stops with the context as it was, or is the cancellation.\<close>

fun wait_result :: "'f conversation_context \<Rightarrow> ('f, 'b, 't) execution_state \<Rightarrow> bool" where
  "wait_result ctx (BeforeLlmCall c) = ctx_extends ctx c"
| "wait_result ctx (Stopped _ t c) = (t = OtherStop \<and> c = Some ctx)"
| "wait_result ctx Cancelled = True"
| "wait_result ctx _ = False"

lemma inject_wait_result:
  "inject_wait_message W ctx c x = (Inr s, x') \<Longrightarrow> wait_result ctx s"
  by (auto simp: inject_wait_message_def split: prod.splits sum.splits)

lemma wait_any_result: "wait_any_loop W wait ctx is x = Some (Inr s, x') \<Longrightarrow> wait_result ctx s"
  by (induction "is") (auto simp: closed_state_def split: wait_input.splits if_splits option.splits intro: inject_wait_result)

lemma wait_all_result: "wait_all_loop W wait ctx p os is x = Some (Inr s, x') \<Longrightarrow> wait_result ctx s"
  by (induction "is" arbitrary: p os)
    (auto simp: closed_state_def Let_def split: wait_input.splits if_splits option.splits intro: inject_wait_result)

lemma waiting_result:
  "transition_waiting_for_event W cancelled wait ctx is x = Some (Inr s, x') \<Longrightarrow> wait_result ctx s"
  by (auto simp: transition_waiting_for_event_def Let_def split: if_splits intro: wait_any_result wait_all_result)


definition demo_wait_env :: "(rat, unit) wait_env" where
  "demo_wait_env = \<lparr>we_fails = (\<lambda>_. None), we_message_id = ''m'', we_now = 0, we_policy = WaitAll, we_timeout_secs = 120\<rparr>"

definition demo_wait_exec :: "(rat, unit, unit) exec" where
  "demo_wait_exec = \<lparr>x_session_id = ''s'', x_history = [], x_events = [], x_tools_hash = None, x_active_task = None,
     x_turn_diffs = \<lparr>dp_added = [], dp_modified = [], dp_removed = []\<rparr>, x_permission_cache = Map.empty, x_delegations = [],
     x_pending_snapshot = None, x_turn_snapshot = None\<rparr>"


end
