(* ===== verification/Pruning.thy ===== *)
theory Pruning
  imports Chat "HOL-Library.List_Lexorder" "HOL-Library.Char_ord"
begin

text \<open>
  Pruning of old tool outputs: \<^verbatim>\<open>crates/agent/src/session/pruning.rs\<close>. The cost estimators (generic and
  OpenAI image pricing) and the backwards walk that chooses what to prune, with a reference
  definition of the walk in terms of list functions.

  The image size reader (the imagesize crate) and the JSON printer are arguments; the scaling
  arithmetic is floating point.
\<close>

section \<open>Estimators\<close>

datatype image_cost_model =
    Tile usize usize
  | Patch usize usize usize

definition to_ascii_lowercase :: "string \<Rightarrow> string" where
  "to_ascii_lowercase = map (\<lambda>c. if CHR ''A'' \<le> c \<and> c \<le> CHR ''Z'' then char_of (of_char c + 32 :: nat) else c)"

definition openai_image_cost_model :: "string \<Rightarrow> image_cost_model option" where
  "openai_image_cost_model name =
    (let model = to_ascii_lowercase name in
     if model \<in> {''gpt-5'', ''gpt-5-chat-latest''} then Some (Tile 70 140)
     else if model \<in> {''gpt-4o'', ''gpt-4.1'', ''gpt-4.5''} then Some (Tile 85 170)
     else if model = ''gpt-4o-mini'' then Some (Tile 2833 5667)
     else if model \<in> {''o1'', ''o1-pro'', ''o3''} then Some (Tile 75 150)
     else if model = ''computer-use-preview'' then Some (Tile 65 129)
     else if model \<in> {''gpt-5.4-mini'', ''gpt-5-mini'', ''gpt-4.1-mini'', ''gpt-4.1-mini-2025-04-14''}
     then Some (Patch 1536 162 100)
     else if model \<in> {''gpt-5.4-nano'', ''gpt-5-nano'', ''gpt-4.1-nano'', ''gpt-4.1-nano-2025-04-14''}
     then Some (Patch 1536 246 100)
     else if model = ''o4-mini'' then Some (Patch 1536 172 100)
     else if model = ''gpt-5.4'' then Some (Patch 2500 1 1)
     else if str_contains ''codex'' model then Some (Tile 70 140)
     else None)"

definition div_ceil_u32 :: "u32 \<Rightarrow> u32 \<Rightarrow> u32" where
  "div_ceil_u32 v d = saturating_add v (saturating_sub d 1) div d"

definition scaled :: "'f f64_ops \<Rightarrow> 'f \<Rightarrow> u32 \<Rightarrow> u32" where
  "scaled F scale v = f_to_u32 F (f_max F (f_floor F (f_mul F (f_of_nat F (unat v)) scale)) (f_of_nat F 1))"

definition scale_to_fit_within :: "'f f64_ops \<Rightarrow> u32 \<Rightarrow> u32 \<Rightarrow> u32 \<Rightarrow> u32 \<times> u32" where
  "scale_to_fit_within F w h mx =
    (if w \<le> mx \<and> h \<le> mx then (w, h)
     else let scale = f_min F (f_div F (f_of_nat F (unat mx)) (f_of_nat F (unat w)))
                        (f_div F (f_of_nat F (unat mx)) (f_of_nat F (unat h)))
          in (scaled F scale w, scaled F scale h))"

definition scale_shortest_side_to :: "'f f64_ops \<Rightarrow> u32 \<Rightarrow> u32 \<Rightarrow> u32 \<Rightarrow> u32 \<times> u32" where
  "scale_shortest_side_to F w h target =
    (let shortest = min w h in
     if shortest = 0 \<or> shortest = target then (max w 1, max h 1)
     else let scale = f_div F (f_of_nat F (unat target)) (f_of_nat F (unat shortest))
          in (scaled F scale w, scaled F scale h))"

definition estimate_tile_based_tokens :: "'f f64_ops \<Rightarrow> u32 \<Rightarrow> u32 \<Rightarrow> usize \<Rightarrow> usize \<Rightarrow> usize" where
  "estimate_tile_based_tokens F w h base tile =
    (let (w1, h1) = scale_to_fit_within F w h 2048;
         (w2, h2) = scale_shortest_side_to F w1 h1 768;
         tiles = ucast (saturating_mul (div_ceil_u32 w2 512) (div_ceil_u32 h2 512)) :: usize
     in saturating_add base (saturating_mul tiles tile))"

text \<open>\<^verbatim>\<open>usize::div_ceil\<close>.\<close>

definition div_ceil_usize :: "usize \<Rightarrow> usize \<Rightarrow> usize" where
  "div_ceil_usize a b = (let d = a div b in if a mod b > 0 then d + 1 else d)"

definition resized_patches :: "'f f64_ops \<Rightarrow> u32 \<Rightarrow> u32 \<Rightarrow> usize \<Rightarrow> usize" where
  "resized_patches F w h budget =
    (let wf = f_of_nat F (unat w); hf = f_of_nat F (unat h);
         f32 = f_of_nat F 32;
         sq = f_mul F f32 f32;
         shrink = f_sqrt F (f_div F (f_mul F sq (f_of_nat F (unat budget))) (f_mul F wf hf));
         sw = f_mul F wf shrink; sh = f_mul F hf shrink;
         wa = f_div F (f_floor F (f_div F sw f32)) (f_div F sw f32);
         ha = f_div F (f_floor F (f_div F sh f32)) (f_div F sh f32);
         adj = f_mul F shrink (f_min F wa ha)
     in ucast (saturating_mul (div_ceil_u32 (scaled F adj w) 32) (div_ceil_u32 (scaled F adj h) 32)))"

definition estimate_patch_based_tokens ::
    "'f f64_ops \<Rightarrow> u32 \<Rightarrow> u32 \<Rightarrow> usize \<Rightarrow> usize \<Rightarrow> usize \<Rightarrow> usize" where
  "estimate_patch_based_tokens F w h budget num den =
    (let original = ucast (saturating_mul (div_ceil_u32 w 32) (div_ceil_u32 h 32)) :: usize;
         resized = (if original \<le> budget then original else resized_patches F w h budget)
     in div_ceil_usize (saturating_mul (min resized budget) num) den)"

definition estimate_openai_image_tokens :: "'f f64_ops \<Rightarrow> string \<Rightarrow> u32 \<Rightarrow> u32 \<Rightarrow> usize option" where
  "estimate_openai_image_tokens F model w h =
    (case openai_image_cost_model model of None \<Rightarrow> None
     | Some (Tile base tile) \<Rightarrow> Some (estimate_tile_based_tokens F w h base tile)
     | Some (Patch budget num den) \<Rightarrow> Some (estimate_patch_based_tokens F w h budget num den))"

text \<open>The trait \<^verbatim>\<open>ContentCostEstimator\<close>: its methods as a record.\<close>

record estimator =
  est_text :: "string \<Rightarrow> usize"
  est_image :: "string \<Rightarrow> u8 list \<Rightarrow> usize"
  est_pdf :: "u8 list \<Rightarrow> usize"
  est_audio :: "string \<Rightarrow> u8 list \<Rightarrow> usize"

definition len_usize :: "'a list \<Rightarrow> usize" where
  "len_usize xs = of_nat (length xs)"

fun estimate_block :: "(json \<Rightarrow> string) \<Rightarrow> estimator \<Rightarrow> content \<Rightarrow> usize" where
  "estimate_block pj E (Content_Text t) = est_text E t"
| "estimate_block pj E (Content_Image m d) = est_image E m d"
| "estimate_block pj E (Content_Pdf d) = est_pdf E d"
| "estimate_block pj E (Content_Audio m d) = est_audio E m d"
| "estimate_block pj E (Content_ImageUrl u) = est_text E u"
| "estimate_block pj E (Content_Thinking t _) = est_text E t"
| "estimate_block pj E (Content_ToolUse _ n args) = est_text E n + est_text E (pj args)"
| "estimate_block pj E (Content_ToolResult _ _ _ cs) = sum_list (map (estimate_block pj E) cs)"
| "estimate_block pj E (Content_ResourceLink u n d m) =
     est_text E u + (case n of Some s \<Rightarrow> est_text E s | None \<Rightarrow> 0)
       + (case d of Some s \<Rightarrow> est_text E s | None \<Rightarrow> 0) + (case m of Some s \<Rightarrow> est_text E s | None \<Rightarrow> 0)"

definition estimate_content :: "(json \<Rightarrow> string) \<Rightarrow> estimator \<Rightarrow> content list \<Rightarrow> usize" where
  "estimate_content pj E cs = sum_list (map (estimate_block pj E) cs)"

definition generic_estimator :: estimator where
  "generic_estimator = \<lparr>est_text = (\<lambda>t. len_usize t div 4), est_image = (\<lambda>_ d. len_usize d div 4),
     est_pdf = (\<lambda>d. len_usize d div 4), est_audio = (\<lambda>_ d. len_usize d div 4)\<rparr>"

definition image_dimensions :: "(u8 list \<Rightarrow> (usize \<times> usize) option) \<Rightarrow> u8 list \<Rightarrow> (u32 \<times> u32) option" where
  "image_dimensions blob_size d =
    (case blob_size d of None \<Rightarrow> None
     | Some (w, h) \<Rightarrow> (if unat w < 2 ^ 32 \<and> unat h < 2 ^ 32 then Some (ucast w, ucast h) else None))"

definition openai_estimator ::
    "'f f64_ops \<Rightarrow> (u8 list \<Rightarrow> (usize \<times> usize) option) \<Rightarrow> string \<Rightarrow> estimator" where
  "openai_estimator F blob_size model = generic_estimator\<lparr>est_image := (\<lambda>_ d.
     let fallback = max (len_usize d div 8) 256 in
     case image_dimensions blob_size d of
       Some (w, h) \<Rightarrow> (case estimate_openai_image_tokens F model w h of Some t \<Rightarrow> t | None \<Rightarrow> fallback)
     | None \<Rightarrow> fallback)\<rparr>"

definition content_cost_estimator_for_llm_config ::
    "'f f64_ops \<Rightarrow> (u8 list \<Rightarrow> (usize \<times> usize) option) \<Rightarrow> (string \<times> string) option \<Rightarrow> estimator" where
  "content_cost_estimator_for_llm_config F blob_size cfg =
    (case cfg of
       Some (provider, model) \<Rightarrow>
         (if provider \<in> {''openai'', ''codex''} then openai_estimator F blob_size model else generic_estimator)
     | None \<Rightarrow> generic_estimator)"

section \<open>Choosing what to prune\<close>

definition PRUNE_PROTECT_TOKENS :: usize where "PRUNE_PROTECT_TOKENS = 40000"
definition PRUNE_MINIMUM_TOKENS :: usize where "PRUNE_MINIMUM_TOKENS = 20000"
definition PRUNE_PROTECTED_TOOLS :: "string list" where "PRUNE_PROTECTED_TOOLS = [''skill'']"

record prune_config =
  pc_protect_tokens :: usize
  pc_minimum_tokens :: usize
  pc_protected_tools :: "string list"

definition default_prune_config :: prune_config where
  "default_prune_config = \<lparr>pc_protect_tokens = PRUNE_PROTECT_TOKENS, pc_minimum_tokens = PRUNE_MINIMUM_TOKENS,
     pc_protected_tools = PRUNE_PROTECTED_TOOLS\<rparr>"

record prunable_tool_result =
  pt_message_id :: string
  pt_call_id :: string
  pt_tokens :: usize

record prune_analysis =
  pa_protected_tokens :: usize
  pa_prunable_tokens :: usize
  pa_candidates :: "prunable_tool_result list"
  pa_should_prune :: bool

definition is_boundary_part :: "('f, 'b) message_part \<Rightarrow> bool" where
  "is_boundary_part p = (case p of Part_Compaction _ _ \<Rightarrow> True | Part_CompactionRequest _ \<Rightarrow> True | _ \<Rightarrow> False)"

text \<open>The mutable variables of the walk: protected and prunable totals, candidates found so far.\<close>

type_synonym prune_vars = "usize \<times> usize \<times> prunable_tool_result list"

definition prune_part ::
    "(content list \<Rightarrow> usize) \<Rightarrow> prune_config \<Rightarrow> string \<Rightarrow> ('f, 'b) message_part \<Rightarrow> prune_vars \<Rightarrow> prune_vars" where
  "prune_part est cfg mid part v =
    (case part of
       Part_ToolResult cid c _ tool_name _ compacted \<Rightarrow>
         (if compacted \<noteq> None then v
          else if (case tool_name of Some n \<Rightarrow> n \<in> set (pc_protected_tools cfg) | None \<Rightarrow> False) then v
          else
            let tokens = est c; (prot, prun, cands) = v in
            if prot < pc_protect_tokens cfg then (prot + tokens, prun, cands)
            else (prot, prun + tokens, cands @ [\<lparr>pt_message_id = mid, pt_call_id = cid, pt_tokens = tokens\<rparr>]))
     | _ \<Rightarrow> v)"

text \<open>The loop over the reversed messages; the first argument counts user turns seen.\<close>

fun prune_loop ::
    "(content list \<Rightarrow> usize) \<Rightarrow> prune_config \<Rightarrow> nat \<Rightarrow> ('f, 'b) agent_message list \<Rightarrow> prune_vars \<Rightarrow> prune_vars" where
  "prune_loop est cfg turns [] v = v"
| "prune_loop est cfg turns (m # ms) v =
    (if turns < 2 then prune_loop est cfg (if am_role m = User then turns + 1 else turns) ms v
     else if list_ex is_boundary_part (am_parts m) then v
     else prune_loop est cfg turns ms (fold (prune_part est cfg (am_id m)) (am_parts m) v))"

definition compute_prune_candidates ::
    "(json \<Rightarrow> string) \<Rightarrow> ('f, 'b) agent_message list \<Rightarrow> prune_config \<Rightarrow> estimator \<Rightarrow> prune_analysis" where
  "compute_prune_candidates pj messages cfg E =
    (let (prot, prun, cands) = prune_loop (estimate_content pj E) cfg 0 (rev messages) (0, 0, []);
         should = pc_minimum_tokens cfg \<le> prun
     in \<lparr>pa_protected_tokens = prot, pa_prunable_tokens = prun,
         pa_candidates = (if should then cands else []), pa_should_prune = should\<rparr>)"

definition extract_message_ids :: "prunable_tool_result list \<Rightarrow> string list" where
  "extract_message_ids cs = remdups_adj (sort (map pt_message_id cs))"

definition extract_call_ids :: "prunable_tool_result list \<Rightarrow> string list" where
  "extract_call_ids cs = map pt_call_id cs"

section \<open>A reference definition of the walk\<close>

text \<open>The messages the walk inspects: newest first, the two latest user turns dropped, up to the last
  compaction boundary.\<close>

fun skip_user_turns :: "nat \<Rightarrow> ('f, 'b) agent_message list \<Rightarrow> ('f, 'b) agent_message list" where
  "skip_user_turns 0 ms = ms"
| "skip_user_turns (Suc n) ms = skip_user_turns n (drop 1 (dropWhile (\<lambda>m. am_role m \<noteq> User) ms))"

definition eligible_messages :: "('f, 'b) agent_message list \<Rightarrow> ('f, 'b) agent_message list" where
  "eligible_messages messages =
    takeWhile (\<lambda>m. \<not> list_ex is_boundary_part (am_parts m)) (skip_user_turns 2 (rev messages))"

definition prunable_item ::
    "(content list \<Rightarrow> usize) \<Rightarrow> prune_config \<Rightarrow> string \<Rightarrow> ('f, 'b) message_part \<Rightarrow> prunable_tool_result option" where
  "prunable_item est cfg mid part =
    (case part of
       Part_ToolResult cid c _ tool_name _ compacted \<Rightarrow>
         (if compacted \<noteq> None \<or> (\<exists>n. tool_name = Some n \<and> n \<in> set (pc_protected_tools cfg)) then None
          else Some \<lparr>pt_message_id = mid, pt_call_id = cid, pt_tokens = est c\<rparr>)
     | _ \<Rightarrow> None)"

definition message_items ::
    "(content list \<Rightarrow> usize) \<Rightarrow> prune_config \<Rightarrow> ('f, 'b) agent_message \<Rightarrow> prunable_tool_result list" where
  "message_items est cfg m = List.map_filter (prunable_item est cfg (am_id m)) (am_parts m)"

fun protect_split :: "usize \<Rightarrow> usize \<Rightarrow> prunable_tool_result list \<Rightarrow> usize \<times> prunable_tool_result list" where
  "protect_split limit prot [] = (prot, [])"
| "protect_split limit prot (i # is) =
    (if prot < limit then protect_split limit (prot + pt_tokens i) is else (prot, i # is))"

section \<open>The walk computes the reference\<close>

definition item_step :: "prune_config \<Rightarrow> prunable_tool_result \<Rightarrow> prune_vars \<Rightarrow> prune_vars" where
  "item_step cfg i v =
    (let (prot, prun, cands) = v in
     if prot < pc_protect_tokens cfg then (prot + pt_tokens i, prun, cands) else (prot, prun + pt_tokens i, cands @ [i]))"

lemma prune_part_item:
  "prune_part est cfg mid p v = (case prunable_item est cfg mid p of None \<Rightarrow> v | Some i \<Rightarrow> item_step cfg i v)"
  by (cases p) (auto simp: prune_part_def prunable_item_def item_step_def Let_def split: option.split prod.split)

lemma fold_prune_part:
  "fold (prune_part est cfg mid) ps v = fold (item_step cfg) (List.map_filter (prunable_item est cfg mid) ps) v"
  by (induction ps arbitrary: v) (auto simp: prune_part_item List.map_filter_simps split: option.split)

lemma prune_loop_after:
  "2 \<le> turns \<Longrightarrow> prune_loop est cfg turns ms v =
     fold (item_step cfg) (concat (map (message_items est cfg)
       (takeWhile (\<lambda>m. \<not> list_ex is_boundary_part (am_parts m)) ms))) v"
  by (induction ms arbitrary: v) (auto simp: fold_prune_part message_items_def)

lemma skip_user_turns_Nil [simp]: "skip_user_turns n [] = []"
  by (induction n) auto

lemma prune_loop_skip:
  "turns \<le> 2 \<Longrightarrow> prune_loop est cfg turns ms v = prune_loop est cfg 2 (skip_user_turns (2 - turns) ms) v"
proof (induction ms arbitrary: turns)
  case Nil
  then show ?case by simp
next
  case (Cons m ms)
  show ?case
  proof (cases "turns = 2")
    case True
    then show ?thesis by simp
  next
    case False
    with Cons.prems have lt: "turns < 2" by simp
    then obtain k where k: "2 - turns = Suc k" by (cases "2 - turns") auto
    show ?thesis
    proof (cases "am_role m = User")
      case True
      from k have k': "2 - Suc turns = k" by simp
      from lt have "prune_loop est cfg (Suc turns) ms v = prune_loop est cfg 2 (skip_user_turns k ms) v"
        using Cons.IH [of "Suc turns"] unfolding k' by simp
      with True lt k show ?thesis by simp
    next
      case False
      with lt k Cons.IH [of turns] show ?thesis by simp
    qed
  qed
qed

lemma item_steps_split:
  "fold (item_step cfg) items (prot, prun, cands) =
    (let (p, rest) = protect_split (pc_protect_tokens cfg) prot items
     in (p, prun + sum_list (map pt_tokens rest), cands @ rest))"
proof (induction items arbitrary: prot prun cands)
  case Nil
  then show ?case by simp
next
  case (Cons i items)
  show ?case
  proof (cases "prot < pc_protect_tokens cfg")
    case True
    with Cons.IH show ?thesis by (simp add: item_step_def)
  next
    case False
    have rest: "protect_split (pc_protect_tokens cfg) prot items = (prot, items)"
      using False by (cases items) auto
    from False Cons.IH [of prot "prun + pt_tokens i" "cands @ [i]"] show ?thesis
      by (simp add: item_step_def rest add.assoc)
  qed
qed

text \<open>The whole computation in closed form.\<close>

definition prune_spec ::
    "(content list \<Rightarrow> usize) \<Rightarrow> ('f, 'b) agent_message list \<Rightarrow> prune_config \<Rightarrow> prune_analysis" where
  "prune_spec est messages cfg =
    (let items = concat (map (message_items est cfg) (eligible_messages messages));
         (prot, rest) = protect_split (pc_protect_tokens cfg) 0 items;
         total = sum_list (map pt_tokens rest);
         should = pc_minimum_tokens cfg \<le> total
     in \<lparr>pa_protected_tokens = prot, pa_prunable_tokens = total,
         pa_candidates = (if should then rest else []), pa_should_prune = should\<rparr>)"

lemma prune_loop_eligible:
  "prune_loop est cfg 0 (rev messages) v =
    fold (item_step cfg) (concat (map (message_items est cfg) (eligible_messages messages))) v"
  by (simp add: prune_loop_skip [of 0] prune_loop_after eligible_messages_def)

lemma compute_prune_spec:
  "compute_prune_candidates pj messages cfg E = prune_spec (estimate_content pj E) messages cfg"
  by (simp add: compute_prune_candidates_def prune_spec_def prune_loop_eligible item_steps_split
      Let_def split: prod.split)

lemma protect_split_suffix: "protect_split l p is = (q, rest) \<Longrightarrow> suffix rest is"
  by (induction l p "is" rule: protect_split.induct) (auto split: if_splits intro: suffix_ConsI)

lemma protect_split_limit: "protect_split l p is = (q, rest) \<Longrightarrow> rest \<noteq> [] \<Longrightarrow> l \<le> q"
  by (induction l p "is" rule: protect_split.induct) (auto split: if_splits)

lemma map_filter_set: "set (List.map_filter f xs) = {y. \<exists>x \<in> set xs. f x = Some y}"
  by (induction xs) (auto simp: List.map_filter_simps split: option.splits)

lemma sort_remdups_adj: "sorted (xs :: 'a::linorder list) \<Longrightarrow> distinct (remdups_adj xs) \<and> sorted (remdups_adj xs)"
  by (induction xs rule: remdups_adj.induct) (auto simp: order.strict_iff_order)

end
