(* ===== verification/Compaction.thy ===== *)
theory Compaction
  imports Chat LLM_Error
begin

text \<open>
  AI compaction of a session's history (\<^verbatim>\<open>crates/agent/src/session/compaction.rs\<close>): the request sent
  to the model, the retry loop around the call, the pair of messages stored afterwards, and the
  effective history, which starts at the last compaction.

  The provider is the function \<open>call\<close> from the number of the attempt to its outcome; sleeping is
  the list of the back-off delays. Texts of errors are kept as the data they are printed from.
\<close>

section \<open>The request\<close>

definition COMPACTION_PROMPT :: string where
  "COMPACTION_PROMPT = ''Provide a detailed prompt for continuing our conversation above. Focus on:'' @ nl @
     ''- What was done'' @ nl @ ''- What is currently being worked on'' @ nl @
     ''- Which files are being modified'' @ nl @ ''- What needs to be done next'' @ nl @
     ''- Key user requests, constraints, or preferences that should persist'' @ nl @ nl @
     ''Be comprehensive but concise. This summary will replace the conversation history.''"

definition build_compaction_messages ::
    "('b list \<Rightarrow> usize option \<Rightarrow> string) \<Rightarrow> (string \<Rightarrow> json option) \<Rightarrow> ('f, 'b) agent_message list
     \<Rightarrow> usize option \<Rightarrow> chat_message list" where
  "build_compaction_messages render parse ms maxb =
    map (\<lambda>m. to_chat_message_with_target render parse m None None maxb) ms @
    [\<lparr>cm_role = User, cm_content = [Content_Text COMPACTION_PROMPT], cm_cache = None\<rparr>]"

section \<open>Calling the model\<close>

record 'f retry_config =
  rc_max_retries :: usize
  rc_initial_backoff_ms :: u64
  rc_backoff_multiplier :: 'f

definition default_retry_config :: "'f f64_ops \<Rightarrow> 'f retry_config" where
  "default_retry_config F = \<lparr>rc_max_retries = 3, rc_initial_backoff_ms = 1000, rc_backoff_multiplier = f_of_nat F 2\<rparr>"

fun is_mesh_timeout_error :: "llm_error \<Rightarrow> bool" where
  "is_mesh_timeout_error (Transport k _) = (k = Timeout)"
| "is_mesh_timeout_error _ = False"

text \<open>The loop of \<^verbatim>\<open>call_streaming\<close> over the items of the stream.\<close>

fun collect_stream :: "(llm_error + stream_chunk) list \<Rightarrow> string \<Rightarrow> llm_error + string" where
  "collect_stream [] text = Inr text"
| "collect_stream (Inl e # items) text = Inl e"
| "collect_stream (Inr c # items) text =
    (case c of
       Chunk_Text delta \<Rightarrow> collect_stream items (text @ delta)
     | Chunk_Done _ \<Rightarrow> Inr text
     | _ \<Rightarrow> collect_stream items text)"

definition call_streaming :: "llm_error + (llm_error + stream_chunk) list \<Rightarrow> llm_error + string" where
  "call_streaming opened = (case opened of Inl e \<Rightarrow> Inl e | Inr items \<Rightarrow> collect_stream items [])"

datatype compaction_error =
    MeshTimeout llm_error
  | AfterRetries usize "llm_error option"

text \<open>One pass of \<^verbatim>\<open>for attempt in 0..=max_retries\<close> per element of the list. The result carries the
  delays slept and the number of calls made.\<close>

fun retry_attempts ::
    "'f f64_ops \<Rightarrow> 'f retry_config \<Rightarrow> (nat \<Rightarrow> llm_error + string) \<Rightarrow> nat list \<Rightarrow> u64 \<Rightarrow> llm_error option
     \<Rightarrow> (compaction_error + string) \<times> u64 list \<times> nat" where
  "retry_attempts F cfg call [] backoff last_error = (Inl (AfterRetries (rc_max_retries cfg) last_error), [], 0)"
| "retry_attempts F cfg call (attempt # rest) backoff last_error =
    (let slept = (if 0 < attempt then [backoff] else []);
         backoff' = (if 0 < attempt
           then f_to_u64 F (f_mul F (f_of_nat F (unat backoff)) (rc_backoff_multiplier cfg)) else backoff)
     in (case call attempt of
           Inr text \<Rightarrow> (Inr text, slept, 1)
         | Inl e \<Rightarrow>
             (if is_mesh_timeout_error e then (Inl (MeshTimeout e), slept, 1)
              else let (r, sleeps, n) = retry_attempts F cfg call rest backoff' (Some e)
                   in (r, slept @ sleeps, Suc n))))"

definition call_with_retry ::
    "'f f64_ops \<Rightarrow> 'f retry_config \<Rightarrow> (nat \<Rightarrow> llm_error + string) \<Rightarrow> (compaction_error + string) \<times> u64 list \<times> nat" where
  "call_with_retry F cfg call =
    retry_attempts F cfg call [0..<Suc (unat (rc_max_retries cfg))] (rc_initial_backoff_ms cfg) None"

section \<open>Token estimates and the result\<close>

record compaction_result =
  cr_summary :: string
  cr_original_token_count :: usize
  cr_summary_token_count :: usize

definition estimate_part_tokens ::
    "(string \<Rightarrow> usize) \<Rightarrow> ('b list \<Rightarrow> usize option \<Rightarrow> string) \<Rightarrow> usize option \<Rightarrow> ('f, 'b) message_part \<Rightarrow> usize" where
  "estimate_part_tokens est render maxb p =
    (case p of
       Part_Text c \<Rightarrow> est c
     | Part_Prompt bs \<Rightarrow> est (render bs maxb)
     | Part_ToolResult _ c _ _ _ _ \<Rightarrow> est (str_join nl (List.map_filter as_text c))
     | Part_Reasoning c _ _ \<Rightarrow> est c
     | Part_Compaction s _ \<Rightarrow> est s
     | _ \<Rightarrow> 0)"

definition estimate_messages_tokens ::
    "(string \<Rightarrow> usize) \<Rightarrow> ('b list \<Rightarrow> usize option \<Rightarrow> string) \<Rightarrow> ('f, 'b) agent_message list \<Rightarrow> usize option \<Rightarrow> usize" where
  "estimate_messages_tokens est render ms maxb =
    sum_list (map (\<lambda>m. sum_list (map (estimate_part_tokens est render maxb) (am_parts m))) ms)"

definition compaction_process ::
    "'f f64_ops \<Rightarrow> (string \<Rightarrow> usize) \<Rightarrow> ('b list \<Rightarrow> usize option \<Rightarrow> string) \<Rightarrow> (string \<Rightarrow> json option)
     \<Rightarrow> (chat_message list \<Rightarrow> nat \<Rightarrow> llm_error + string) \<Rightarrow> ('f, 'b) agent_message list \<Rightarrow> 'f retry_config
     \<Rightarrow> usize option \<Rightarrow> compaction_error + compaction_result" where
  "compaction_process F est render parse provider ms cfg maxb =
    (let original = estimate_messages_tokens est render ms maxb;
         chat = build_compaction_messages render parse ms maxb
     in (case fst (call_with_retry F cfg (provider chat)) of
           Inl e \<Rightarrow> Inl e
         | Inr summary \<Rightarrow> Inr \<lparr>cr_summary = summary, cr_original_token_count = original,
             cr_summary_token_count = est summary\<rparr>))"

text \<open>The two fresh identifiers and the clock are arguments.\<close>

definition create_compaction_messages ::
    "string \<Rightarrow> string \<Rightarrow> int \<Rightarrow> string \<Rightarrow> string \<Rightarrow> usize \<Rightarrow> ('f, 'b) agent_message \<times> ('f, 'b) agent_message" where
  "create_compaction_messages request_id summary_id now sid summary original =
    (\<lparr>am_id = request_id, am_session_id = sid, am_role = User, am_parts = [Part_CompactionRequest original],
      am_created_at = now, am_parent_message_id = None, am_source_provider = None, am_source_model = None\<rparr>,
     \<lparr>am_id = summary_id, am_session_id = sid, am_role = Assistant, am_parts = [Part_Compaction summary original],
      am_created_at = now, am_parent_message_id = Some request_id, am_source_provider = None, am_source_model = None\<rparr>)"

section \<open>Effective history\<close>

definition is_compaction_request :: "('f, 'b) message_part \<Rightarrow> bool" where
  "is_compaction_request p = (case p of Part_CompactionRequest _ \<Rightarrow> True | _ \<Rightarrow> False)"

definition is_snapshot_part :: "('f, 'b) message_part \<Rightarrow> bool" where
  "is_snapshot_part p = (case p of Part_TurnSnapshotStart _ _ \<Rightarrow> True | Part_TurnSnapshotPatch _ _ _ \<Rightarrow> True | _ \<Rightarrow> False)"

definition is_tool_result_part :: "('f, 'b) message_part \<Rightarrow> bool" where
  "is_tool_result_part p = (case p of Part_ToolResult _ _ _ _ _ _ \<Rightarrow> True | _ \<Rightarrow> False)"

definition is_user_tool_result :: "('f, 'b) agent_message \<Rightarrow> bool" where
  "is_user_tool_result m = (am_role m = User \<and> list_ex is_tool_result_part (am_parts m))"

fun merge_loop :: "('f, 'b) agent_message list \<Rightarrow> ('f, 'b) agent_message list \<Rightarrow> ('f, 'b) agent_message list" where
  "merge_loop [] result = result"
| "merge_loop (msg # msgs) result =
    (if is_user_tool_result msg \<and> result \<noteq> [] \<and> is_user_tool_result (last result)
     then merge_loop msgs (butlast result @ [(last result)\<lparr>am_parts := am_parts (last result) @ am_parts msg\<rparr>])
     else merge_loop msgs (result @ [msg]))"

definition merge_consecutive_tool_result_messages ::
    "('f, 'b) agent_message list \<Rightarrow> ('f, 'b) agent_message list" where
  "merge_consecutive_tool_result_messages ms = (if length ms < 2 then ms else merge_loop ms [])"

fun rposition :: "('a \<Rightarrow> bool) \<Rightarrow> 'a list \<Rightarrow> nat option" where
  "rposition P [] = None"
| "rposition P (x # xs) =
    (case rposition P xs of Some i \<Rightarrow> Some (Suc i) | None \<Rightarrow> if P x then Some 0 else None)"

definition has_request :: "('f, 'b) agent_message \<Rightarrow> bool" where
  "has_request m = list_ex is_compaction_request (am_parts m)"

definition not_snapshot_only :: "('f, 'b) agent_message \<Rightarrow> bool" where
  "not_snapshot_only m = list_ex (\<lambda>p. \<not> is_snapshot_part p) (am_parts m)"

definition filter_to_effective_history :: "('f, 'b) agent_message list \<Rightarrow> ('f, 'b) agent_message list" where
  "filter_to_effective_history ms =
    (let filtered = (case rposition has_request ms of Some i \<Rightarrow> drop i ms | None \<Rightarrow> ms)
     in merge_consecutive_tool_result_messages (filter not_snapshot_only filtered))"

definition has_compaction :: "('f, 'b) agent_message list \<Rightarrow> bool" where
  "has_compaction ms = list_ex (\<lambda>m. list_ex (\<lambda>p. case p of Part_CompactionRequest _ \<Rightarrow> True
     | Part_Compaction _ _ \<Rightarrow> True | _ \<Rightarrow> False) (am_parts m)) ms"

definition get_last_compaction :: "('f, 'b) agent_message list \<Rightarrow> ('f, 'b) message_part option" where
  "get_last_compaction ms =
    first_defined (\<lambda>m. List.find (\<lambda>p. case p of Part_Compaction _ _ \<Rightarrow> True | _ \<Rightarrow> False) (am_parts m)) (rev ms)"

section \<open>Merging tool result messages\<close>

text \<open>The loop with its result vector computes the structural merge of runs.\<close>

fun merge_runs :: "('f, 'b) agent_message list \<Rightarrow> ('f, 'b) agent_message list" where
  "merge_runs (a # b # ms) =
    (if is_user_tool_result a \<and> is_user_tool_result b
     then merge_runs (a\<lparr>am_parts := am_parts a @ am_parts b\<rparr> # ms)
     else a # merge_runs (b # ms))"
| "merge_runs ms = ms"

lemma merge_loop_runs: "merge_loop ms (r @ [a]) = r @ merge_runs (a # ms)"
proof (induction ms arbitrary: r a)
  case (Cons b ms)
  from Cons [of r "a\<lparr>am_parts := am_parts a @ am_parts b\<rparr>"] Cons [of "r @ [a]" b] show ?case by simp
qed simp

lemma merge_consecutive_runs: "merge_consecutive_tool_result_messages ms = merge_runs ms"
proof (cases ms)
  case (Cons a rest)
  then show ?thesis
    using merge_loop_runs [of rest "[]" a]
    by (cases rest) (auto simp: merge_consecutive_tool_result_messages_def)
qed (simp add: merge_consecutive_tool_result_messages_def)

definition no_adjacent_results :: "('f, 'b) agent_message list \<Rightarrow> bool" where
  "no_adjacent_results = successively (\<lambda>a b. \<not> (is_user_tool_result a \<and> is_user_tool_result b))"

lemma merged_user_tool_result:
  "is_user_tool_result a \<Longrightarrow> is_user_tool_result (a\<lparr>am_parts := am_parts a @ ps\<rparr>)"
  by (simp add: is_user_tool_result_def)

lemma merge_runs_hd:
  "\<exists>m ms'. merge_runs (a # ms) = m # ms' \<and> is_user_tool_result m = is_user_tool_result a \<and> am_id m = am_id a"
proof (induction ms arbitrary: a)
  case (Cons b ms)
  show ?case
  proof (cases "is_user_tool_result a \<and> is_user_tool_result b")
    case True
    with Cons [of "a\<lparr>am_parts := am_parts a @ am_parts b\<rparr>"] show ?thesis
      by (auto simp: merged_user_tool_result)
  qed auto
qed simp

lemma merge_runs_no_adjacent: "no_adjacent_results (merge_runs ms)"
proof (induction ms rule: merge_runs.induct)
  case (1 a b ms)
  show ?case
  proof (cases "is_user_tool_result a \<and> is_user_tool_result b")
    case False
    with merge_runs_hd [of b ms] 1(2) show ?thesis by (auto simp: no_adjacent_results_def)
  qed (use 1(1) in simp)
qed (simp_all add: no_adjacent_results_def)

lemma merge_runs_id: "no_adjacent_results ms \<Longrightarrow> merge_runs ms = ms"
  by (induction ms rule: merge_runs.induct) (auto simp: no_adjacent_results_def)

lemma merge_runs_parts: "concat (map am_parts (merge_runs ms)) = concat (map am_parts ms)"
  by (induction ms rule: merge_runs.induct) auto

text \<open>A property of messages that holds of a concatenation exactly when it holds of a summand.\<close>

lemma merge_runs_list_ex:
  "list_ex (\<lambda>m. list_ex Q (am_parts m)) (merge_runs ms) = list_ex (\<lambda>m. list_ex Q (am_parts m)) ms"
  by (induction ms rule: merge_runs.induct) auto

lemma merge_runs_all_nonsnap: "list_all not_snapshot_only ms \<Longrightarrow> list_all not_snapshot_only (merge_runs ms)"
  by (induction ms rule: merge_runs.induct) (auto simp: not_snapshot_only_def)

section \<open>Where the effective history starts\<close>

lemma rposition_None: "rposition P xs = None \<longleftrightarrow> (\<forall>x \<in> set xs. \<not> P x)"
  by (induction xs) (auto split: option.splits)

lemma rposition_Some:
  "rposition P xs = Some i \<Longrightarrow> \<exists>y ys. drop i xs = y # ys \<and> P y \<and> (\<forall>z \<in> set ys. \<not> P z)"
proof (induction xs arbitrary: i)
  case (Cons x xs)
  show ?case
  proof (cases "rposition P xs")
    case None
    with Cons.prems show ?thesis by (auto simp: rposition_None split: if_splits)
  next
    case (Some j)
    with Cons show ?thesis by auto
  qed
qed simp

lemma rposition_hd:
  assumes "P y" and "\<forall>z \<in> set ys. \<not> P z"
  shows "rposition P (y # ys) = Some 0"
proof -
  from assms(2) have "rposition P ys = None" by (simp only: rposition_None not_False_eq_True)
  with assms(1) show ?thesis by simp
qed

lemma rposition_append:
  assumes "P y" and "\<forall>z \<in> set ys. \<not> P z"
  shows "rposition P (xs @ y # ys) = Some (length xs)"
proof (induction xs)
  case Nil
  show ?case using rposition_hd [of P, OF assms] by (simp del: rposition.simps)
qed simp

lemma merge_runs_request_hd:
  assumes "has_request a" and "\<forall>m \<in> set ms. \<not> has_request m"
  shows "\<exists>m ms'. merge_runs (a # ms) = m # ms' \<and> has_request m \<and> (\<forall>x \<in> set ms'. \<not> has_request x)"
  using assms
proof (induction ms arbitrary: a)
  case (Cons b ms)
  show ?case
  proof (cases "is_user_tool_result a \<and> is_user_tool_result b")
    case True
    with Cons.IH [of "a\<lparr>am_parts := am_parts a @ am_parts b\<rparr>"] Cons.prems show ?thesis
      by (simp add: has_request_def)
  next
    case False
    have "list_ex has_request (merge_runs (b # ms)) = list_ex has_request (b # ms)"
      unfolding has_request_def [abs_def] by (rule merge_runs_list_ex)
    with Cons.prems have "\<forall>x \<in> set (merge_runs (b # ms)). \<not> has_request x" by (auto simp: list_ex_iff)
    with False Cons.prems show ?thesis by auto
  qed
qed simp

lemma effective_from_request:
  assumes "has_request m" and "\<forall>x \<in> set post. \<not> has_request x"
  shows "filter_to_effective_history (pre @ m # post) = merge_runs (filter not_snapshot_only (m # post))"
  by (simp add: filter_to_effective_history_def merge_consecutive_runs rposition_append [OF assms])

lemma request_not_snapshot: "has_request m \<Longrightarrow> not_snapshot_only m"
  by (auto simp: has_request_def not_snapshot_only_def list_ex_iff is_compaction_request_def is_snapshot_part_def
      split: message_part.splits)

lemma effective_fixpoint:
  assumes "no_adjacent_results ms" "list_all not_snapshot_only ms"
    and "(\<forall>m \<in> set ms. \<not> has_request m) \<or> (\<exists>m ms'. ms = m # ms' \<and> has_request m \<and> (\<forall>x \<in> set ms'. \<not> has_request x))"
  shows "filter_to_effective_history ms = ms"
proof -
  from assms(3) have "(case rposition has_request ms of Some i \<Rightarrow> drop i ms | None \<Rightarrow> ms) = ms"
    by (elim disjE exE conjE) (simp_all add: rposition_None [THEN iffD2])
  moreover from assms(2) have "filter not_snapshot_only ms = ms" by (simp add: filter_id_conv list_all_iff)
  ultimately show ?thesis using assms(1)
    by (simp add: filter_to_effective_history_def merge_consecutive_runs merge_runs_id)
qed

section \<open>Properties of the effective history\<close>

text \<open>Merging keeps every part of every message in order and leaves no two adjacent user messages
  with tool results.\<close>

theorem merge_keeps_parts:
  "concat (map am_parts (merge_consecutive_tool_result_messages ms)) = concat (map am_parts ms) \<and>
   no_adjacent_results (merge_consecutive_tool_result_messages ms)"
  by (simp add: merge_consecutive_runs merge_runs_parts merge_runs_no_adjacent)

text \<open>Taking the effective history twice is the same as taking it once: nothing more is cut,
  dropped or merged.\<close>

theorem effective_history_idempotent:
  "filter_to_effective_history (filter_to_effective_history ms) = filter_to_effective_history ms"
proof (rule effective_fixpoint)
  let ?cut = "case rposition has_request ms of Some i \<Rightarrow> drop i ms | None \<Rightarrow> ms"
  let ?kept = "filter not_snapshot_only ?cut"
  have eff: "filter_to_effective_history ms = merge_runs ?kept"
    by (simp add: filter_to_effective_history_def merge_consecutive_runs)
  show "no_adjacent_results (filter_to_effective_history ms)"
    unfolding eff by (rule merge_runs_no_adjacent)
  show "list_all not_snapshot_only (filter_to_effective_history ms)"
    unfolding eff by (rule merge_runs_all_nonsnap) (simp add: list_all_iff)
  show "(\<forall>m \<in> set (filter_to_effective_history ms). \<not> has_request m) \<or>
     (\<exists>m ms'. filter_to_effective_history ms = m # ms' \<and> has_request m \<and> (\<forall>x \<in> set ms'. \<not> has_request x))"
  proof (cases "rposition has_request ms")
    case None
    then have "\<forall>m \<in> set ms. \<not> has_request m" by (simp only: rposition_None)
    with None have "\<not> list_ex has_request ?kept" by (auto simp: list_ex_iff)
    then have "\<not> list_ex has_request (merge_runs ?kept)"
      using merge_runs_list_ex [of is_compaction_request ?kept] by (simp add: has_request_def [abs_def])
    then show ?thesis unfolding eff by (auto simp: list_ex_iff)
  next
    case (Some i)
    from rposition_Some [OF this] obtain y ys where "drop i ms = y # ys" "has_request y" "\<forall>z \<in> set ys. \<not> has_request z"
      by blast
    with Some request_not_snapshot [of y] merge_runs_request_hd [of y "filter not_snapshot_only ys"]
    show ?thesis unfolding eff by simp
  qed
qed

text \<open>Once the compaction pair is stored, the effective history of the session is exactly that pair,
  whatever was stored before: the model sees the request and the summary and nothing else.\<close>

theorem effective_after_compaction:
  "filter_to_effective_history (h @ [fst (create_compaction_messages r s now sid summary n),
       snd (create_compaction_messages r s now sid summary n)]) =
   [fst (create_compaction_messages r s now sid summary n), snd (create_compaction_messages r s now sid summary n)]"
  by (subst effective_from_request)
    (simp_all add: create_compaction_messages_def has_request_def is_compaction_request_def not_snapshot_only_def
      is_snapshot_part_def is_user_tool_result_def is_tool_result_part_def)

section \<open>The retry loop\<close>

definition retry_stops :: "llm_error + string \<Rightarrow> bool" where
  "retry_stops r = (case r of Inr _ \<Rightarrow> True | Inl e \<Rightarrow> is_mesh_timeout_error e)"

definition retry_result :: "llm_error + string \<Rightarrow> compaction_error + string" where
  "retry_result r = (case r of Inr t \<Rightarrow> Inr t | Inl e \<Rightarrow> Inl (MeshTimeout e))"

lemma retry_attempts_fail:
  assumes "\<not> retry_stops (call a)"
  shows "\<exists>b' e. call a = Inl e \<and> retry_attempts F cfg call (a # as) b le =
    (let X = retry_attempts F cfg call as b' (Some e) in
     (fst X, (if 0 < a then [b] else []) @ fst (snd X), Suc (snd (snd X))))"
proof -
  from assms obtain e where e: "call a = Inl e" "\<not> is_mesh_timeout_error e"
    by (auto simp: retry_stops_def split: sum.splits)
  then show ?thesis
    by (intro exI [of _ "if 0 < a then f_to_u64 F (f_mul F (f_of_nat F (unat b)) (rc_backoff_multiplier cfg)) else b"]
        exI [of _ e]) (simp add: Let_def case_prod_unfold)
qed

lemma retry_attempts_result:
  "fst (retry_attempts F cfg call as b le) =
    (case List.find (\<lambda>i. retry_stops (call i)) as of
       Some i \<Rightarrow> retry_result (call i)
     | None \<Rightarrow> Inl (AfterRetries (rc_max_retries cfg) (if as = [] then le else Some (projl (call (last as))))))"
proof (induction "as" arbitrary: b le)
  case (Cons a "as")
  show ?case
  proof (cases "retry_stops (call a)")
    case True
    then show ?thesis by (auto simp: retry_stops_def retry_result_def Let_def split: sum.splits)
  next
    case False
    from retry_attempts_fail [of call a F cfg "as" b le, OF this] Cons False show ?thesis
      by (auto simp: Let_def simp del: retry_attempts.simps split: option.split)
  qed
qed simp

lemma retry_attempts_calls:
  "snd (snd (retry_attempts F cfg call as b le)) =
    min (length as) (Suc (length (takeWhile (\<lambda>i. \<not> retry_stops (call i)) as)))"
proof (induction "as" arbitrary: b le)
  case (Cons a "as")
  show ?case
  proof (cases "retry_stops (call a)")
    case True
    then show ?thesis by (auto simp: retry_stops_def retry_result_def Let_def split: sum.splits)
  next
    case False
    from retry_attempts_fail [of call a F cfg "as" b le, OF this] Cons False show ?thesis
      by (auto simp: Let_def simp del: retry_attempts.simps)
  qed
qed simp

lemma retry_attempts_sleeps:
  "list_all ((<) 0) as \<Longrightarrow>
   length (fst (snd (retry_attempts F cfg call as b le))) = snd (snd (retry_attempts F cfg call as b le))"
proof (induction "as" arbitrary: b le)
  case (Cons a "as")
  show ?case
  proof (cases "retry_stops (call a)")
    case True
    with Cons.prems show ?thesis by (auto simp: retry_stops_def Let_def split: sum.splits)
  next
    case False
    from retry_attempts_fail [of call a F cfg "as" b le, OF this] Cons show ?thesis
      by (auto simp: Let_def simp del: retry_attempts.simps)
  qed
qed simp

text \<open>The compaction call is made once per attempt from the first on, up to the first attempt that
  succeeds or meets a mesh timeout, and at most \<^verbatim>\<open>max_retries + 1\<close> times. That attempt decides the
  result; when there is none, the result is the failure after all retries with the last error.
  Before every call but the first there is one delay.\<close>

theorem call_with_retry_outcome:
  "let (r, sleeps, n) = call_with_retry F cfg call; attempts = [0..<Suc (unat (rc_max_retries cfg))] in
    r = (case List.find (\<lambda>i. retry_stops (call i)) attempts of
           Some i \<Rightarrow> retry_result (call i)
         | None \<Rightarrow> Inl (AfterRetries (rc_max_retries cfg) (Some (projl (call (unat (rc_max_retries cfg))))))) \<and>
    n = min (Suc (unat (rc_max_retries cfg))) (Suc (length (takeWhile (\<lambda>i. \<not> retry_stops (call i)) attempts))) \<and>
    Suc (length sleeps) = n"
proof -
  let ?all = "[0..<Suc (unat (rc_max_retries cfg))]"
  have cons: "?all = 0 # [1..<Suc (unat (rc_max_retries cfg))]" by (simp add: upt_conv_Cons del: upt_Suc)
  obtain r sl n where run: "retry_attempts F cfg call ?all (rc_initial_backoff_ms cfg) None = (r, sl, n)"
    by (cases "retry_attempts F cfg call ?all (rc_initial_backoff_ms cfg) None") auto
  have "Suc (length sl) = n"
  proof (cases "retry_stops (call 0)")
    case True
    with run [unfolded cons] show ?thesis by (auto simp: retry_stops_def Let_def split: sum.splits if_splits)
  next
    case False
    have "list_all ((<) 0) [1..<Suc (unat (rc_max_retries cfg))]" by (auto simp: list_all_iff simp del: upt_Suc)
    note sleeps = retry_attempts_sleeps [OF this, of F cfg call]
    from retry_attempts_fail [of call 0 F cfg "[1..<Suc (unat (rc_max_retries cfg))]" "rc_initial_backoff_ms cfg" None, OF False] run [unfolded cons]
    show ?thesis using sleeps by (auto simp: Let_def simp del: retry_attempts.simps upt_Suc)
  qed
  moreover note retry_attempts_result [of F cfg call ?all "rc_initial_backoff_ms cfg" None, unfolded run fst_conv]
  moreover note retry_attempts_calls [of F cfg call ?all "rc_initial_backoff_ms cfg" None, unfolded run snd_conv]
  ultimately show ?thesis
    unfolding call_with_retry_def run by (simp add: Let_def split: option.split)
qed

end
