(* ===== verification/Maintenance.thy ===== *)
theory Maintenance
  imports Events Pruning Compaction
begin

text \<open>
  Maintenance of the history (\<^verbatim>\<open>crates/agent/src/agent/execution/maintenance.rs\<close>): marking old tool
  results as compacted at the end of a turn, and replacing the conversation by a summary when the
  context threshold is hit, with the store operation \<^verbatim>\<open>mark_tool_results_compacted\<close>
  (\<^verbatim>\<open>crates/agent/src/session/sqlite_storage/session_store.rs\<close>).

  The environment holds the configuration, the hooks (external commands), the answers of the
  provider and the failures of the store. Errors keep their cause.
\<close>

record pre_compaction_request =
  pcq_session_id :: string
  pcq_turn_id :: string
  pcq_cwd :: "string option"
  pcq_model :: string
  pcq_permission_mode :: string
  pcq_trigger :: string
  pcq_token_estimate :: u32
  pcq_message_count :: u32

record post_compaction_request =
  poq_session_id :: string
  poq_turn_id :: string
  poq_cwd :: "string option"
  poq_model :: string
  poq_permission_mode :: string
  poq_trigger :: string
  poq_summary :: string
  poq_original_token_count :: u32
  poq_summary_token_count :: u32
  poq_message_count :: u32

datatype maintenance_error =
    M_History session_error
  | M_Hook string
  | M_Provider session_error
  | M_NoLlmConfig
  | M_Compaction compaction_error
  | M_StoreRequest session_error
  | M_StoreSummary session_error
  | M_NewHistory session_error
  | M_NoContext
  | M_Mark session_error

text \<open>\<open>me_read_fails n\<close> is the failure of the \<open>n\<close>-th read of the history in one operation.\<close>

record ('f, 'b) maint_env =
  me_ops :: "'f f64_ops"
  me_render :: "'b list \<Rightarrow> usize option \<Rightarrow> string"
  me_parse :: "string \<Rightarrow> json option"
  me_print :: "json \<Rightarrow> string"
  me_blob_size :: "u8 list \<Rightarrow> (usize \<times> usize) option"
  me_estimate :: "string \<Rightarrow> usize"
  me_llm_config :: "(string \<times> string) option"            \<comment> \<open>provider and model\<close>
  me_turn_id :: "string option"
  me_cwd :: "string option"
  me_permission_mode :: string
  me_max_prompt_bytes :: "usize option"
  me_pruning_enabled :: bool
  me_prune_config :: prune_config
  me_compaction_auto :: bool
  me_retry :: "'f retry_config"
  me_pre :: "pre_compaction_request \<Rightarrow> string + pre_compaction_result"
  me_post :: "post_compaction_request \<Rightarrow> string + post_compaction_result"
  me_provider :: "session_error + (chat_message list \<Rightarrow> nat \<Rightarrow> llm_error + string)"
  me_request_id :: string
  me_summary_id :: string
  me_now :: int
  me_read_fails :: "nat \<Rightarrow> session_error option"
  me_fails :: "('f, 'b) agent_message \<Rightarrow> session_error option"
  me_mark_fails :: "session_error option"

section \<open>Marking tool results\<close>

definition mark_part :: "int \<Rightarrow> string list \<Rightarrow> ('f, 'b) message_part \<Rightarrow> ('f, 'b) message_part" where
  "mark_part now ids p =
    (case p of
       Part_ToolResult cid c err nm args None \<Rightarrow>
         (if cid \<in> set ids then Part_ToolResult cid c err nm args (Some now) else p)
     | _ \<Rightarrow> p)"

definition mark_message :: "int \<Rightarrow> string list \<Rightarrow> ('f, 'b) agent_message \<Rightarrow> ('f, 'b) agent_message" where
  "mark_message now ids m = m\<lparr>am_parts := map (mark_part now ids) (am_parts m)\<rparr>"

definition is_markable :: "string list \<Rightarrow> ('f, 'b) message_part \<Rightarrow> bool" where
  "is_markable ids p = (case p of Part_ToolResult cid _ _ _ _ None \<Rightarrow> cid \<in> set ids | _ \<Rightarrow> False)"

text \<open>The number of updated rows and the new history of the session.\<close>

definition mark_tool_results_compacted ::
    "session_error option \<Rightarrow> int \<Rightarrow> string list \<Rightarrow> ('f, 'b, 't) exec \<Rightarrow> (session_error + nat) \<times> ('f, 'b, 't) exec" where
  "mark_tool_results_compacted failure now ids x =
    (if ids = [] then (Inr 0, x)
     else (case failure of
             Some e \<Rightarrow> (Inl e, x)
           | None \<Rightarrow> (Inr (length (filter (is_markable ids) (concat (map am_parts (x_history x))))),
                      x\<lparr>x_history := map (mark_message now ids) (x_history x)\<rparr>)))"

definition run_pruning ::
    "('f, 'b) maint_env \<Rightarrow> ('f, 'b, 't) exec \<Rightarrow> (maintenance_error + unit) \<times> ('f, 'b, 't) exec" where
  "run_pruning E x =
    (case me_read_fails E 0 of
       Some e \<Rightarrow> (Inl (M_History e), x)
     | None \<Rightarrow>
         (let est = content_cost_estimator_for_llm_config (me_ops E) (me_blob_size E) (me_llm_config E);
              analysis = compute_prune_candidates (me_print E) (x_history x) (me_prune_config E) est
          in if pa_should_prune analysis \<and> pa_candidates analysis \<noteq> []
             then (case mark_tool_results_compacted (me_mark_fails E) (me_now E)
                          (extract_call_ids (pa_candidates analysis)) x of
                     (Inl e, x') \<Rightarrow> (Inl (M_Mark e), x')
                   | (Inr _, x') \<Rightarrow> (Inr (), x'))
             else (Inr (), x)))"

section \<open>AI compaction\<close>

definition part_token_estimate :: "('f, 'b) message_part \<Rightarrow> usize" where
  "part_token_estimate p =
    (case p of
       Part_Text c \<Rightarrow> len_usize c div 4
     | Part_ToolResult _ c _ _ _ _ \<Rightarrow> sum_list (map len_usize (List.map_filter as_text c)) div 4
     | _ \<Rightarrow> 0)"

definition token_estimate :: "('f, 'b) agent_message list \<Rightarrow> usize" where
  "token_estimate ms = sum_list (map (\<lambda>m. sum_list (map part_token_estimate (am_parts m))) ms)"

definition effective_history ::
    "('f, 'b) maint_env \<Rightarrow> nat \<Rightarrow> ('f, 'b, 't) exec \<Rightarrow> session_error + ('f, 'b) agent_message list" where
  "effective_history E n x =
    (case me_read_fails E n of Some e \<Rightarrow> Inl e | None \<Rightarrow> Inr (filter_to_effective_history (x_history x)))"

definition model_name :: "('f, 'b) maint_env \<Rightarrow> string" where
  "model_name E = (case me_llm_config E of Some (_, m) \<Rightarrow> m | None \<Rightarrow> [])"

definition turn_id_of :: "('f, 'b) maint_env \<Rightarrow> string" where
  "turn_id_of E = (case me_turn_id E of Some t \<Rightarrow> t | None \<Rightarrow> [])"

definition pre_request :: "('f, 'b) maint_env \<Rightarrow> string \<Rightarrow> ('f, 'b) agent_message list \<Rightarrow> pre_compaction_request" where
  "pre_request E sid ms = \<lparr>pcq_session_id = sid, pcq_turn_id = turn_id_of E, pcq_cwd = me_cwd E,
     pcq_model = model_name E, pcq_permission_mode = me_permission_mode E, pcq_trigger = ''context_threshold'',
     pcq_token_estimate = u32_from_usize (token_estimate ms), pcq_message_count = u32_from_usize (len_usize ms)\<rparr>"

definition post_request ::
    "('f, 'b) maint_env \<Rightarrow> string \<Rightarrow> ('f, 'b) agent_message list \<Rightarrow> compaction_result \<Rightarrow> post_compaction_request" where
  "post_request E sid ms r = \<lparr>poq_session_id = sid, poq_turn_id = turn_id_of E, poq_cwd = me_cwd E,
     poq_model = model_name E, poq_permission_mode = me_permission_mode E, poq_trigger = ''context_threshold'',
     poq_summary = cr_summary r, poq_original_token_count = u32_from_usize (cr_original_token_count r),
     poq_summary_token_count = u32_from_usize (cr_summary_token_count r),
     poq_message_count = u32_from_usize (len_usize ms)\<rparr>"

definition with_contexts :: "string \<Rightarrow> string list \<Rightarrow> string" where
  "with_contexts s cs = (if cs = [] then s else s @ nl @ nl @ str_join (nl @ nl) cs)"

definition block_message :: "pre_compaction_result \<Rightarrow> string" where
  "block_message h = with_contexts
     (case pcr_block_reason h of Some r \<Rightarrow> r | None \<Rightarrow> ''compaction blocked by hook'') (pcr_additional_contexts h)"

text \<open>The new context: the effective history after the summary was stored.\<close>

definition compacted_context ::
    "('f, 'b) maint_env \<Rightarrow> ('f, 'b) agent_message list \<Rightarrow> 'f conversation_context \<Rightarrow> 'f conversation_context" where
  "compacted_context E ms ctx =
    with_session_mode
      (new_context (ctx_session_id ctx)
        (map (\<lambda>m. to_chat_message_with_target (me_render E) (me_parse E) m None None (me_max_prompt_bytes E)) ms)
        ((ctx_stats ctx)\<lparr>st_context_tokens := estimate_messages_tokens (me_estimate E) (me_render E) ms (me_max_prompt_bytes E)\<rparr>)
        (ctx_provider ctx) (ctx_model ctx))
      (ctx_session_mode ctx)"

text \<open>From the generated summary on: the two messages are stored, the end is published, the context is rebuilt.\<close>

definition finish_compaction ::
    "('f, 'b) maint_env \<Rightarrow> string \<Rightarrow> usize \<Rightarrow> 'f conversation_context option \<Rightarrow> ('f, 'b, 't) exec
     \<Rightarrow> (maintenance_error + ('f, 'b, 't) execution_state) \<times> ('f, 'b, 't) exec" where
  "finish_compaction E summary original ctx x =
    (let (request, smsg) = create_compaction_messages (me_request_id E) (me_summary_id E) (me_now E)
                             (x_session_id x) summary original in
     case add_message (me_fails E) request x of
       (Inl e, x1) \<Rightarrow> (Inl (M_StoreRequest e), x1)
     | (Inr _, x1) \<Rightarrow>
         (case add_message (me_fails E) smsg x1 of
            (Inl e, x2) \<Rightarrow> (Inl (M_StoreSummary e), x2)
          | (Inr _, x2) \<Rightarrow>
              (let x3 = emit_event (Ev_CompactionEnd summary (u32_from_usize (len_usize summary))) x2 in
               case effective_history E 1 x3 of
                 Inl e \<Rightarrow> (Inl (M_NewHistory e), x3)
               | Inr ms \<Rightarrow>
                   (case ctx of
                      None \<Rightarrow> (Inl M_NoContext, x3)
                    | Some c \<Rightarrow> (Inr (BeforeLlmCall (compacted_context E ms c)), x3)))))"

definition generate_summary ::
    "('f, 'b) maint_env \<Rightarrow> ('f, 'b) agent_message list \<Rightarrow> maintenance_error + compaction_result" where
  "generate_summary E ms =
    (case me_provider E of
       Inl e \<Rightarrow> Inl (M_Provider e)
     | Inr provider \<Rightarrow>
         (case me_llm_config E of
            None \<Rightarrow> Inl M_NoLlmConfig
          | Some _ \<Rightarrow>
              (case compaction_process (me_ops E) (me_estimate E) (me_render E) (me_parse E) provider ms (me_retry E)
                      (me_max_prompt_bytes E) of
                 Inl e \<Rightarrow> Inl (M_Compaction e)
               | Inr r \<Rightarrow> Inr r)))"

definition compact_messages ::
    "('f, 'b) maint_env \<Rightarrow> ('f, 'b) agent_message list \<Rightarrow> 'f conversation_context option \<Rightarrow> ('f, 'b, 't) exec
     \<Rightarrow> (maintenance_error + ('f, 'b, 't) execution_state) \<times> ('f, 'b, 't) exec" where
  "compact_messages E ms ctx x =
    (let x1 = emit_event (Ev_CompactionStart (u32_from_usize (token_estimate ms))) x in
     case generate_summary E ms of
       Inl e \<Rightarrow> (Inl e, x1)
     | Inr r \<Rightarrow>
         (case me_post E (post_request E (x_session_id x) ms r) of
            Inl e \<Rightarrow> (Inl (M_Hook e), x1)
          | Inr h \<Rightarrow>
              finish_compaction E (with_contexts (cr_summary r) (poc_additional_contexts h)) (cr_original_token_count r) ctx
                (emit_events (notice_events (poc_notices h)) x1)))"

definition run_ai_compaction ::
    "('f, 'b) maint_env \<Rightarrow> ('f, 'b, 't) execution_state \<Rightarrow> ('f, 'b, 't) exec
     \<Rightarrow> (maintenance_error + ('f, 'b, 't) execution_state) \<times> ('f, 'b, 't) exec" where
  "run_ai_compaction E state x =
    (case effective_history E 0 x of
       Inl e \<Rightarrow> (Inl (M_History e), x)
     | Inr ms \<Rightarrow>
         (case me_pre E (pre_request E (x_session_id x) ms) of
            Inl e \<Rightarrow> (Inl (M_Hook e), x)
          | Inr h \<Rightarrow>
              (let x1 = emit_events (notice_events (pcr_notices h)) x in
               if pcr_should_block h
               then (Inr (Stopped (block_message h) ContextThreshold (state_context state)), x1)
               else compact_messages E ms (state_context state) x1)))"

section \<open>Lemmas on compaction\<close>

lemma add_message_result:
  "add_message fails m x = (case fails m of Some e \<Rightarrow> (Inl e, x) | None \<Rightarrow> (Inr (), x\<lparr>x_history := x_history x @ [m]\<rparr>))"
  by (simp add: add_message_def)

text \<open>The two messages that a compaction stores.\<close>

definition request_message :: "('f, 'b) maint_env \<Rightarrow> string \<Rightarrow> usize \<Rightarrow> ('f, 'b) agent_message" where
  "request_message E sid n = fst (create_compaction_messages (me_request_id E) (me_summary_id E) (me_now E) sid [] n)"

definition summary_message :: "('f, 'b) maint_env \<Rightarrow> string \<Rightarrow> string \<Rightarrow> usize \<Rightarrow> ('f, 'b) agent_message" where
  "summary_message E sid s n = snd (create_compaction_messages (me_request_id E) (me_summary_id E) (me_now E) sid s n)"

lemma compaction_pair:
  "create_compaction_messages (me_request_id E) (me_summary_id E) (me_now E) sid s n =
    (request_message E sid n, summary_message E sid s n)"
  by (simp add: request_message_def summary_message_def create_compaction_messages_def)

lemma request_message_simps [simp]:
  "has_request (request_message E sid n)" "am_role (request_message E sid n) = User"
  "am_parts (request_message E sid n) = [Part_CompactionRequest n]"
  "\<not> is_user_tool_result (request_message E sid n)"
  by (simp_all add: request_message_def create_compaction_messages_def has_request_def is_compaction_request_def
      is_user_tool_result_def is_tool_result_part_def)

lemma summary_message_simps [simp]:
  "\<not> has_request (summary_message E sid s n)" "am_role (summary_message E sid s n) = Assistant"
  "am_parts (summary_message E sid s n) = [Part_Compaction s n]" "not_snapshot_only (summary_message E sid s n)"
  by (simp_all add: summary_message_def create_compaction_messages_def has_request_def is_compaction_request_def
      not_snapshot_only_def is_snapshot_part_def)

lemma effective_request [simp]:
  "filter_to_effective_history (h @ [request_message E sid n]) = [request_message E sid n]"
  using effective_from_request [of "request_message E sid n" "[]" h]
  by (simp add: request_not_snapshot)

lemma effective_pair [simp]:
  "filter_to_effective_history (h @ [request_message E sid n, summary_message E sid s n]) =
    [request_message E sid n, summary_message E sid s n]"
  using effective_from_request [of "request_message E sid n" "[summary_message E sid s n]" h]
  by (simp add: request_not_snapshot)

text \<open>The context after a compaction with summary \<open>s\<close>.\<close>

definition summary_context :: "('f, 'b) maint_env \<Rightarrow> string \<Rightarrow> 'f conversation_context \<Rightarrow> 'f conversation_context" where
  "summary_context E s c = c\<lparr>
     ctx_messages := [\<lparr>cm_role = User, cm_content = [Content_Text ''Summarize our conversation so far.''], cm_cache = None\<rparr>,
                      \<lparr>cm_role = Assistant, cm_content = [Content_Text s], cm_cache = None\<rparr>],
     ctx_stats := (ctx_stats c)\<lparr>st_context_tokens := me_estimate E s\<rparr>\<rparr>"

lemma compacted_context_pair:
  "compacted_context E [request_message E sid n, summary_message E sid s n] c = summary_context E s c"
  by (simp add: compacted_context_def summary_context_def with_session_mode_def new_context_def
      to_chat_message_with_target_def part_blocks_def is_tool_result_def estimate_messages_tokens_def
      estimate_part_tokens_def Let_def)

lemma finish_compaction_cases:
  "finish_compaction E s n ctx x =
    (let req = request_message E (x_session_id x) n; smsg = summary_message E (x_session_id x) s n;
         x1 = x\<lparr>x_history := x_history x @ [req]\<rparr>; x2 = x\<lparr>x_history := x_history x @ [req, smsg]\<rparr>;
         x3 = emit_event (Ev_CompactionEnd s (u32_from_usize (len_usize s))) x2 in
     case me_fails E req of Some e \<Rightarrow> (Inl (M_StoreRequest e), x)
     | None \<Rightarrow> (case me_fails E smsg of Some e \<Rightarrow> (Inl (M_StoreSummary e), x1)
       | None \<Rightarrow> (case me_read_fails E 1 of Some e \<Rightarrow> (Inl (M_NewHistory e), x3)
         | None \<Rightarrow> (case ctx of None \<Rightarrow> (Inl M_NoContext, x3)
           | Some c \<Rightarrow> (Inr (BeforeLlmCall (summary_context E s c)), x3)))))"
  by (simp add: finish_compaction_def compaction_pair add_message_result effective_history_def
      compacted_context_pair Let_def split: option.split)

lemma finish_compaction_frame:
  "x_history (snd (finish_compaction E s n ctx (emit_events evs y))) = x_history (snd (finish_compaction E s n ctx y))"
  "fst (finish_compaction E s n ctx (emit_events evs y)) = fst (finish_compaction E s n ctx y)"
  "x_history (snd (finish_compaction E s n ctx (emit_event ev y))) = x_history (snd (finish_compaction E s n ctx y))"
  "fst (finish_compaction E s n ctx (emit_event ev y)) = fst (finish_compaction E s n ctx y)"
  by (simp_all add: finish_compaction_cases Let_def split: option.split)

lemma compact_messages_eq:
  "fst (compact_messages E ms ctx x) =
    (case generate_summary E ms of Inl e \<Rightarrow> Inl e
     | Inr r \<Rightarrow> (case me_post E (post_request E (x_session_id x) ms r) of Inl e \<Rightarrow> Inl (M_Hook e)
       | Inr h \<Rightarrow> fst (finish_compaction E (with_contexts (cr_summary r) (poc_additional_contexts h))
                       (cr_original_token_count r) ctx x)))"
  "x_history (snd (compact_messages E ms ctx x)) =
    (case generate_summary E ms of Inl e \<Rightarrow> x_history x
     | Inr r \<Rightarrow> (case me_post E (post_request E (x_session_id x) ms r) of Inl e \<Rightarrow> x_history x
       | Inr h \<Rightarrow> x_history (snd (finish_compaction E (with_contexts (cr_summary r) (poc_additional_contexts h))
                       (cr_original_token_count r) ctx x))))"
  by (simp_all add: compact_messages_def finish_compaction_frame Let_def split: sum.split)

lemma generate_summary_error:
  "generate_summary E ms = Inl e \<Longrightarrow> (\<forall>e'. e \<noteq> M_StoreSummary e') \<and> (\<forall>e'. e \<noteq> M_NewHistory e') \<and> e \<noteq> M_NoContext"
  by (auto simp: generate_summary_def split: sum.splits option.splits)

text \<open>The result of a compaction in terms of the history before and after it.\<close>

fun compaction_leaves ::
    "('f, 'b) maint_env \<Rightarrow> ('f, 'b, 't) execution_state \<Rightarrow> ('f, 'b, 't) exec \<Rightarrow> ('f, 'b, 't) exec
     \<Rightarrow> maintenance_error + ('f, 'b, 't) execution_state \<Rightarrow> bool" where
  "compaction_leaves E s x x' (Inr (BeforeLlmCall c')) \<longleftrightarrow>
    (\<exists>c r h summary. state_context s = Some c \<and> generate_summary E (filter_to_effective_history (x_history x)) = Inr r \<and>
       me_post E (post_request E (x_session_id x) (filter_to_effective_history (x_history x)) r) = Inr h \<and>
       summary = with_contexts (cr_summary r) (poc_additional_contexts h) \<and> c' = summary_context E summary c \<and>
       x_history x' = x_history x @ [request_message E (x_session_id x) (cr_original_token_count r),
                                     summary_message E (x_session_id x) summary (cr_original_token_count r)])"
| "compaction_leaves E s x x' (Inr (Stopped _ t co)) \<longleftrightarrow>
    t = ContextThreshold \<and> co = state_context s \<and> x_history x' = x_history x"
| "compaction_leaves E s x x' (Inr _) \<longleftrightarrow> False"
| "compaction_leaves E s x x' (Inl (M_StoreSummary _)) \<longleftrightarrow>
    (\<exists>n. x_history x' = x_history x @ [request_message E (x_session_id x) n])"
| "compaction_leaves E s x x' (Inl (M_NewHistory _)) \<longleftrightarrow>
    (\<exists>n summary. x_history x' = x_history x @ [request_message E (x_session_id x) n, summary_message E (x_session_id x) summary n])"
| "compaction_leaves E s x x' (Inl M_NoContext) \<longleftrightarrow>
    state_context s = None \<and>
    (\<exists>n summary. x_history x' = x_history x @ [request_message E (x_session_id x) n, summary_message E (x_session_id x) summary n])"
| "compaction_leaves E s x x' (Inl _) \<longleftrightarrow> x_history x' = x_history x"

lemma compaction_leaves_unchanged:
  assumes "x_history x' = x_history x" and "generate_summary E ms = Inl e"
  shows "compaction_leaves E s x x' (Inl e)"
  using assms generate_summary_error [OF assms(2)] by (cases e) auto

lemma run_leaves:
  "compaction_leaves E s x (snd (run_ai_compaction E s x)) (fst (run_ai_compaction E s x))"
proof (cases "me_read_fails E 0")
  case None
  define ms where "ms = filter_to_effective_history (x_history x)"
  from None have eff: "effective_history E 0 x = Inr ms" by (simp add: effective_history_def ms_def)
  show ?thesis
  proof (cases "me_pre E (pre_request E (x_session_id x) ms)")
    case (Inr h)
    show ?thesis
    proof (cases "pcr_should_block h")
      case False
      let ?x1 = "emit_events (notice_events (pcr_notices h)) x"
      have run: "run_ai_compaction E s x = compact_messages E ms (state_context s) ?x1"
        using False eff Inr by (simp add: run_ai_compaction_def)
      show ?thesis
      proof (cases "generate_summary E ms")
        case (Inl e)
        then show ?thesis unfolding run
          by (auto simp: compact_messages_eq intro: compaction_leaves_unchanged)
      next
        case gen: (Inr r)
        then show ?thesis unfolding run
          by (auto simp: compact_messages_eq ms_def [symmetric] finish_compaction_frame finish_compaction_cases Let_def
              split: sum.split option.split)
      qed
    qed (use eff Inr in \<open>simp add: run_ai_compaction_def\<close>)
  qed (use eff in \<open>simp add: run_ai_compaction_def\<close>)
qed (simp add: run_ai_compaction_def effective_history_def)

text \<open>C22: A compaction that returns to \<^verbatim>\<open>BeforeLlmCall\<close> has appended exactly the request and the summary
  message to the history; the new context consists of these two messages, with the session, provider,
  model, mode and statistics of the old one except the context tokens, which are those of the
  summary. A block by the hook stops with the threshold, the old context and an unchanged history.
  An error before the store leaves the history unchanged; a failure to store the summary leaves
  the request alone behind.\<close>

theorem run_ai_compaction_outcome:
  "compaction_leaves E s x (snd (run_ai_compaction E s x)) (fst (run_ai_compaction E s x))"
  by (rule run_leaves)

text \<open>C36: When the store rejects the summary after it accepted the request, the compaction fails, but
  the effective history has already been cut: it consists of the request message alone, without any
  message of the conversation before it.\<close>

theorem compaction_partial_store_cuts_history:
  assumes "run_ai_compaction E s x = (Inl (M_StoreSummary e), x')"
  shows "\<exists>n. filter_to_effective_history (x_history x') = [request_message E (x_session_id x) n]"
proof -
  from assms run_leaves [of E s x] have "compaction_leaves E s x x' (Inl (M_StoreSummary e))" by simp
  then show ?thesis by auto
qed

definition demo_maint_env :: "(rat, unit) maint_env" where
  "demo_maint_env = \<lparr>me_ops = rat_ops, me_render = (\<lambda>_ _. []), me_parse = (\<lambda>_. None), me_print = (\<lambda>_. []),
     me_blob_size = (\<lambda>_. None), me_estimate = len_usize, me_llm_config = Some (''p'', ''m''), me_turn_id = None,
     me_cwd = None, me_permission_mode = ''default'', me_max_prompt_bytes = None, me_pruning_enabled = True,
     me_prune_config = \<lparr>pc_protect_tokens = 1, pc_minimum_tokens = 1, pc_protected_tools = []\<rparr>,
     me_compaction_auto = True, me_retry = default_retry_config rat_ops,
     me_pre = (\<lambda>_. Inr \<lparr>pcr_should_block = False, pcr_block_reason = None, pcr_additional_contexts = [], pcr_notices = []\<rparr>),
     me_post = (\<lambda>_. Inr \<lparr>poc_additional_contexts = [], poc_notices = []\<rparr>),
     me_provider = Inr (\<lambda>_ _. Inr ''sum''), me_request_id = ''r'', me_summary_id = ''s'', me_now = 7,
     me_read_fails = (\<lambda>_. None), me_fails = (\<lambda>m. if am_role m = Assistant then Some (DatabaseError ''full'') else None),
     me_mark_fails = None\<rparr>"

definition demo_maint_exec :: "(rat, unit, unit) exec" where
  "demo_maint_exec = \<lparr>x_session_id = ''s'', x_history = [\<lparr>am_id = ''a'', am_session_id = ''s'', am_role = User,
       am_parts = [Part_Text ''hi''], am_created_at = 0, am_parent_message_id = None, am_source_provider = None,
       am_source_model = None\<rparr>], x_events = [], x_tools_hash = None, x_active_task = None,
     x_turn_diffs = \<lparr>dp_added = [], dp_modified = [], dp_removed = []\<rparr>, x_permission_cache = Map.empty, x_delegations = [],
     x_pending_snapshot = None, x_turn_snapshot = None\<rparr>"

lemma demo_generate:
  "generate_summary demo_maint_env ms = Inr \<lparr>cr_summary = ''sum'',
     cr_original_token_count = estimate_messages_tokens len_usize (\<lambda>_ _. []) ms None, cr_summary_token_count = 3\<rparr>"
proof -
  have "[0..<Suc (unat (3 :: usize))] = [0, 1, 2, 3]" by (simp add: upt_rec)
  then show ?thesis
    by (simp add: generate_summary_def demo_maint_env_def compaction_process_def call_with_retry_def
        default_retry_config_def len_usize_def Let_def del: upt_Suc)
qed

theorem compaction_partial_store_cuts_history_witness:
  "\<exists>x' n. run_ai_compaction demo_maint_env Complete demo_maint_exec = (Inl (M_StoreSummary (DatabaseError ''full'')), x') \<and>
     filter_to_effective_history (x_history x') = [request_message demo_maint_env ''s'' n]"
proof -
  have fields: "me_read_fails demo_maint_env = (\<lambda>_. None)"
    "me_pre demo_maint_env r = Inr \<lparr>pcr_should_block = False, pcr_block_reason = None, pcr_additional_contexts = [], pcr_notices = []\<rparr>"
    "me_post demo_maint_env q = Inr \<lparr>poc_additional_contexts = [], poc_notices = []\<rparr>"
    "me_fails demo_maint_env m = (if am_role m = Assistant then Some (DatabaseError ''full'') else None)" for r q m
    by (simp_all add: demo_maint_env_def)
  have "fst (run_ai_compaction demo_maint_env Complete demo_maint_exec) = Inl (M_StoreSummary (DatabaseError ''full''))"
    by (simp add: run_ai_compaction_def effective_history_def fields compact_messages_eq demo_generate
        finish_compaction_cases Let_def)
  then obtain x' where run: "run_ai_compaction demo_maint_env Complete demo_maint_exec =
      (Inl (M_StoreSummary (DatabaseError ''full'')), x')"
    by (cases "run_ai_compaction demo_maint_env Complete demo_maint_exec") auto
  from compaction_partial_store_cuts_history [OF run] run show ?thesis by (auto simp: demo_maint_exec_def)
qed

section \<open>What pruning changes\<close>

definition result_ids :: "('f, 'b) agent_message \<Rightarrow> string list" where
  "result_ids m = List.map_filter (\<lambda>p. case p of Part_ToolResult cid _ _ _ _ _ \<Rightarrow> Some cid | _ \<Rightarrow> None) (am_parts m)"

lemma mark_part_skip: "\<not> is_markable ids p \<Longrightarrow> mark_part now ids p = p"
  by (auto simp: mark_part_def is_markable_def split: message_part.splits option.splits)

lemma mark_part_markable:
  "is_markable ids p \<Longrightarrow> \<exists>cid c e n a. p = Part_ToolResult cid c e n a None \<and> cid \<in> set ids \<and>
     mark_part now ids p = Part_ToolResult cid c e n a (Some now)"
  by (auto simp: mark_part_def is_markable_def split: message_part.splits option.splits)

lemma distinct_concat_inj:
  "distinct (concat (map f xs)) \<Longrightarrow> a \<in> set xs \<Longrightarrow> b \<in> set xs \<Longrightarrow> c \<in> set (f a) \<Longrightarrow> c \<in> set (f b) \<Longrightarrow> a = b"
  by (induction xs) auto

lemma distinct_map_filter_inj:
  "distinct (List.map_filter f xs) \<Longrightarrow> a \<in> set xs \<Longrightarrow> b \<in> set xs \<Longrightarrow> f a = Some c \<Longrightarrow> f b = Some c \<Longrightarrow> a = b"
  by (induction xs) (auto simp: List.map_filter_simps map_filter_set split: option.splits)

lemma distinct_concat_elem: "distinct (concat (map f xs)) \<Longrightarrow> a \<in> set xs \<Longrightarrow> distinct (f a)"
  by (induction xs) auto

lemma prunable_item_result:
  "prunable_item est cfg mid p = Some i \<Longrightarrow> \<exists>c e n a. p = Part_ToolResult (pt_call_id i) c e n a None"
  by (auto simp: prunable_item_def split: message_part.splits if_splits)

lemma candidate_origin:
  assumes "i \<in> set (pa_candidates (prune_spec est ms cfg))"
  obtains m p where "m \<in> set (eligible_messages ms)" "p \<in> set (am_parts m)" "prunable_item est cfg (am_id m) p = Some i"
proof -
  let ?items = "concat (map (message_items est cfg) (eligible_messages ms))"
  obtain q rest where split: "protect_split (pc_protect_tokens cfg) 0 ?items = (q, rest)" by fastforce
  with assms have "i \<in> set rest" by (auto simp: prune_spec_def Let_def split: if_splits)
  with protect_split_suffix [OF split] have "i \<in> set ?items" using set_mono_suffix by blast
  then show thesis using that by (auto simp: message_items_def map_filter_set)
qed

lemma eligible_subset: "set (eligible_messages ms) \<subseteq> set ms"
proof -
  have "set (skip_user_turns n xs) \<subseteq> set xs" for n and xs :: "('f, 'b) agent_message list"
    by (induction n arbitrary: xs) (auto dest!: in_set_dropD subsetD dest: set_dropWhileD)
  then show ?thesis using set_takeWhileD by (fastforce simp: eligible_messages_def)
qed

text \<open>A part before and after pruning: unchanged, or an unmarked result of an unprotected tool that got its mark.\<close>

definition pruned_part ::
    "('f, 'b) maint_env \<Rightarrow> string \<Rightarrow> ('f, 'b) message_part \<Rightarrow> ('f, 'b) message_part \<Rightarrow> bool" where
  "pruned_part E mid p p' \<longleftrightarrow> p' = p \<or>
     ((\<exists>i. prunable_item (estimate_content (me_print E)
             (content_cost_estimator_for_llm_config (me_ops E) (me_blob_size E) (me_llm_config E)))
             (me_prune_config E) mid p = Some i) \<and>
      (\<exists>cid c e n a. p = Part_ToolResult cid c e n a None \<and> p' = Part_ToolResult cid c e n a (Some (me_now E))))"

definition pruned_message ::
    "('f, 'b) maint_env \<Rightarrow> ('f, 'b) agent_message list \<Rightarrow> ('f, 'b) agent_message \<Rightarrow> ('f, 'b) agent_message \<Rightarrow> bool" where
  "pruned_message E ms m m' \<longleftrightarrow> m' = m \<or> m \<in> set (eligible_messages ms) \<and>
     (\<exists>ps. m' = m\<lparr>am_parts := ps\<rparr> \<and> list_all2 (pruned_part E (am_id m)) (am_parts m) ps)"

lemma marked_candidates_pruned:
  fixes E :: "('f, 'b) maint_env"
  assumes ids: "distinct (concat (map result_ids ms))" and m: "m \<in> set ms"
    and est: "est = estimate_content (me_print E) (content_cost_estimator_for_llm_config (me_ops E) (me_blob_size E) (me_llm_config E))"
  shows "pruned_message E ms m (mark_message (me_now E)
    (extract_call_ids (pa_candidates (prune_spec est ms (me_prune_config E)))) m)"
proof -
  define cs where "cs = extract_call_ids (pa_candidates (prune_spec est ms (me_prune_config E)))"
  have hit: "m \<in> set (eligible_messages ms) \<and> (\<exists>i. prunable_item est (me_prune_config E) (am_id m) p = Some i)"
    if p: "p \<in> set (am_parts m)" and mk: "is_markable cs p" for p
  proof -
    from mark_part_markable [OF mk, of "me_now E"] obtain cid c e n a where P: "p = Part_ToolResult cid c e n a None" "cid \<in> set cs" by auto
    then obtain i where i: "i \<in> set (pa_candidates (prune_spec est ms (me_prune_config E)))" "pt_call_id i = cid"
      by (auto simp: cs_def extract_call_ids_def)
    from candidate_origin [OF i(1)] obtain m' p' where o: "m' \<in> set (eligible_messages ms)" "p' \<in> set (am_parts m')"
      "prunable_item est (me_prune_config E) (am_id m') p' = Some i" .
    from prunable_item_result [OF o(3)] i(2) obtain c' e' n' a' where P': "p' = Part_ToolResult cid c' e' n' a' None" by auto
    have "cid \<in> set (result_ids m)" "cid \<in> set (result_ids m')"
      using p P o(2) P' by (force simp: result_ids_def map_filter_set)+
    with distinct_concat_inj [OF ids m] o(1) eligible_subset [of ms] have eq: "m = m'" by blast
    with o(2) P' p P have "p = p'"
      using distinct_map_filter_inj [OF distinct_concat_elem [OF ids m, unfolded result_ids_def], of p p'] by simp
    with eq o show ?thesis by blast
  qed
  show ?thesis
  proof (cases "\<exists>p \<in> set (am_parts m). is_markable cs p")
    case True
    have part: "pruned_part E (am_id m) p (mark_part (me_now E) cs p)" if p: "p \<in> set (am_parts m)" for p
    proof (cases "is_markable cs p")
      case mk: True
      from hit [OF p mk] mark_part_markable [OF mk, of "me_now E"] show ?thesis
        unfolding pruned_part_def est by blast
    qed (simp add: pruned_part_def mark_part_skip)
    then have "list_all2 (pruned_part E (am_id m)) (am_parts m) (map (mark_part (me_now E) cs) (am_parts m))"
      by (auto simp: list_all2_conv_all_nth)
    with hit True show ?thesis unfolding pruned_message_def mark_message_def cs_def [symmetric] by blast
  next
    case False
    then have "mark_message (me_now E) cs m = m"
      by (simp add: mark_message_def map_idI mark_part_skip)
    then show ?thesis by (simp add: pruned_message_def cs_def)
  qed
qed

lemma run_pruning_history:
  "\<exists>ids. x_history (snd (run_pruning E x)) = x_history x \<or>
     ids = extract_call_ids (pa_candidates (prune_spec (estimate_content (me_print E)
             (content_cost_estimator_for_llm_config (me_ops E) (me_blob_size E) (me_llm_config E)))
             (x_history x) (me_prune_config E))) \<and>
     x_history (snd (run_pruning E x)) = map (mark_message (me_now E) ids) (x_history x)"
  by (auto simp: run_pruning_def mark_tool_results_compacted_def compute_prune_spec Let_def split: option.splits)


definition demo_history :: "(rat, unit) agent_message list" where
  "demo_history = map (\<lambda>(i, r, ps). \<lparr>am_id = i, am_session_id = ''s'', am_role = r, am_parts = ps, am_created_at = 0,
       am_parent_message_id = None, am_source_provider = None, am_source_model = None\<rparr>)
     [(''a'', User, [Part_Text ''hi'', Part_ToolResult ''c1'' [Content_Text ''output''] False (Some ''shell'') None None]),
      (''b'', User, [Part_ToolResult ''c2'' [Content_Text ''output''] False (Some ''shell'') None None]),
      (''c'', User, [Part_Text ''go on'']), (''d'', User, [Part_Text ''and on''])]"


end
