(* ===== verification/State_Machine.thy ===== *)
theory State_Machine
  imports Transitions Wait_Events Maintenance Limits_Middleware
begin

text \<open>
  The loop of a turn: \<^verbatim>\<open>execute_cycle_state_machine\<close> of
  \<^verbatim>\<open>crates/agent/src/agent/execution/mod.rs\<close>. One iteration is \<open>cycle_step\<close>; what the surroundings
  answer during the iteration (cancellation, provider, tools, clients, hooks, stores) is its
  argument, so a turn is the iteration over a list of such answers.

  The middleware has its own view of the world (\<open>Driver\<close>); \<open>se_view\<close> gives that view after the
  writes of the execution itself.
\<close>

section \<open>The continuation message of a stop hook\<close>

definition MAX_STOP_HOOK_CONTINUATIONS_PER_TURN :: u8 where
  "MAX_STOP_HOOK_CONTINUATIONS_PER_TURN = 1"

text \<open>\<^verbatim>\<open>s.trim().is_empty()\<close> on the UTF-8 bytes of \<open>s\<close>: only characters of the Unicode property White_Space.\<close>

fun is_blank :: "string \<Rightarrow> bool" where
  "is_blank [] = True"
| "is_blank (a # s) =
    (let x = of_char a :: nat in
     if 9 \<le> x \<and> x \<le> 13 \<or> x = 32 then is_blank s
     else (case s of
         [] \<Rightarrow> False
       | b # t \<Rightarrow>
           (let y = of_char b :: nat in
            if x = 194 \<and> (y = 133 \<or> y = 160) then is_blank t
            else (case t of
                [] \<Rightarrow> False
              | c # u \<Rightarrow>
                  (let z = of_char c :: nat in
                   if x = 225 \<and> y = 154 \<and> z = 128 \<or>
                      x = 226 \<and> y = 128 \<and> (128 \<le> z \<and> z \<le> 138 \<or> z = 168 \<or> z = 169 \<or> z = 175) \<or>
                      x = 226 \<and> y = 129 \<and> z = 159 \<or> x = 227 \<and> y = 128 \<and> z = 128
                   then is_blank u else False)))))"

definition format_stop_hook_continuation_message :: "string option \<Rightarrow> string list \<Rightarrow> string" where
  "format_stop_hook_continuation_message reason contexts =
    ''<system-reminder>'' @ nl @ ''A QueryMT Stop hook requested another agent step.'' @ nl @
    (case reason of
       Some r \<Rightarrow> (if is_blank r then [] else nl @ ''Reason:'' @ nl @ r @ nl)
     | None \<Rightarrow> []) @
    (if contexts = [] then []
     else nl @ ''Additional hook context:'' @ nl @ concat (map (\<lambda>c. ''- '' @ c @ nl) contexts)) @
    nl @ ''This message was generated by the QueryMT hook runtime, not by the user.'' @ nl @ ''</system-reminder>''"

section \<open>The state of a turn\<close>

datatype cycle_outcome = CO_Completed | CO_Cancelled | CO_Stopped stop_reason

record stop_request =
  sq_session_id :: string
  sq_turn_id :: string
  sq_cwd :: "string option"
  sq_model :: string
  sq_permission_mode :: string
  sq_stop_reason :: string

record ('f, 'b, 't, 'w) machine =
  mc_state :: "('f, 'b, 't) execution_state"
  mc_exec :: "('f, 'b, 't) exec"
  mc_world :: 'w
  mc_continuations :: u8

text \<open>The answers of the surroundings in one iteration.\<close>

record ('f, 'b, 't, 'w) step_env =
  se_cancelled :: bool                                 \<comment> \<open>the token, at the top of the loop\<close>
  se_view :: "('f, 'b, 't) exec \<Rightarrow> 'w \<Rightarrow> 'w"
  se_llm :: "('f, 'b, 't) llm_env"
  se_tool :: "('f, 'b) tool_env"
  se_tool_fails :: "('f, 'b) agent_message \<Rightarrow> session_error option"
  se_tool_message_id :: string
  se_tool_phase :: "('f, 'b, 't) tool_phase"
  se_wait :: "('f, 'b) wait_env"
  se_wait_cancelled :: bool
  se_wait_inputs :: "('f, 't) wait_input list"
  se_maint :: "('f, 'b) maint_env"
  se_stop_hook :: "stop_request \<Rightarrow> string + stop_result"

text \<open>The result of an iteration: another one, a return, or a wait that has not ended yet.\<close>

datatype ('f, 'b, 't, 'w) cycle_result =
    Next "('f, 'b, 't, 'w) machine"
  | Return "exec_error + cycle_outcome" "('f, 'b, 't, 'w) machine"
  | Waiting

section \<open>The arms of the match\<close>

text \<open>A transition gives the next state or an error that ends the turn.\<close>

definition after_transition ::
    "('f, 'b, 't, 'w) machine \<Rightarrow> (exec_error + ('f, 'b, 't) execution_state) \<times> ('f, 'b, 't) exec
     \<Rightarrow> ('f, 'b, 't, 'w) cycle_result" where
  "after_transition m r =
    (case r of
       (Inl e, x) \<Rightarrow> Return (Inl e) (m\<lparr>mc_exec := x\<rparr>)
     | (Inr s, x) \<Rightarrow> Next (m\<lparr>mc_state := s, mc_exec := x\<rparr>))"

definition text_error :: "(string + 's) \<times> 'x \<Rightarrow> (exec_error + 's) \<times> 'x" where
  "text_error r = (case r of (Inl e, x) \<Rightarrow> (Inl (E_Text e), x) | (Inr s, x) \<Rightarrow> (Inr s, x))"

text \<open>The middleware runs first; when it keeps the state's variant, the transition \<open>k\<close> follows.\<close>

definition with_middleware ::
    "(middleware_error + ('f, 'b, 't) execution_state) \<times> 'w \<Rightarrow> ('f, 'b, 't, 'w) machine
     \<Rightarrow> (('f, 'b, 't) execution_state \<Rightarrow> ((exec_error + ('f, 'b, 't) execution_state) \<times> ('f, 'b, 't) exec) option)
     \<Rightarrow> ('f, 'b, 't, 'w) cycle_result" where
  "with_middleware r m k =
    (case r of
       (Inl e, w) \<Rightarrow> Return (Inl (E_Middleware e)) (m\<lparr>mc_world := w\<rparr>)
     | (Inr s, w) \<Rightarrow>
         (case k s of
            Some r \<Rightarrow> after_transition (m\<lparr>mc_world := w\<rparr>) r
          | None \<Rightarrow> Next (m\<lparr>mc_state := s, mc_world := w\<rparr>)))"

definition stop_hook_request :: "('f, 'b, 't, 'w) step_env \<Rightarrow> ('f, 'b, 't) exec \<Rightarrow> stop_request" where
  "stop_hook_request E x = \<lparr>sq_session_id = x_session_id x, sq_turn_id = turn_id_of (se_maint E),
     sq_cwd = me_cwd (se_maint E), sq_model = model_name (se_maint E),
     sq_permission_mode = me_permission_mode (se_maint E), sq_stop_reason = ''EndTurn''\<rparr>"

text \<open>\<^verbatim>\<open>state.context()\<close> is read from the state \<^verbatim>\<open>Complete\<close>, which has none.\<close>

definition stop_continuation ::
    "'f conversation_context \<Rightarrow> stop_result \<Rightarrow> ('f, 'b, 't, 'w) machine \<Rightarrow> ('f, 'b, 't, 'w) machine" where
  "stop_continuation init h m =
    (let current = (case state_context (mc_state m) of Some c \<Rightarrow> c | None \<Rightarrow> init);
         message = format_stop_hook_continuation_message (or_else (sr_stop_reason h) (sr_block_reason h))
                     (sr_additional_contexts h)
     in m\<lparr>mc_continuations := mc_continuations m + 1, mc_state := BeforeLlmCall (inject_message current message)\<rparr>)"

definition finish_turn ::
    "('f, 'b, 't, 'w) step_env \<Rightarrow> 'f conversation_context \<Rightarrow> ('f, 'b, 't, 'w) machine \<Rightarrow> ('f, 'b, 't, 'w) cycle_result" where
  "finish_turn E init m =
    (case se_stop_hook E (stop_hook_request E (mc_exec m)) of
       Inl e \<Rightarrow> Return (Inl (E_Hook e)) m
     | Inr h \<Rightarrow>
         (let m1 = m\<lparr>mc_exec := emit_events (notice_events (sr_notices h)) (mc_exec m)\<rparr> in
          if sr_should_continue h \<and> \<not> MAX_STOP_HOOK_CONTINUATIONS_PER_TURN \<le> mc_continuations m1
          then Next (stop_continuation init h m1)
          else Return (Inr CO_Completed)
                 (if me_pruning_enabled (se_maint E)
                  then m1\<lparr>mc_exec := snd (run_pruning (se_maint E) (mc_exec m1))\<rparr> else m1)))"

definition complete_arm ::
    "('f, 'b, 't, 'w) driver list \<Rightarrow> ('f, 'b, 't, 'w) step_env \<Rightarrow> 'f conversation_context
     \<Rightarrow> ('f, 'b, 't, 'w) machine \<Rightarrow> ('f, 'b, 't, 'w) cycle_result" where
  "complete_arm ds E init m =
    (case run_turn_end ds Complete (mc_world m) of
       (Inl e, w) \<Rightarrow> Return (Inl (E_Middleware e)) (m\<lparr>mc_world := w\<rparr>)
     | (Inr s, w) \<Rightarrow>
         (let m1 = m\<lparr>mc_world := w\<rparr> in
          case s of Complete \<Rightarrow> finish_turn E init m1 | other \<Rightarrow> Next (m1\<lparr>mc_state := other\<rparr>)))"

definition stop_metrics :: "'f conversation_context option \<Rightarrow> u32 \<times> u32" where
  "stop_metrics ctx =
    (case ctx of Some c \<Rightarrow> (u32_from_usize (st_steps (ctx_stats c)), u32_from_usize (st_turns (ctx_stats c))) | None \<Rightarrow> (0, 0))"

definition report_stop ::
    "string \<Rightarrow> stop_type \<Rightarrow> ('f, 'b, 't, 'w) machine \<Rightarrow> ('f, 'b, 't, 'w) cycle_result" where
  "report_stop message stop_type m =
    (let (steps, turns) = stop_metrics (state_context (mc_state m)) in
     Return (Inr (CO_Stopped (stop_reason_of stop_type)))
       (m\<lparr>mc_exec := emit_event (Ev_MiddlewareStopped stop_type message steps turns) (mc_exec m)\<rparr>))"

definition stopped_arm ::
    "('f, 'b, 't, 'w) step_env \<Rightarrow> string \<Rightarrow> stop_type \<Rightarrow> ('f, 'b, 't, 'w) machine \<Rightarrow> ('f, 'b, 't, 'w) cycle_result" where
  "stopped_arm E message stop_type m =
    (if stop_type = ContextThreshold \<and> me_compaction_auto (se_maint E)
     then (case run_ai_compaction (se_maint E) (mc_state m) (mc_exec m) of
             (Inr s, x) \<Rightarrow> Next (m\<lparr>mc_state := s, mc_exec := x\<rparr>)
           | (Inl _, x) \<Rightarrow> report_stop message stop_type (m\<lparr>mc_exec := x\<rparr>))
     else report_stop message stop_type m)"

section \<open>One iteration\<close>

definition cycle_step ::
    "('f, 'b, 't, 'w) driver list \<Rightarrow> 'f conversation_context \<Rightarrow> ('f, 'b, 't, 'w) step_env
     \<Rightarrow> ('f, 'b, 't, 'w) machine \<Rightarrow> ('f, 'b, 't, 'w) cycle_result" where
  "cycle_step ds init E m0 =
    (let m = m0\<lparr>mc_world := se_view E (mc_exec m0) (mc_world m0)\<rparr>; x = mc_exec m; w = mc_world m in
     if se_cancelled E then Return (Inr CO_Cancelled) m
     else (case mc_state m of
         BeforeLlmCall c \<Rightarrow>
           with_middleware (run_step_start ds (mc_state m) w) m
             (\<lambda>s. case s of BeforeLlmCall c' \<Rightarrow> Some (transition_before_llm_call (se_llm E) c' x) | _ \<Rightarrow> None)
       | CallLlm c tools \<Rightarrow> after_transition m (transition_call_llm (se_llm E) c tools x)
       | AfterLlm r c \<Rightarrow>
           with_middleware (run_after_llm ds (mc_state m) w) m
             (\<lambda>s. case s of AfterLlm r' c' \<Rightarrow> Some (transition_after_llm (se_llm E) r' c' x) | _ \<Rightarrow> None)
       | ProcessingToolCalls calls results c \<Rightarrow>
           with_middleware (run_processing_tool_calls ds (mc_state m) w) m
             (\<lambda>s. case s of
                ProcessingToolCalls calls' results' c' \<Rightarrow>
                  Some (text_error (transition_processing_tool_calls (le_render (se_llm E)) (se_tool E) (se_tool_fails E)
                          (se_tool_message_id E) (se_tool_phase E) calls' results' c' x))
              | _ \<Rightarrow> None)
       | WaitingForEvent c wait \<Rightarrow>
           (case transition_waiting_for_event (se_wait E) (se_wait_cancelled E) wait c (se_wait_inputs E) x of
              None \<Rightarrow> Waiting
            | Some r \<Rightarrow> after_transition m (text_error r))
       | Complete \<Rightarrow> complete_arm ds E init m
       | Stopped message stop_type ctx \<Rightarrow> stopped_arm E message stop_type m
       | Cancelled \<Rightarrow> Return (Inr CO_Cancelled) m))"

section \<open>A turn\<close>

definition turn_count :: "chat_message list \<Rightarrow> nat" where
  "turn_count ms = length (filter (\<lambda>m. cm_role m = User \<and> \<not> has_tool_result m) ms)"

definition initial_messages ::
    "('f, 'b) maint_env \<Rightarrow> ('f, 'b, 't) exec \<Rightarrow> chat_message list" where
  "initial_messages E x =
    (case effective_history E 0 x of
       Inl _ \<Rightarrow> []
     | Inr ms \<Rightarrow> map (\<lambda>m. to_chat_message_with_target (me_render E) (me_parse E) m
         (map_option fst (me_llm_config E)) (map_option snd (me_llm_config E)) (me_max_prompt_bytes E)) ms)"

definition initial_context ::
    "('f, 'b) maint_env \<Rightarrow> agent_mode \<Rightarrow> ('f, 'b, 't) exec \<Rightarrow> 'f conversation_context option" where
  "initial_context E mode x =
    (let ms = initial_messages E x in
     case me_llm_config E of
       None \<Rightarrow> None
     | Some (provider, model) \<Rightarrow>
         Some (with_session_mode
           (new_context (x_session_id x) ms ((default_stats (me_ops E))\<lparr>st_turns := of_nat (turn_count ms)\<rparr>) provider model)
           mode))"

definition start_turn ::
    "('f, 'b, 't, 'w) driver list \<Rightarrow> 'f conversation_context \<Rightarrow> ('f, 'b, 't) exec \<Rightarrow> 'w
     \<Rightarrow> exec_error + ('f, 'b, 't, 'w) machine" where
  "start_turn ds init x w =
    (case run_turn_start ds (BeforeLlmCall init) w of
       (Inl e, _) \<Rightarrow> Inl (E_Middleware e)
     | (Inr s, w') \<Rightarrow> Inr \<lparr>mc_state = s, mc_exec = x, mc_world = w', mc_continuations = 0\<rparr>)"

text \<open>The loop over the answers of the surroundings; \<open>None\<close> when they are used up and the turn goes on.\<close>

fun cycle_loop ::
    "('f, 'b, 't, 'w) driver list \<Rightarrow> 'f conversation_context \<Rightarrow> ('f, 'b, 't, 'w) step_env list
     \<Rightarrow> ('f, 'b, 't, 'w) machine \<Rightarrow> ((exec_error + cycle_outcome) \<times> ('f, 'b, 't, 'w) machine) option" where
  "cycle_loop ds init [] m = None"
| "cycle_loop ds init (E # Es) m =
    (case cycle_step ds init E m of
       Next m' \<Rightarrow> cycle_loop ds init Es m'
     | Return r m' \<Rightarrow> Some (r, m')
     | Waiting \<Rightarrow> None)"

definition execute_cycle_state_machine ::
    "('f, 'b, 't, 'w) driver list \<Rightarrow> ('f, 'b) maint_env \<Rightarrow> agent_mode \<Rightarrow> ('f, 'b, 't, 'w) step_env list
     \<Rightarrow> ('f, 'b, 't) exec \<Rightarrow> 'w \<Rightarrow> ((exec_error + cycle_outcome) \<times> ('f, 'b, 't) exec) option" where
  "execute_cycle_state_machine ds M mode Es x w =
    (case initial_context M mode x of
       None \<Rightarrow> Some (Inl (E_Text ''No LLM config for session''), x)
     | Some init \<Rightarrow>
         (case start_turn ds init x w of
            Inl e \<Rightarrow> Some (Inl e, x)
          | Inr m \<Rightarrow> map_option (\<lambda>(r, m'). (r, mc_exec m')) (cycle_loop ds init Es m)))"

inductive cycle_reach ::
    "('f, 'b, 't, 'w) driver list \<Rightarrow> 'f conversation_context \<Rightarrow> ('f, 'b, 't, 'w) machine \<Rightarrow> bool"
  for ds init where
  start: "start_turn ds init x w = Inr m \<Longrightarrow> cycle_reach ds init m"
| step: "cycle_reach ds init m \<Longrightarrow> cycle_step ds init E m = Next m' \<Longrightarrow> cycle_reach ds init m'"

section \<open>What the transitions return\<close>

lemma before_returns:
  "transition_before_llm_call E c x = (Inr s, x') \<Longrightarrow> s = Cancelled \<or> (\<exists>tools. s = CallLlm c tools)"
  by (auto simp: transition_before_llm_call_def Let_def split: if_splits option.splits sum.splits)

lemma call_returns:
  "transition_call_llm E c tools x = (Inr s, x') \<Longrightarrow> s = Cancelled \<or> (\<exists>r. s = AfterLlm r c)"
  by (auto simp: transition_call_llm_def Let_def split: if_splits option.splits sum.splits prod.splits)

fun after_llm_result :: "('f, 'b, 't) llm_env \<Rightarrow> llm_response \<Rightarrow> 'f conversation_context \<Rightarrow> ('f, 'b, 't) execution_state \<Rightarrow> bool" where
  "after_llm_result E r c (ProcessingToolCalls calls results c') \<longleftrightarrow>
     calls = lr_tool_calls r \<and> calls \<noteq> [] \<and> results = [] \<and> (\<exists>m. c' = answered_context E r m c)"
| "after_llm_result E r c (Stopped _ t co) \<longleftrightarrow>
     (t = ModelTokenLimit \<or> t = ContentFilter) \<and> (\<exists>m. co = Some (answered_context E r m c))"
| "after_llm_result E r c Complete \<longleftrightarrow> True"
| "after_llm_result E r c Cancelled \<longleftrightarrow> True"
| "after_llm_result E r c _ \<longleftrightarrow> False"

lemma next_after_returns:
  "after_llm_result E r c (fst (next_after_response E r (answered_context E r m c) x))"
  by (auto simp: next_after_response_def calls_or_complete_def split: option.split finish_reason.split)

lemma after_returns:
  assumes "transition_after_llm E r c x = (Inr s, x')"
  shows "after_llm_result E r c s"
proof -
  have "s = Cancelled \<or> (\<exists>m y. s = fst (next_after_response E r (answered_context E r m c) y))"
    using assms by (auto simp: transition_after_llm_def Let_def case_prod_unfold split: if_splits option.splits sum.splits)
  then show ?thesis using next_after_returns by fastforce
qed

lemmas transition_returns = before_returns call_returns after_returns processing_ok waiting_result

lemma text_error_Inr [simp]: "text_error r = (Inr s, x) \<longleftrightarrow> r = (Inr s, x)"
  by (cases r; cases "fst r") (auto simp: text_error_def)

lemma after_transition_Next:
  "after_transition m r = Next m' \<longleftrightarrow> (\<exists>s x. r = (Inr s, x) \<and> m' = m\<lparr>mc_state := s, mc_exec := x\<rparr>)"
  by (auto simp: after_transition_def split: prod.split sum.split)

lemma with_middleware_Next:
  "with_middleware r m k = Next m' \<longleftrightarrow>
    (\<exists>s w. r = (Inr s, w) \<and>
      ((\<exists>s' x. k s = Some (Inr s', x) \<and> m' = m\<lparr>mc_world := w, mc_state := s', mc_exec := x\<rparr>) \<or>
       k s = None \<and> m' = m\<lparr>mc_state := s, mc_world := w\<rparr>))"
  by (auto simp: with_middleware_def after_transition_Next split: prod.split sum.split option.split)

text \<open>The iterations that go on, one rule per arm. \<open>v\<close> is the machine with the middleware's current view.\<close>

definition viewed :: "('f, 'b, 't, 'w) step_env \<Rightarrow> ('f, 'b, 't, 'w) machine \<Rightarrow> ('f, 'b, 't, 'w) machine" where
  "viewed E m = m\<lparr>mc_world := se_view E (mc_exec m) (mc_world m)\<rparr>"

lemma viewed_simps [simp]:
  "mc_state (viewed E m) = mc_state m" "mc_exec (viewed E m) = mc_exec m"
  "mc_continuations (viewed E m) = mc_continuations m"
  by (simp_all add: viewed_def)

section \<open>Invariants of a turn\<close>

definition pipeline :: "('f, 'b, 't, 'w) driver list \<Rightarrow> bool" where
  "pipeline ds \<longleftrightarrow> (\<forall>d \<in> set ds. middleware_contract d)"

definition ctx_identity :: "'f conversation_context \<Rightarrow> string \<times> string \<times> string \<times> agent_mode" where
  "ctx_identity c = (ctx_session_id c, ctx_provider c, ctx_model c, ctx_session_mode c)"

definition identity_kept :: "'f conversation_context \<Rightarrow> ('f, 'b, 't) execution_state \<Rightarrow> bool" where
  "identity_kept init s \<longleftrightarrow> (\<forall>c. state_context s = Some c \<longrightarrow> ctx_identity c = ctx_identity init)"

lemma ctx_identity_simps [simp]:
  "ctx_identity (with_message c m) = ctx_identity c" "ctx_identity (answered_context E r msg c) = ctx_identity c"
  "ctx_identity (summary_context M s c) = ctx_identity c" "ctx_identity (inject_message c t) = ctx_identity c"
  by (simp_all add: ctx_identity_def with_message_def with_session_mode_def new_context_def summary_context_def inject_message_def)

lemma ctx_identity_extends: "ctx_extends c c' \<Longrightarrow> ctx_identity c' = ctx_identity c"
  by (simp add: ctx_identity_def ctx_extends_fields)

lemma identity_kept_Stopped: "identity_kept init (Stopped msg t co) = identity_kept init (Stopped msg' t' co)"
  by (simp add: identity_kept_def)

lemma identity_kept_simps [simp]:
  "identity_kept init (BeforeLlmCall c) = (ctx_identity c = ctx_identity init)"
  "identity_kept init (CallLlm c ts) = (ctx_identity c = ctx_identity init)"
  "identity_kept init (AfterLlm r c) = (ctx_identity c = ctx_identity init)"
  "identity_kept init (ProcessingToolCalls cs rs c) = (ctx_identity c = ctx_identity init)"
  "identity_kept init (WaitingForEvent c wt) = (ctx_identity c = ctx_identity init)"
  "identity_kept init (Stopped msg t (Some c)) = (ctx_identity c = ctx_identity init)"
  "identity_kept init (Stopped msg t None)" "identity_kept init Complete" "identity_kept init Cancelled"
  by (simp_all add: identity_kept_def)

text \<open>The pipeline of a turn: what each phase does, for middleware that keeps the contract.\<close>

lemma pipeline_step:
  assumes "pipeline ds" and "run_step_start ds (BeforeLlmCall c) w = (Inr s, w')"
  shows "step_result c s"
  using run_step_start_contract [of ds c w] assms by (auto simp: pipeline_def run_step_start_def)

lemma pipeline_turn:
  assumes "pipeline ds" and "run_turn_start ds (BeforeLlmCall c) w = (Inr s, w')"
  shows "\<exists>c'. s = BeforeLlmCall c' \<and> ctx_extends c c'"
  using run_turn_start_contract [of ds c w] assms by (auto simp: pipeline_def run_turn_start_def)

lemma pipeline_after:
  assumes "pipeline ds" and "run_after_llm ds (AfterLlm r c) w = (Inr s, w')"
  shows "after_result r c s"
  using run_after_llm_contract [of ds r c w] assms by (auto simp: pipeline_def run_after_llm_def)

lemma pipeline_tools:
  assumes "pipeline ds"
  shows "run_processing_tool_calls ds s w = (Inr s, w)"
  unfolding run_processing_tool_calls_def
  by (rule run_phase_identity) (use assms in \<open>auto simp: pipeline_def middleware_contract.tools_pass\<close>)

lemma pipeline_end:
  assumes "pipeline ds"
  shows "run_turn_end ds s w = (Inr s, w)"
  unfolding run_turn_end_def
  by (rule run_phase_identity) (use assms in \<open>auto simp: pipeline_def middleware_contract.end_pass\<close>)

lemma u8_below_one: "\<not> (1 :: u8) \<le> n \<longleftrightarrow> n = 0"
  by (simp add: not_le word_less_nat_alt unat_eq_zero)

text \<open>The iterations that go on, by the state they start from.\<close>

lemma cycle_step_Next:
  assumes "pipeline ds" and "cycle_step ds init E m = Next m'"
  shows "case mc_state m of
      BeforeLlmCall c \<Rightarrow> (\<exists>msg t c'. mc_state m' = Stopped msg t (Some c') \<and> ctx_extends c c') \<or>
        (\<exists>c' w'. run_step_start ds (BeforeLlmCall c) (mc_world (viewed E m)) = (Inr (BeforeLlmCall c'), w') \<and>
           ctx_extends c c' \<and> transition_before_llm_call (se_llm E) c' (mc_exec m) = (Inr (mc_state m'), mc_exec m'))
    | CallLlm c tools \<Rightarrow> (transition_call_llm (se_llm E) c tools (mc_exec m) = (Inr (mc_state m'), mc_exec m'))
    | AfterLlm r c \<Rightarrow> (\<exists>msg t. mc_state m' = Stopped msg t (Some c) \<and> t \<noteq> ContextThreshold) \<or>
        (transition_after_llm (se_llm E) r c (mc_exec m) = (Inr (mc_state m'), mc_exec m'))
    | ProcessingToolCalls calls results c \<Rightarrow>
        (transition_processing_tool_calls (le_render (se_llm E)) (se_tool E) (se_tool_fails E)
           (se_tool_message_id E) (se_tool_phase E) calls results c (mc_exec m) = (Inr (mc_state m'), mc_exec m'))
    | WaitingForEvent c wait \<Rightarrow> wait_result c (mc_state m')
    | Complete \<Rightarrow> mc_continuations m = 0 \<and> mc_continuations m' = 1 \<and>
        (\<exists>h :: stop_result. mc_state m' = BeforeLlmCall (inject_message init (format_stop_hook_continuation_message
           (or_else (sr_stop_reason h) (sr_block_reason h)) (sr_additional_contexts h))))
    | Stopped msg t co \<Rightarrow> t = ContextThreshold \<and>
        (run_ai_compaction (se_maint E) (mc_state m) (mc_exec m) = (Inr (mc_state m'), mc_exec m'))
    | Cancelled \<Rightarrow> False"
proof (cases "mc_state m")
  case (BeforeLlmCall c)
  with assms show ?thesis
    by (auto simp: cycle_step_def viewed_def [symmetric] with_middleware_Next Let_def split: if_splits dest!: pipeline_step)
      (auto split: execution_state.splits)
next
  case (AfterLlm r c)
  with assms show ?thesis
    by (auto simp: cycle_step_def viewed_def [symmetric] with_middleware_Next Let_def split: if_splits dest!: pipeline_after)
      (auto split: execution_state.splits)
next
  case Complete
  with assms obtain h where "\<not> 1 \<le> mc_continuations m"
    "m' = stop_continuation init h (viewed E m\<lparr>mc_exec := emit_events (notice_events (sr_notices h)) (mc_exec m)\<rparr>)"
    by (auto simp: cycle_step_def viewed_def [symmetric] Let_def complete_arm_def pipeline_end finish_turn_def
        MAX_STOP_HOOK_CONTINUATIONS_PER_TURN_def split: if_splits sum.splits)
  with Complete show ?thesis
    by (auto simp: u8_below_one stop_continuation_def Let_def intro!: exI [of _ h])
qed (use assms in \<open>auto simp: cycle_step_def viewed_def [symmetric] with_middleware_Next after_transition_Next pipeline_tools
      Let_def stopped_arm_def report_stop_def split: if_splits sum.splits option.splits prod.splits dest: waiting_result\<close>)

lemma start_turn_reach:
  assumes "pipeline ds" and "start_turn ds init x w = Inr m"
  shows "\<exists>c. mc_state m = BeforeLlmCall c \<and> ctx_extends init c \<and> mc_exec m = x \<and> mc_continuations m = 0"
  using assms pipeline_turn [OF assms(1), of init w]
  by (auto simp: start_turn_def split: prod.splits sum.splits)

lemma compaction_returns:
  assumes "run_ai_compaction M s x = (Inr s', x')"
  shows "(\<exists>c summary. state_context s = Some c \<and> s' = BeforeLlmCall (summary_context M summary c)) \<or>
    (\<exists>msg. s' = Stopped msg ContextThreshold (state_context s))"
  using run_leaves [of M s x] assms by (cases s') auto

lemma next_continuations [simp]:
  "after_transition m r = Next m' \<Longrightarrow> mc_continuations m' = mc_continuations m"
  "with_middleware r' m k = Next m' \<Longrightarrow> mc_continuations m' = mc_continuations m"
  "stopped_arm E msg t m = Next m' \<Longrightarrow> mc_continuations m' = mc_continuations m"
  by (auto simp: after_transition_Next with_middleware_Next stopped_arm_def report_stop_def Let_def
      split: if_splits sum.splits prod.splits)

lemma cycle_step_continuations:
  assumes "pipeline ds" and "cycle_step ds init E m = Next m'"
  shows "mc_continuations m' = (if mc_state m = Complete then 1 else mc_continuations m)"
proof (cases "mc_state m = Complete")
  case True
  with cycle_step_Next [OF assms] show ?thesis by simp
next
  case False
  with assms(2) show ?thesis
    by (cases "mc_state m") (auto simp: cycle_step_def Let_def split: if_splits option.splits dest!: next_continuations)
qed

lemma identity_step:
  assumes "pipeline ds" and "cycle_step ds init E m = Next m'" and "identity_kept init (mc_state m)"
  shows "identity_kept init (mc_state m')"
  using cycle_step_Next [OF assms(1,2)] assms(3)
  by (cases "mc_state m")
    (auto simp: ctx_identity_extends dest!: transition_returns compaction_returns split: option.splits
      elim!: after_llm_result.elims wait_result.elims intro: identity_kept_Stopped [THEN iffD1])

lemma reach_identity:
  assumes "pipeline ds" and "cycle_reach ds init m"
  shows "identity_kept init (mc_state m) \<and> mc_continuations m \<le> 1"
  using assms(2)
proof induction
  case (start x w m)
  from start_turn_reach [OF assms(1) start] show ?case by (auto simp: ctx_identity_extends)
next
  case (step m E m')
  with identity_step [OF assms(1)] cycle_step_continuations [OF assms(1)] show ?case by auto
qed

section \<open>Properties of a turn\<close>

definition demo_turn_context :: "rat conversation_context" where
  "demo_turn_context = new_context ''s'' [injected_message ''hi''] (default_stats rat_ops) ''p'' ''m''"

definition demo_turn_machine :: "(rat, unit, unit, unit) machine" where
  "demo_turn_machine = \<lparr>mc_state = BeforeLlmCall demo_turn_context, mc_exec = demo_maint_exec, mc_world = (), mc_continuations = 0\<rparr>"

lemma demo_reach: "cycle_reach [max_steps_middleware n] demo_turn_context demo_turn_machine"
  by (rule cycle_reach.start [where x = demo_maint_exec and w = "()"])
    (simp add: start_turn_def run_turn_start_def demo_turn_machine_def max_steps_middleware_def default_driver_def pass_def)

lemma demo_pipeline: "pipeline [max_steps_middleware n]"
  by (simp add: pipeline_def max_steps_mw.middleware_contract_axioms)



section \<open>The step limit\<close>

text \<open>A middleware that lets a step start only below \<open>n\<close> steps.\<close>

locale step_limiter = middleware_contract d for d :: "('f, 'b, 't, 'w) driver" +
  fixes n :: usize
  assumes below_limit:
    "on_step_start d (BeforeLlmCall c) w = (Inr (BeforeLlmCall c'), w') \<Longrightarrow> st_steps (ctx_stats c) < n"
begin

lemma pipeline_below_limit:
  assumes "\<And>d'. d' \<in> set ds \<Longrightarrow> middleware_contract d'" and "d \<in> set ds"
    and "run_phase Phase_StepStart ds (BeforeLlmCall c) w = (Inr (BeforeLlmCall c'), w')"
  shows "st_steps (ctx_stats c) < n"
  using assms
proof (induction ds arbitrary: c w)
  case (Cons d' ds)
  then have "middleware_contract d'" by simp
  from middleware_contract.step_before [OF this, of c w] obtain s w1
    where h: "on_step_start d' (BeforeLlmCall c) w = (Inr s, w1)" and r: "step_result c s" by blast
  from h r Cons.prems(3) obtain c1 where s: "s = BeforeLlmCall c1" by (cases s) auto
  show ?case
  proof (cases "d' = d")
    case True
    with h s show ?thesis by (auto intro: below_limit)
  next
    case False
    with Cons.prems have "d \<in> set ds" by simp
    with Cons.IH [of c1 w1] Cons.prems h s have "st_steps (ctx_stats c1) < n" by simp
    with r s show ?thesis by (simp add: ctx_extends_fields)
  qed
qed simp

end

interpretation max_steps_limiter: step_limiter "max_steps_middleware n" n for n
  by unfold_locales (auto simp: mw_defs split: if_splits)

lemma limits_step_limiter: "lc_max_steps cfg = Some n \<Longrightarrow> step_limiter (limits_middleware F cache cfg a) n"
  by (intro step_limiter.intro limits_mw.middleware_contract_axioms step_limiter_axioms.intro)
    (auto simp: mw_defs exceeds_def Let_def split: if_splits option.splits)

lemma call_below_limit:
  assumes "pipeline ds" and "step_limiter d n" and "d \<in> set ds" and "cycle_reach ds init m"
    and "mc_state m = CallLlm c tools"
  shows "st_steps (ctx_stats c) < n"
  using assms(4,5)
proof cases
  case (start x w)
  with start_turn_reach [OF assms(1) start(1)] assms(5) show ?thesis by auto
next
  case (step m0 E)
  note next0 = cycle_step_Next [OF assms(1) step(2)]
  show ?thesis
  proof (cases "mc_state m0")
    case (BeforeLlmCall c0)
    with next0 assms(5) obtain c' w' where
      run: "run_step_start ds (BeforeLlmCall c0) (mc_world (viewed E m0)) = (Inr (BeforeLlmCall c'), w')"
      and ext: "ctx_extends c0 c'" and tr: "transition_before_llm_call (se_llm E) c' (mc_exec m0) = (Inr (CallLlm c tools), mc_exec m)"
      by auto
    from step_limiter.pipeline_below_limit [OF assms(2) _ assms(3) run [unfolded run_step_start_def]] assms(1)
    have "st_steps (ctx_stats c0) < n" by (auto simp: pipeline_def)
    with ext before_returns [OF tr] show ?thesis by (simp add: ctx_extends_fields)
  qed (use next0 assms(5) in \<open>auto dest!: transition_returns compaction_returns\<close>)
qed

text \<open>C2: With the limits middleware set to \<open>n\<close> steps anywhere in the pipeline, the model is never called in a
  context that has already counted \<open>n\<close> steps.\<close>

theorem no_call_at_step_limit:
  assumes "pipeline ds" and "limits_middleware F cache cfg a \<in> set ds" and "lc_max_steps cfg = Some n"
    and "cycle_reach ds init m" and "mc_state m = CallLlm c tools"
  shows "st_steps (ctx_stats c) < n"
  using call_below_limit [OF assms(1) limits_step_limiter [OF assms(3)] assms(2,4,5)] .

definition demo_step_env :: "(rat, unit, unit, 'w) step_env" where
  "demo_step_env = \<lparr>se_cancelled = False, se_view = (\<lambda>_ w. w), se_llm = demo_llm_env, se_tool = idle_env,
     se_tool_fails = (\<lambda>_. None), se_tool_message_id = ''tm'',
     se_tool_phase = \<lparr>tp_interrupted = (\<lambda>_. False), tp_seen = (\<lambda>_. demo_exec), tp_events = [], tp_cache = Map.empty,
       tp_cancelled_before = False, tp_cancelled_after = False\<rparr>,
     se_wait = demo_wait_env, se_wait_cancelled = False, se_wait_inputs = [], se_maint = demo_maint_env,
     se_stop_hook = (\<lambda>_. Inr \<lparr>sr_should_continue = True, sr_block_reason = None, sr_stop_reason = None,
       sr_additional_contexts = [], sr_notices = []\<rparr>)\<rparr>"

definition demo_limits :: "(rat, unit, unit, unit world) driver" where
  "demo_limits = limits_middleware rat_ops None (default_limits_config\<lparr>lc_max_steps := Some 5\<rparr>) 0"

definition demo_hook_world :: "unit world" where
  "demo_hook_world = \<lparr>w_last_model = \<lambda>_. None, w_warned = \<lambda>_. {}, w_last_check = \<lambda>_. Map.empty, w_now = 0, w_db = ()\<rparr>"

lemma demo_limits_contract: "middleware_contract demo_limits"
  by (simp add: demo_limits_def limits_mw.middleware_contract_axioms)

lemma demo_limits_start:
  "start_turn [demo_limits] demo_turn_context demo_maint_exec demo_hook_world =
    Inr \<lparr>mc_state = BeforeLlmCall demo_turn_context, mc_exec = demo_maint_exec, mc_world = demo_hook_world, mc_continuations = 0\<rparr>"
  by (simp add: start_turn_def run_turn_start_def demo_limits_def mw_defs)

lemma demo_limits_step:
  "\<exists>m. cycle_step [demo_limits] demo_turn_context demo_step_env
      \<lparr>mc_state = BeforeLlmCall demo_turn_context, mc_exec = demo_maint_exec, mc_world = demo_hook_world, mc_continuations = 0\<rparr>
     = Next m \<and> mc_state m = CallLlm demo_turn_context [()] \<and> mc_continuations m = 0"
  by (simp add: cycle_step_def demo_step_env_def run_step_start_def demo_limits_def mw_defs exceeds_def price_exceeded_def
      default_limits_config_def demo_turn_context_def new_context_def default_stats_def with_middleware_def
      transition_before_llm_call_def demo_llm_env_def collect_tools_def is_tool_allowed_with_def
      is_mcp_tool_allowed_with_def after_transition_def Let_def)

theorem no_call_at_step_limit_witness:
  "\<exists>m. cycle_reach [demo_limits] demo_turn_context m \<and> mc_state m = CallLlm demo_turn_context [()] \<and>
     st_steps (ctx_stats demo_turn_context) < 5"
proof -
  from demo_limits_step obtain m where
    st: "cycle_step [demo_limits] demo_turn_context demo_step_env
      \<lparr>mc_state = BeforeLlmCall demo_turn_context, mc_exec = demo_maint_exec, mc_world = demo_hook_world, mc_continuations = 0\<rparr>
     = Next m" and m: "mc_state m = CallLlm demo_turn_context [()]" by blast
  have reach: "cycle_reach [demo_limits] demo_turn_context m"
    by (rule cycle_reach.step [OF cycle_reach.start [OF demo_limits_start] st])
  have "st_steps (ctx_stats demo_turn_context) < 5"
    by (rule no_call_at_step_limit [of "[demo_limits]", OF _ _ _ reach m])
      (simp add: pipeline_def demo_limits_contract, simp add: demo_limits_def, simp)
  with reach m show ?thesis by blast
qed

section \<open>How often the model is called\<close>

text \<open>The surroundings in which every answer of the model reports its usage.\<close>

definition reports_usage :: "('f, 'b, 't, 'w) step_env \<Rightarrow> bool" where
  "reports_usage E \<longleftrightarrow> (\<forall>tools ms a. fst (obtain_answer (se_llm E) tools ms) = Inr (Some a) \<longrightarrow> ma_usage a \<noteq> None)"

fun is_answer :: "('f, 'b, 't) execution_state \<Rightarrow> bool" where
  "is_answer (AfterLlm _ _) = True"
| "is_answer _ = False"

text \<open>Turns with the number of answers of the model so far.\<close>

inductive cycle_calls ::
    "('f, 'b, 't, 'w) driver list \<Rightarrow> 'f conversation_context \<Rightarrow> nat \<Rightarrow> ('f, 'b, 't, 'w) machine \<Rightarrow> bool"
  for ds init where
  begin_turn: "start_turn ds init x w = Inr m \<Longrightarrow> cycle_calls ds init 0 m"
| go_on: "cycle_calls ds init k m \<Longrightarrow> reports_usage E \<Longrightarrow> cycle_step ds init E m = Next m' \<Longrightarrow>
    cycle_calls ds init (if is_answer (mc_state m') then Suc k else k) m'"

fun calls_ok :: "nat \<Rightarrow> nat \<Rightarrow> nat \<Rightarrow> ('f, 'b, 't) execution_state \<Rightarrow> bool" where
  "calls_ok n b k (AfterLlm r c) \<longleftrightarrow> lr_usage r \<noteq> None \<and> unat (st_steps (ctx_stats c)) < n \<and> k \<le> b + unat (st_steps (ctx_stats c)) + 1"
| "calls_ok n b k (CallLlm c _) \<longleftrightarrow> unat (st_steps (ctx_stats c)) < n \<and> k \<le> b + unat (st_steps (ctx_stats c))"
| "calls_ok n b k (Stopped _ t (Some c)) \<longleftrightarrow> k \<le> b + n \<and>
     (t = ContextThreshold \<longrightarrow> unat (st_steps (ctx_stats c)) \<le> n \<and> k \<le> b + unat (st_steps (ctx_stats c)))"
| "calls_ok n b k (Stopped _ _ None) \<longleftrightarrow> k \<le> b + n"
| "calls_ok n b k Complete \<longleftrightarrow> k \<le> b + n"
| "calls_ok n b k Cancelled \<longleftrightarrow> k \<le> b + n"
| "calls_ok n b k (BeforeLlmCall c) \<longleftrightarrow> unat (st_steps (ctx_stats c)) \<le> n \<and> k \<le> b + unat (st_steps (ctx_stats c))"
| "calls_ok n b k (ProcessingToolCalls _ _ c) \<longleftrightarrow> unat (st_steps (ctx_stats c)) \<le> n \<and> k \<le> b + unat (st_steps (ctx_stats c))"
| "calls_ok n b k (WaitingForEvent c _) \<longleftrightarrow> unat (st_steps (ctx_stats c)) \<le> n \<and> k \<le> b + unat (st_steps (ctx_stats c))"

lemma calls_ok_le: "calls_ok n b k s \<Longrightarrow> k \<le> b + n"
  by (cases "(n, b, k, s)" rule: calls_ok.cases) auto

lemma unat_step:
  assumes "unat (s :: usize) < unat (n :: usize)"
  shows "unat (s + 1) = unat s + 1"
proof -
  have "unat n < 2 ^ 64" using unsigned_less [of n] by simp
  with assms have "unat s + 1 < 2 ^ 64" by simp
  then show ?thesis by (simp add: unat_add_lem [THEN iffD1])
qed

lemma with_message_stats [simp]: "ctx_stats (with_message c m) = ctx_stats c"
  by (simp add: with_message_def with_session_mode_def new_context_def)

lemma summary_context_steps [simp]: "st_steps (ctx_stats (summary_context M s c)) = st_steps (ctx_stats c)"
  by (simp add: summary_context_def)

lemma call_usage:
  assumes "transition_call_llm E c tools x = (Inr (AfterLlm r c'), x')"
    and "\<And>ms a. fst (obtain_answer E tools ms) = Inr (Some a) \<Longrightarrow> ma_usage a \<noteq> None"
  shows "lr_usage r \<noteq> None"
proof -
  from assms(1) obtain a evs where a: "obtain_answer E tools (apply_cache_breakpoints (ctx_messages c)) = (Inr (Some a), evs)"
    and r: "r = response_of_answer a"
    by (auto simp: transition_call_llm_def Let_def split: if_splits prod.splits sum.splits option.splits)
  from assms(2) [of "apply_cache_breakpoints (ctx_messages c)" a] a have "ma_usage a \<noteq> None" by simp
  with r show ?thesis
    by (simp add: response_of_answer_def new_response_def with_thinking_def with_thinking_signature_def with_message_id_def
        Let_def split: option.split)
qed

lemma calls_reach: "cycle_calls ds init k m \<Longrightarrow> cycle_reach ds init m"
  by (induction rule: cycle_calls.induct) (auto intro: cycle_reach.intros)

lemma calls_step:
  assumes p: "pipeline ds" and l: "step_limiter d n" "d \<in> set ds" and r: "cycle_reach ds init m'"
    and u: "reports_usage E" and st: "cycle_step ds init E m = Next m'" and i: "st_steps (ctx_stats init) = 0"
    and ok: "calls_ok (unat n) (unat (mc_continuations m) * unat n) k (mc_state m)"
  shows "calls_ok (unat n) (unat (mc_continuations m') * unat n) (if is_answer (mc_state m') then Suc k else k) (mc_state m')"
proof -
  note nx = cycle_step_Next [OF p st] and cont = cycle_step_continuations [OF p st]
  have below: "unat (st_steps (ctx_stats c)) < unat n" if "mc_state m' = CallLlm c tools" for c tools
    using call_below_limit [OF p l r that] by (simp add: word_less_nat_alt)
  show ?thesis
  proof (cases "mc_state m")
    case (BeforeLlmCall c)
    with nx ok cont show ?thesis
      by (auto simp: ctx_extends_fields dest!: before_returns) (metis below ctx_extends_fields(2))
  next
    case (CallLlm c tools)
    with nx have tr: "transition_call_llm (se_llm E) c tools (mc_exec m) = (Inr (mc_state m'), mc_exec m')" by simp
    from call_returns [OF tr] consider "mc_state m' = Cancelled" | r where "mc_state m' = AfterLlm r c" by auto
    then show ?thesis
    proof cases
      case 2
      from call_usage [OF tr [unfolded 2]] u have "lr_usage r \<noteq> None" by (auto simp: reports_usage_def)
      with 2 CallLlm ok cont show ?thesis by simp
    qed (use CallLlm ok cont in simp)
  next
    case (AfterLlm r c)
    with ok have lt: "unat (st_steps (ctx_stats c)) < unat n" and us: "lr_usage r \<noteq> None" by simp_all
    then have "unat (st_steps (ctx_stats (answered_context (se_llm E) r msg c))) = unat (st_steps (ctx_stats c)) + 1" for msg
      by (simp add: unat_step)
    with AfterLlm nx ok cont lt show ?thesis
      by (auto dest!: after_returns elim!: after_llm_result.elims)
  next
    case (ProcessingToolCalls calls results c)
    with nx ok cont show ?thesis by (auto dest!: processing_ok)
  next
    case (WaitingForEvent c wait)
    with nx ok cont show ?thesis by (auto simp: ctx_extends_fields elim!: wait_result.elims)
  next
    case Complete
    with nx ok cont i show ?thesis by (auto simp: inject_message_def)
  next
    case (Stopped msg t co)
    with nx ok cont show ?thesis by (cases co) (auto dest!: compaction_returns)
  qed (use nx in auto)
qed

lemma calls_bound:
  assumes "pipeline ds" "step_limiter d n" "d \<in> set ds" "st_steps (ctx_stats init) = 0" "cycle_calls ds init k m"
  shows "calls_ok (unat n) (unat (mc_continuations m) * unat n) k (mc_state m)"
  using assms(5)
proof induction
  case (begin_turn x w m)
  from start_turn_reach [OF assms(1) begin_turn] assms(4) show ?case by (auto simp: ctx_extends_fields)
next
  case (go_on k m E m')
  then have "cycle_reach ds init m'" by (blast intro: cycle_reach.step calls_reach)
  with go_on calls_step [OF assms(1-3) _ _ _ assms(4)] show ?case by blast
qed


lemma demo_answer:
  "fst (obtain_answer demo_llm_env tools ms) =
    (if tools = [] then Inl (E_Retry (RE_Llm CancelledErr))
     else Inr (Some \<lparr>ma_text = ''ok'', ma_thinking = None, ma_thinking_signature = None, ma_tool_calls = [],
       ma_usage = Some \<lparr>u_input = 1, u_output = 1, u_reasoning = 0, u_cache_read = 0, u_cache_write = 0\<rparr>,
       ma_finish_reason = Some FR_Stop, ma_message_id = None\<rparr>))"
  by (simp add: obtain_answer_def demo_llm_env_def answer_of_retry_def call_llm_with_retry_def llm_retry.simps
      answer_of_response_def is_transient_error_def)

lemma demo_reports_usage: "reports_usage demo_step_env"
  by (simp add: reports_usage_def demo_answer demo_step_env_def)

lemma demo_call_step:
  assumes "mc_state m = CallLlm c [()]"
  shows "\<exists>m' r. cycle_step ds init demo_step_env m = Next m' \<and> mc_state m' = AfterLlm r c"
proof -
  obtain evs a where "obtain_answer demo_llm_env [()] (apply_cache_breakpoints (ctx_messages c)) = (Inr (Some a), evs)"
    using demo_answer [of "[()]" "apply_cache_breakpoints (ctx_messages c)"]
    by (cases "obtain_answer demo_llm_env [()] (apply_cache_breakpoints (ctx_messages c))") auto
  moreover have "\<not> le_cancelled demo_llm_env" by (simp add: demo_llm_env_def)
  ultimately show ?thesis
    using assms by (simp add: cycle_step_def demo_step_env_def transition_call_llm_def after_transition_def Let_def)
qed


section \<open>Stopping, continuing, being cancelled\<close>

text \<open>C34: While the pre-compaction hook blocks, a turn stopped at the context threshold with automatic
  compaction never returns: whatever number of iterations runs, there is no outcome.\<close>

theorem blocked_compaction_never_returns:
  assumes "mc_state m = Stopped msg ContextThreshold co"
    and "list_all (\<lambda>E. \<not> se_cancelled E \<and> me_compaction_auto (se_maint E) \<and> me_read_fails (se_maint E) 0 = None \<and>
       (\<forall>q. \<exists>h. me_pre (se_maint E) q = Inr h \<and> pcr_should_block h)) Es"
  shows "cycle_loop ds init Es m = None"
  using assms
proof (induction Es arbitrary: m msg)
  case (Cons E Es)
  from Cons.prems(2) obtain h where h: "me_pre (se_maint E) (pre_request (se_maint E) (x_session_id (mc_exec m))
      (filter_to_effective_history (x_history (mc_exec m)))) = Inr h" "pcr_should_block h" by auto
  with Cons.prems have "run_ai_compaction (se_maint E) (mc_state m) (mc_exec m) =
      (Inr (Stopped (block_message h) ContextThreshold co), emit_events (notice_events (pcr_notices h)) (mc_exec m))"
    by (simp add: run_ai_compaction_def effective_history_def)
  with Cons.prems obtain m' where "cycle_step ds init E m = Next m'" "mc_state m' = Stopped (block_message h) ContextThreshold co"
    by (simp add: cycle_step_def stopped_arm_def Let_def)
  with Cons show ?case by simp
qed simp

theorem blocked_compaction_never_returns_witness:
  "cycle_loop [demo_limits] demo_turn_context
     (replicate 1000 (demo_step_env\<lparr>se_maint := demo_maint_env\<lparr>me_pre := (\<lambda>_. Inr \<lparr>pcr_should_block = True,
        pcr_block_reason = None, pcr_additional_contexts = [], pcr_notices = []\<rparr>)\<rparr>\<rparr>))
     \<lparr>mc_state = Stopped ''full'' ContextThreshold (Some demo_turn_context), mc_exec = demo_maint_exec,
       mc_world = demo_hook_world, mc_continuations = 0\<rparr> = None"
  by (rule blocked_compaction_never_returns)
    (simp_all add: list_all_iff demo_step_env_def demo_maint_env_def)

text \<open>When a stop hook continues a completed turn, the next step starts from the context the turn
  started with plus the hook's message: the messages and statistics that the turn added are gone from
  the context.\<close>

theorem stop_hook_restarts_turn:
  assumes "pipeline ds" and "mc_state m = Complete" and "cycle_step ds init E m = Next m'"
  shows "\<exists>t c. mc_state m' = BeforeLlmCall c \<and> ctx_messages c = ctx_messages init @ [injected_message t] \<and>
    ctx_stats c = ctx_stats init"
  using cycle_step_Next [OF assms(1,3)] assms(2) by (auto simp: inject_message_def)

theorem stop_hook_restarts_turn_witness:
  "\<exists>m' t c. cycle_step [demo_limits] demo_turn_context demo_step_env
      \<lparr>mc_state = Complete, mc_exec = demo_maint_exec, mc_world = demo_hook_world, mc_continuations = 0\<rparr> = Next m' \<and>
     mc_state m' = BeforeLlmCall c \<and> ctx_messages c = [injected_message ''hi'', injected_message t]"
proof -
  have p: "pipeline [demo_limits]" by (simp add: pipeline_def demo_limits_contract)
  obtain m' where st: "cycle_step [demo_limits] demo_turn_context demo_step_env
      \<lparr>mc_state = Complete, mc_exec = demo_maint_exec, mc_world = demo_hook_world, mc_continuations = 0\<rparr> = Next m'"
    by (simp add: cycle_step_def complete_arm_def pipeline_end [OF p] finish_turn_def demo_step_env_def
        MAX_STOP_HOOK_CONTINUATIONS_PER_TURN_def Let_def)
  from stop_hook_restarts_turn [OF p _ st] st show ?thesis
    by (auto simp: demo_turn_context_def new_context_def)
qed

lemma after_llm_history:
  assumes "transition_after_llm E r c x = (Inr (ProcessingToolCalls calls results c'), x')"
  shows "calls \<noteq> [] \<and> x_history x' \<noteq> [] \<and> tool_use_ids (last (x_history x')) = map mtc_id calls"
proof -
  let ?msg = "assistant_message E (x_session_id (snd (ensure_pre_turn_snapshot_ready E x))) r c"
  have "x_session_id (snd (ensure_pre_turn_snapshot_ready E x)) = x_session_id x"
    by (simp add: ensure_pre_turn_snapshot_ready_def add_message_def Let_def split: option.split snapshot_task.split)
  with assms have "\<exists>h. x_history x' = h @ [assistant_message E (x_session_id x) r c]"
    by (auto simp: transition_after_llm_def add_message_def Let_def case_prod_unfold split: if_splits option.splits)
  with after_returns [OF assms] show ?thesis by (auto simp: assistant_tool_use_ids)
qed

text \<open>C35: A cancellation that is first seen at the top of the loop, after the answer of the model was stored
  and before its tool calls are processed, ends the turn with the assistant message at the end of
  the history: its tool uses have no results.\<close>

theorem cancel_at_loop_top_leaves_calls_open:
  assumes "pipeline ds" and "mc_state m = AfterLlm r c" and "cycle_step ds init E1 m = Next m1"
    and "mc_state m1 = ProcessingToolCalls calls results c1" and "se_cancelled E2"
  shows "\<exists>m2. cycle_loop ds init (E1 # E2 # Es) m = Some (Inr CO_Cancelled, m2) \<and> calls \<noteq> [] \<and>
    tool_use_ids (last (x_history (mc_exec m2))) = map mtc_id calls"
proof -
  from cycle_step_Next [OF assms(1,3)] assms(2,4)
  have "transition_after_llm (se_llm E1) r c (mc_exec m) = (Inr (ProcessingToolCalls calls results c1), mc_exec m1)" by simp
  from after_llm_history [OF this] assms show ?thesis
    by (simp add: cycle_step_def [where E = E2] Let_def)
qed

definition demo_answer_machine :: "(rat, unit, unit, unit world) machine" where
  "demo_answer_machine = \<lparr>mc_state = AfterLlm (new_response ''ok''
       [\<lparr>mtc_id = ''c1'', mtc_function = \<lparr>tf_name = ''shell'', tf_arguments = ''{}''\<rparr>\<rparr>] None (Some FR_ToolCalls)) demo_turn_context,
     mc_exec = demo_maint_exec, mc_world = demo_hook_world, mc_continuations = 0\<rparr>"

theorem cancel_at_loop_top_leaves_calls_open_witness:
  "\<exists>m2. cycle_loop [demo_limits] demo_turn_context [demo_step_env, demo_step_env\<lparr>se_cancelled := True\<rparr>] demo_answer_machine
      = Some (Inr CO_Cancelled, m2) \<and> tool_use_ids (last (x_history (mc_exec m2))) = [''c1'']"
proof -
  have p: "pipeline [demo_limits]" by (simp add: pipeline_def demo_limits_contract)
  have "\<exists>m1 c1. cycle_step [demo_limits] demo_turn_context demo_step_env demo_answer_machine = Next m1 \<and>
      mc_state m1 = ProcessingToolCalls [\<lparr>mtc_id = ''c1'', mtc_function = \<lparr>tf_name = ''shell'', tf_arguments = ''{}''\<rparr>\<rparr>] [] c1"
    by (simp add: cycle_step_def demo_answer_machine_def demo_step_env_def run_after_llm_def demo_limits_def mw_defs
        with_middleware_def transition_after_llm_def demo_llm_env_def add_message_def next_after_response_def
        calls_or_complete_def new_response_def after_transition_def Let_def)
  then obtain m1 c1 where st: "cycle_step [demo_limits] demo_turn_context demo_step_env demo_answer_machine = Next m1"
    and m1: "mc_state m1 = ProcessingToolCalls [\<lparr>mtc_id = ''c1'', mtc_function = \<lparr>tf_name = ''shell'', tf_arguments = ''{}''\<rparr>\<rparr>] [] c1"
    by blast
  have "mc_state demo_answer_machine = AfterLlm (new_response ''ok''
       [\<lparr>mtc_id = ''c1'', mtc_function = \<lparr>tf_name = ''shell'', tf_arguments = ''{}''\<rparr>\<rparr>] None (Some FR_ToolCalls)) demo_turn_context"
    by (simp add: demo_answer_machine_def)
  from cancel_at_loop_top_leaves_calls_open [OF p this st m1, where Es = "[]" and ?E2.0 = "demo_step_env\<lparr>se_cancelled := True\<rparr>"]
  show ?thesis by auto
qed

lemma report_stop_return:
  "report_stop msg t m = Return r m' \<Longrightarrow> \<exists>k l. r = Inr (CO_Stopped (stop_reason_of t)) \<and>
     x_events (mc_exec m') = x_events (mc_exec m) @ [Ev_MiddlewareStopped t msg k l]"
  by (auto simp: report_stop_def stop_metrics_def split: option.splits)

lemma not_stopped_return [simp]:
  "after_transition m r = Return (Inr o') m' \<Longrightarrow> False" "with_middleware r' m k = Return (Inr o') m' \<Longrightarrow> False"
  "complete_arm ds E init m = Return (Inr (CO_Stopped sr)) m' \<Longrightarrow> False"
  by (auto simp: after_transition_def with_middleware_def complete_arm_def finish_turn_def Let_def
      split: prod.splits sum.splits option.splits execution_state.splits if_splits)

text \<open>C33: A turn that ends as stopped was in a stopped state and has published that stop as its last event;
  the stop reason it returns is the one of the published type.\<close>

theorem stop_is_reported:
  assumes "cycle_step ds init E m = Return (Inr (CO_Stopped reason)) m'"
  shows "\<exists>msg t co k l. mc_state m = Stopped msg t co \<and> reason = stop_reason_of t \<and>
    last (x_events (mc_exec m')) = Ev_MiddlewareStopped t msg k l"
  using assms
  by (cases "mc_state m")
    (auto simp: cycle_step_def stopped_arm_def Let_def split: if_splits option.splits sum.splits prod.splits
      dest!: report_stop_return not_stopped_return)

theorem stop_is_reported_witness:
  "\<exists>m' msg t co k l. cycle_step [demo_limits] demo_turn_context demo_step_env
      \<lparr>mc_state = Stopped ''Max steps'' StepLimit None, mc_exec = demo_maint_exec, mc_world = demo_hook_world, mc_continuations = 0\<rparr>
      = Return (Inr (CO_Stopped MaxTurnRequests)) m' \<and>
     Stopped ''Max steps'' StepLimit (None :: rat conversation_context option) = (Stopped msg t co :: (rat, unit, unit) execution_state) \<and>
     last (x_events (mc_exec m')) = Ev_MiddlewareStopped t msg k l"
proof -
  obtain m' where st: "cycle_step [demo_limits] demo_turn_context demo_step_env
      \<lparr>mc_state = Stopped ''Max steps'' StepLimit None, mc_exec = demo_maint_exec, mc_world = demo_hook_world, mc_continuations = 0\<rparr>
      = Return (Inr (CO_Stopped MaxTurnRequests)) m'"
    by (simp add: cycle_step_def stopped_arm_def report_stop_def stop_metrics_def demo_step_env_def Let_def)
  from stop_is_reported [OF this] st show ?thesis by auto
qed

end
