(* ===== verification/Spec2Isabelle.thy ===== *)
theory Spec2Isabelle
  imports Undo Scheduler Edit Context_Middleware Delegation_Middleware Task_Middleware Mode_Middleware State_Machine
begin

text \<open>
  A verification library for querymt.
\<close>

section \<open>The preset pipelines\<close>

text \<open>C21: Each preset of \<^verbatim>\<open>presets.rs\<close>, run at the start of a step on \<^verbatim>\<open>BeforeLlmCall\<close>, succeeds in
  every world and yields either \<^verbatim>\<open>BeforeLlmCall\<close> with the given context extended by injected user
  messages, or \<^verbatim>\<open>Stopped\<close> with such a context: session, statistics, provider, model and the
  existing messages are kept.\<close>

theorem preset_step_contract:
  "\<exists>s' w'. run_step_start (case k of 0 \<Rightarrow> preset_defaults F cache a | Suc 0 \<Rightarrow> preset_cost_conscious F cache a
       | Suc (Suc 0) \<Rightarrow> preset_performance F cache a | _ \<Rightarrow> preset_manual F cache a n i x) (BeforeLlmCall c) w
      = (Inr s', w') \<and> step_result c s'"
  unfolding run_step_start_def
  by (rule run_step_start_contract) (auto split: nat.splits dest: preset_contract)

end
